theory Spec2Isabelle
  imports Complex_Main
begin

section \<open>JavaScript numbers\<close>

text \<open>
  The scoring engine computes with JavaScript numbers. A finite number is modelled by
  a real; the three special values that the engine can meet are kept: \<open>-Infinity\<close> is
  the initial \<open>maxScore\<close>, an infinity is also what an operation returns when its result
  overflows, and \<open>NaN\<close> is what arithmetic on \<open>undefined\<close> and a product
  \<open>Infinity * 0\<close> yield. The operations of this section are exact on finite
  operands; rounding and overflow enter in the next section. The sign of zero is not
  modelled: \<open>-0\<close> and \<open>0\<close> compare equal everywhere in the engine, and a division by
  zero is read as a division by \<open>+0\<close>.
\<close>

datatype jsnum = Num real | PosInfinity | NegInfinity | NaN

fun jneg :: "jsnum \<Rightarrow> jsnum" where
  "jneg (Num x) = Num (- x)"
| "jneg PosInfinity = NegInfinity"
| "jneg NegInfinity = PosInfinity"
| "jneg NaN = NaN"

fun jadd :: "jsnum \<Rightarrow> jsnum \<Rightarrow> jsnum" where
  "jadd NaN _ = NaN"
| "jadd _ NaN = NaN"
| "jadd (Num x) (Num y) = Num (x + y)"
| "jadd PosInfinity NegInfinity = NaN"
| "jadd NegInfinity PosInfinity = NaN"
| "jadd PosInfinity _ = PosInfinity"
| "jadd _ PosInfinity = PosInfinity"
| "jadd NegInfinity _ = NegInfinity"
| "jadd _ NegInfinity = NegInfinity"

definition jsub :: "jsnum \<Rightarrow> jsnum \<Rightarrow> jsnum" where
  "jsub x y = jadd x (jneg y)"

text \<open>The product of an infinity with a finite number takes the sign of the product;
  \<open>Infinity * 0\<close> is \<open>NaN\<close>.\<close>

fun jmul :: "jsnum \<Rightarrow> jsnum \<Rightarrow> jsnum" where
  "jmul NaN _ = NaN"
| "jmul _ NaN = NaN"
| "jmul (Num x) (Num y) = Num (x * y)"
| "jmul (Num x) PosInfinity =
     (if x = 0 then NaN else if 0 < x then PosInfinity else NegInfinity)"
| "jmul (Num x) NegInfinity =
     (if x = 0 then NaN else if 0 < x then NegInfinity else PosInfinity)"
| "jmul PosInfinity (Num y) =
     (if y = 0 then NaN else if 0 < y then PosInfinity else NegInfinity)"
| "jmul NegInfinity (Num y) =
     (if y = 0 then NaN else if 0 < y then NegInfinity else PosInfinity)"
| "jmul PosInfinity PosInfinity = PosInfinity"
| "jmul NegInfinity NegInfinity = PosInfinity"
| "jmul PosInfinity NegInfinity = NegInfinity"
| "jmul NegInfinity PosInfinity = NegInfinity"

fun jdiv :: "jsnum \<Rightarrow> jsnum \<Rightarrow> jsnum" where
  "jdiv NaN _ = NaN"
| "jdiv _ NaN = NaN"
| "jdiv (Num x) (Num y) =
     (if y \<noteq> 0 then Num (x / y)
      else if x = 0 then NaN else if 0 < x then PosInfinity else NegInfinity)"
| "jdiv (Num x) _ = Num 0"
| "jdiv PosInfinity (Num y) = (if 0 \<le> y then PosInfinity else NegInfinity)"
| "jdiv NegInfinity (Num y) = (if 0 \<le> y then NegInfinity else PosInfinity)"
| "jdiv _ _ = NaN"

fun jabs :: "jsnum \<Rightarrow> jsnum" where
  "jabs (Num x) = Num \<bar>x\<bar>"
| "jabs PosInfinity = PosInfinity"
| "jabs NegInfinity = PosInfinity"
| "jabs NaN = NaN"

text \<open>\<open>Math.exp\<close>, \<open>Math.log\<close> and \<open>Math.round\<close> (which rounds a half towards
  \<open>+Infinity\<close>, as \<^const>\<open>round\<close> does).\<close>

fun jexp :: "jsnum \<Rightarrow> jsnum" where
  "jexp (Num x) = Num (exp x)"
| "jexp PosInfinity = PosInfinity"
| "jexp NegInfinity = Num 0"
| "jexp NaN = NaN"

fun jlog :: "jsnum \<Rightarrow> jsnum" where
  "jlog (Num x) = (if x < 0 then NaN else if x = 0 then NegInfinity else Num (ln x))"
| "jlog PosInfinity = PosInfinity"
| "jlog NegInfinity = NaN"
| "jlog NaN = NaN"

fun jround :: "jsnum \<Rightarrow> jsnum" where
  "jround (Num x) = Num (of_int (round x))"
| "jround v = v"

text \<open>Comparisons: every comparison with \<open>NaN\<close> is false.\<close>

fun jlt :: "jsnum \<Rightarrow> jsnum \<Rightarrow> bool" where
  "jlt NaN _ = False"
| "jlt _ NaN = False"
| "jlt (Num x) (Num y) = (x < y)"
| "jlt PosInfinity _ = False"
| "jlt _ PosInfinity = True"
| "jlt _ NegInfinity = False"
| "jlt NegInfinity _ = True"

definition jgt :: "jsnum \<Rightarrow> jsnum \<Rightarrow> bool" where
  "jgt x y = jlt y x"

definition jle :: "jsnum \<Rightarrow> jsnum \<Rightarrow> bool" where
  "jle x y = (x \<noteq> NaN \<and> y \<noteq> NaN \<and> (jlt x y \<or> x = y))"

definition jge :: "jsnum \<Rightarrow> jsnum \<Rightarrow> bool" where
  "jge x y = jle y x"

text \<open>\<open>Math.max\<close> and \<open>Math.min\<close> of two arguments return \<open>NaN\<close> when either
  argument is \<open>NaN\<close>.\<close>

definition jmax :: "jsnum \<Rightarrow> jsnum \<Rightarrow> jsnum" where
  "jmax x y = (if x = NaN \<or> y = NaN then NaN else if jlt x y then y else x)"

definition jmin :: "jsnum \<Rightarrow> jsnum \<Rightarrow> jsnum" where
  "jmin x y = (if x = NaN \<or> y = NaN then NaN else if jlt y x then y else x)"

text \<open>A value read from a property that may be absent: \<open>None\<close> is \<open>undefined\<close>,
  which becomes \<open>NaN\<close> as soon as it enters arithmetic.\<close>

fun toNumber :: "real option \<Rightarrow> jsnum" where
  "toNumber None = NaN"
| "toNumber (Some x) = Num x"

section \<open>The arithmetic of the 64-bit format\<close>

text \<open>
  On finite operands an operation of the 64-bit format returns the rounded result, or an
  infinity when the result overflows. The trait estimator and the clarity index compute
  with item parameters and estimates that are arbitrary numbers of the format: there the
  rounding decides a comparison with a tolerance or a tie of \<open>Math.round\<close>, and a
  product of large parameters overflows. Their five operations are therefore not fixed:
  they are a parameter, and what is proved of the estimator and of the index holds for
  every arithmetic, in particular for the one of the format. An operation applied to an
  operand that is not finite, and a division by zero, follow the rules of the previous
  section whatever the arithmetic is. Negation, absolute value, the comparisons,
  \<open>Math.max\<close>, \<open>Math.min\<close> and \<open>Math.round\<close> are exact in the format.
\<close>

record arith =
  fadd :: "real \<Rightarrow> real \<Rightarrow> jsnum"
  fsub :: "real \<Rightarrow> real \<Rightarrow> jsnum"
  fmul :: "real \<Rightarrow> real \<Rightarrow> jsnum"
  fdiv :: "real \<Rightarrow> real \<Rightarrow> jsnum"
  fexp :: "real \<Rightarrow> jsnum"

fun fl_add :: "arith \<Rightarrow> jsnum \<Rightarrow> jsnum \<Rightarrow> jsnum" where
  "fl_add A (Num x) (Num y) = fadd A x y"
| "fl_add A x y = jadd x y"

fun fl_sub :: "arith \<Rightarrow> jsnum \<Rightarrow> jsnum \<Rightarrow> jsnum" where
  "fl_sub A (Num x) (Num y) = fsub A x y"
| "fl_sub A x y = jsub x y"

fun fl_mul :: "arith \<Rightarrow> jsnum \<Rightarrow> jsnum \<Rightarrow> jsnum" where
  "fl_mul A (Num x) (Num y) = fmul A x y"
| "fl_mul A x y = jmul x y"

fun fl_div :: "arith \<Rightarrow> jsnum \<Rightarrow> jsnum \<Rightarrow> jsnum" where
  "fl_div A (Num x) (Num y) = (if y = 0 then jdiv (Num x) (Num y) else fdiv A x y)"
| "fl_div A x y = jdiv x y"

fun fl_exp :: "arith \<Rightarrow> jsnum \<Rightarrow> jsnum" where
  "fl_exp A (Num x) = fexp A x"
| "fl_exp A x = jexp x"

text \<open>The arithmetic that never rounds and never overflows, to compute examples
  with.\<close>

definition exact_arith :: arith where
  "exact_arith =
     \<lparr>fadd = (\<lambda>x y. Num (x + y)), fsub = (\<lambda>x y. Num (x - y)), fmul = (\<lambda>x y. Num (x * y)),
      fdiv = (\<lambda>x y. Num (x / y)), fexp = (\<lambda>x. Num (exp x))\<rparr>"

text \<open>A result of magnitude \<open>2^1024\<close> or more overflows.\<close>

definition overflow :: "real \<Rightarrow> jsnum" where
  "overflow r =
     (if 2 ^ 1024 \<le> r then PosInfinity else if r \<le> - (2 ^ 1024) then NegInfinity else Num r)"

text \<open>The arithmetic of the format itself: every operation returns its exact result
  rounded to the nearest number of the format, ties to the even significand. A number
  other than zero of binary exponent \<open>e\<close> (at least -1022, the exponent of the
  subnormal numbers) is rounded to a multiple of \<open>2^(e-52)\<close>, and a rounded result
  of magnitude \<open>2^1024\<close> or more is an infinity. (The language leaves the precision
  of \<open>Math.exp\<close> to the implementation; the correctly rounded exponential stands
  for it here.)\<close>

definition round_half_even :: "real \<Rightarrow> int" where
  "round_half_even x =
     (let f = \<lfloor>x\<rfloor>
      in if x - of_int f < 1 / 2 then f
         else if 1 / 2 < x - of_int f then f + 1
         else if even f then f else f + 1)"

definition binary_exponent :: "real \<Rightarrow> int" where
  "binary_exponent x = max \<lfloor>log 2 \<bar>x\<bar>\<rfloor> (- 1022)"

definition double_round :: "real \<Rightarrow> jsnum" where
  "double_round x =
     (if x = 0 then Num 0
      else let u = 2 powr (of_int (binary_exponent x) - 52)
           in overflow (of_int (round_half_even (x / u)) * u))"

definition double_arith :: arith where
  "double_arith =
     \<lparr>fadd = (\<lambda>x y. double_round (x + y)), fsub = (\<lambda>x y. double_round (x - y)),
      fmul = (\<lambda>x y. double_round (x * y)), fdiv = (\<lambda>x y. double_round (x / y)),
      fexp = (\<lambda>x. double_round (exp x))\<rparr>"

section \<open>Input data\<close>

text \<open>
  The item parameter table \<open>itemParameters\<close> is imported from a module that supplies
  fixed constants; the engine takes it as it is, so it is a parameter here: a list whose
  position is the question index (\<open>params.params.a\<close> and \<open>params.params.b\<close> are
  the two coefficients).
\<close>

record item_param =
  dichotomy :: string
  param_a :: real
  param_b :: real

text \<open>A forced-choice question carries its 1-based number and its options. The map
  \<open>options q\<close> holds the own properties of the object \<open>q.options\<close>; an entry may
  lack the \<open>scoreKey\<close> property (\<open>None\<close> is \<open>undefined\<close>).\<close>

record mbti_option =
  scoreKey :: "real option"

record mbti_question =
  number :: nat
  options :: "string \<rightharpoonup> mbti_option"

text \<open>An answer object \<open>{ choice: ... }\<close> is represented by its choice. The answers
  to the forced-choice questions are keyed by question number.\<close>

type_synonym mbti_answers = "nat \<rightharpoonup> string"

text \<open>The choice of a Likert answer is whatever the caller stored: a string (the
  value of the radio button), a number, or nothing.\<close>

datatype jsval = Undefined | NumV jsnum | StrV string

type_synonym attitude_answers = "string \<rightharpoonup> jsval"

record attitude_question =
  q_id :: string
  construct1_pole :: string
  construct2_pole :: string

text \<open>A property read on \<open>undefined\<close> raises a \<open>TypeError\<close>; the message names the
  property that was being read and nothing else.\<close>

datatype js_error = TypeError string

section \<open>Static tables\<close>

type_synonym stack = "string \<times> string \<times> string \<times> string"

definition TYPE_FUNCTION_STACKS :: "(string \<times> stack) list" where
  "TYPE_FUNCTION_STACKS =
    [(''INTP'', (''Ti'', ''Ne'', ''Si'', ''Fe'')), (''ENTP'', (''Ne'', ''Ti'', ''Fe'', ''Si'')),
     (''ISTP'', (''Ti'', ''Se'', ''Ni'', ''Fe'')), (''ESTP'', (''Se'', ''Ti'', ''Fe'', ''Ni'')),
     (''INFJ'', (''Ni'', ''Fe'', ''Ti'', ''Se'')), (''ENFJ'', (''Fe'', ''Ni'', ''Se'', ''Ti'')),
     (''INTJ'', (''Ni'', ''Te'', ''Fi'', ''Se'')), (''ENTJ'', (''Te'', ''Ni'', ''Se'', ''Fi'')),
     (''ISFP'', (''Fi'', ''Se'', ''Ni'', ''Te'')), (''ESFP'', (''Se'', ''Fi'', ''Te'', ''Ni'')),
     (''INFP'', (''Fi'', ''Ne'', ''Si'', ''Te'')), (''ENFP'', (''Ne'', ''Fi'', ''Te'', ''Si'')),
     (''ISTJ'', (''Si'', ''Te'', ''Fi'', ''Ne'')), (''ESTJ'', (''Te'', ''Si'', ''Ne'', ''Fi'')),
     (''ISFJ'', (''Si'', ''Fe'', ''Ti'', ''Ne'')), (''ESFJ'', (''Fe'', ''Si'', ''Ne'', ''Ti''))]"

text \<open>The keys of \<open>DICHOTOMY_CONFIG\<close>, in declaration order. The \<open>poles\<close> and
  \<open>tieBreaker\<close> entries are read by no function of the engine.\<close>

definition DICHOTOMY_CONFIG :: "string list" where
  "DICHOTOMY_CONFIG = [''E-I'', ''S-N'', ''T-F'']"

datatype pcc = Slight | Moderate | Clear | Very_Clear

definition IRT_CLARITY_WEIGHT :: "pcc \<Rightarrow> real" where
  "IRT_CLARITY_WEIGHT c =
     (case c of Slight \<Rightarrow> 2 | Moderate \<Rightarrow> 4 | Clear \<Rightarrow> 6 | Very_Clear \<Rightarrow> 8)"

definition ATTITUDE_SCORE_WEIGHT :: real where
  "ATTITUDE_SCORE_WEIGHT = 1"

record position_weight =
  w_dom :: real
  w_aux :: real
  w_ter :: real
  w_inf :: real

definition ATTITUDE_STACK_POSITION_WEIGHT :: position_weight where
  "ATTITUDE_STACK_POSITION_WEIGHT = \<lparr>w_dom = 4, w_aux = 3, w_ter = 3/2, w_inf = 1\<rparr>"

text \<open>The two tolerances of the estimator are the literals \<open>1e-9\<close> and \<open>0.0001\<close>,
  which denote the numbers of the format nearest to \<open>10^-9\<close> and \<open>10^-4\<close>. Both lie
  above the decimal, and no number of the format lies between a decimal and its
  literal: on numbers of the format, being below the literal and being below the decimal
  are the same.\<close>

definition lit_1e_9 :: real where
  "lit_1e_9 = 4835703278458517 / 2 ^ 82"

definition lit_1e_4 :: real where
  "lit_1e_4 = 7378697629483821 / 2 ^ 66"

section \<open>Helper functions and the trait estimator\<close>

text \<open>A property lookup on a plain object finds, besides the own properties of the
  object, the properties that every object inherits, \<open>constructor\<close> or
  \<open>toString\<close> for instance; their values are functions and objects.\<close>

definition inherited_names :: "string list" where
  "inherited_names =
     [''constructor'', ''hasOwnProperty'', ''isPrototypeOf'', ''propertyIsEnumerable'',
      ''toLocaleString'', ''toString'', ''valueOf'', ''__proto__'', ''__defineGetter__'',
      ''__defineSetter__'', ''__lookupGetter__'', ''__lookupSetter__'']"

text \<open>\<open>dichotomyToQuestionMap\<close> is filled at load time from the entries of the item
  parameter table, in index order, for the names \<open>d\<close> at which
  \<open>DICHOTOMY_CONFIG[d]\<close> is truthy: the three configured dichotomies and the
  inherited names. The engine queries the map for the configured dichotomies only.\<close>

definition dichotomyToQuestionMap :: "item_param list \<Rightarrow> string \<rightharpoonup> nat list" where
  "dichotomyToQuestionMap ip d =
     (let idx = map fst (filter (\<lambda>(i, p). dichotomy p = d) (enumerate 0 ip))
      in if (d \<in> set DICHOTOMY_CONFIG \<or> d \<in> set inherited_names) \<and> idx \<noteq> []
         then Some idx else None)"

definition probability :: "arith \<Rightarrow> jsnum \<Rightarrow> jsnum \<Rightarrow> jsnum \<Rightarrow> jsnum" where
  "probability A th a b =
     fl_div A (Num 1) (fl_add A (Num 1) (fl_exp A (fl_mul A (jneg a) (fl_sub A th b))))"

definition getPccCategory :: "jsnum \<Rightarrow> pcc" where
  "getPccCategory p =
     (if jge p (Num 26) then Very_Clear
      else if jge p (Num 16) then Clear
      else if jge p (Num 6) then Moderate
      else Slight)"

record item =
  item_a :: real
  item_b :: real
  item_u :: "real option"

text \<open>The property lookup \<open>questionData.options[answer.choice]\<close>. A choice that is
  not an own property of the options object still finds the inherited properties, whose
  values are objects without a \<open>scoreKey\<close>. Any other choice yields \<open>undefined\<close>
  (\<open>None\<close>).\<close>

definition lookupOption :: "mbti_question \<Rightarrow> string \<Rightarrow> mbti_option option" where
  "lookupOption questionData choice =
     (case options questionData choice of
        Some opt \<Rightarrow> Some opt
      | None \<Rightarrow> if choice \<in> set inherited_names then Some \<lparr>scoreKey = None\<rparr> else None)"

text \<open>The callback of \<open>answeredQuestionIndices.map\<close>: it raises where it reads a
  property of \<open>undefined\<close>, and it does not look at what \<open>scoreKey\<close> holds.\<close>

definition resolveItem ::
  "item_param list \<Rightarrow> mbti_answers \<Rightarrow> mbti_question list \<Rightarrow> nat \<Rightarrow> js_error + item" where
  "resolveItem ip answers allQuestions qIndex =
     (case find (\<lambda>q. number q = qIndex + 1) allQuestions of
        None \<Rightarrow> Inl (TypeError ''options'')
      | Some questionData \<Rightarrow>
          (case answers (qIndex + 1) of
             None \<Rightarrow> Inl (TypeError ''choice'')
           | Some answer_choice \<Rightarrow>
               (case lookupOption questionData answer_choice of
                  None \<Rightarrow> Inl (TypeError ''scoreKey'')
                | Some opt \<Rightarrow>
                    if qIndex < length ip
                    then Inr \<lparr>item_a = param_a (ip ! qIndex), item_b = param_b (ip ! qIndex),
                              item_u = scoreKey opt\<rparr>
                    else Inl (TypeError ''params''))))"

text \<open>\<open>Array.prototype.map\<close> with a callback that may raise: the first exception
  ends the whole call.\<close>

fun mapE :: "('a \<Rightarrow> 'e + 'b) \<Rightarrow> 'a list \<Rightarrow> 'e + 'b list" where
  "mapE f [] = Inr []"
| "mapE f (x # xs) =
     (case f x of
        Inl e \<Rightarrow> Inl e
      | Inr y \<Rightarrow> (case mapE f xs of Inl e \<Rightarrow> Inl e | Inr ys \<Rightarrow> Inr (y # ys)))"

text \<open>The inner loop over the items: both derivatives are accumulated from 0.\<close>

definition accumulate :: "arith \<Rightarrow> jsnum \<Rightarrow> jsnum \<times> jsnum \<Rightarrow> item \<Rightarrow> jsnum \<times> jsnum" where
  "accumulate A th acc it =
     (let a = Num (item_a it); b = Num (item_b it); u = toNumber (item_u it);
          P = probability A th a b
      in (fl_add A (fst acc) (fl_mul A a (fl_sub A u P)),
          fl_add A (snd acc)
            (fl_mul A (fl_mul A (fl_mul A (jneg a) a) (fl_sub A (Num 1) P)) P)))"

definition derivatives :: "arith \<Rightarrow> jsnum \<Rightarrow> item list \<Rightarrow> jsnum \<times> jsnum" where
  "derivatives A th items = foldl (accumulate A th) (Num 0, Num 0) items"

text \<open>The outer loop \<open>for (iter = 0; iter < 20; iter++)\<close>; the second argument is the
  number of iterations that remain.\<close>

fun newton :: "arith \<Rightarrow> nat \<Rightarrow> item list \<Rightarrow> jsnum \<Rightarrow> jsnum" where
  "newton A 0 items th = th"
| "newton A (Suc n) items th =
     (case derivatives A th items of
        (firstDerivative, secondDerivative) \<Rightarrow>
          if jlt (jabs secondDerivative) (Num lit_1e_9) then th
          else
            let newTheta = fl_sub A th (fl_div A firstDerivative secondDerivative);
                clampedTheta = jmax (Num (- 3)) (jmin (Num 3) newTheta)
            in if jlt (jabs (fl_sub A clampedTheta th)) (Num lit_1e_4) then clampedTheta
               else newton A n items clampedTheta)"

text \<open>The first two lines of \<open>findBestThetaForDichotomy\<close>: the indices of the
  dichotomy (\<open>[]\<close> when the map has no entry) that have a recorded answer.\<close>

definition answeredQuestionIndices :: "item_param list \<Rightarrow> string \<Rightarrow> mbti_answers \<Rightarrow> nat list" where
  "answeredQuestionIndices ip dichotomyName answers =
     (let allDichotomyIndices =
            (case dichotomyToQuestionMap ip dichotomyName of None \<Rightarrow> [] | Some l \<Rightarrow> l)
      in filter (\<lambda>qIndex. answers (qIndex + 1) \<noteq> None) allDichotomyIndices)"

definition findBestThetaForDichotomy ::
  "arith \<Rightarrow> item_param list \<Rightarrow> string \<Rightarrow> mbti_answers \<Rightarrow> mbti_question list
     \<Rightarrow> js_error + jsnum" where
  "findBestThetaForDichotomy A ip dichotomyName answers allQuestions =
     (let answered = answeredQuestionIndices ip dichotomyName answers
      in if length answered = 0 then Inr (Num 0)
         else
           (case mapE (resolveItem ip answers allQuestions) answered of
              Inl e \<Rightarrow> Inl e
            | Inr items \<Rightarrow> Inr (newton A 20 items (Num 0))))"

section \<open>The scoring engine\<close>

subsection \<open>Step 1: core dichotomy strengths\<close>

text \<open>The index expression of \<open>calculateHybridResults\<close>:
  \<open>theta === 0 ? 1 : Math.max(1, Math.round((Math.abs(theta) / 3.0) * 30))\<close>.\<close>

definition computePci :: "arith \<Rightarrow> jsnum \<Rightarrow> jsnum" where
  "computePci A th =
     (if th = Num 0 then Num 1
      else jmax (Num 1) (jround (fl_mul A (fl_div A (jabs th) (Num 3)) (Num 30))))"

text \<open>One entry of \<open>coreResults\<close>. The first version of the engine stores \<open>pcc\<close> and
  \<open>theta\<close>, the second one \<open>pci\<close> as well.\<close>

record core_result =
  res_pcc :: pcc
  res_theta :: jsnum
  res_pci :: jsnum

definition coreResult ::
  "arith \<Rightarrow> item_param list \<Rightarrow> mbti_answers \<Rightarrow> mbti_question list \<Rightarrow> string
     \<Rightarrow> js_error + core_result" where
  "coreResult A ip mbtiAnswers allMbtiQuestions d =
     (case findBestThetaForDichotomy A ip d mbtiAnswers allMbtiQuestions of
        Inl e \<Rightarrow> Inl e
      | Inr th \<Rightarrow>
          (let p = computePci A th
           in Inr \<lparr>res_pcc = getPccCategory p, res_theta = th, res_pci = p\<rparr>))"

text \<open>The loop over the entries of \<open>DICHOTOMY_CONFIG\<close>, which stops at the first
  estimator that raises, and the destructuring into \<open>eiResult\<close>, \<open>snResult\<close> and
  \<open>tfResult\<close>: the loop leaves one entry per key, in the order of the keys.\<close>

definition coreResults ::
  "arith \<Rightarrow> item_param list \<Rightarrow> mbti_answers \<Rightarrow> mbti_question list
     \<Rightarrow> js_error + core_result \<times> core_result \<times> core_result" where
  "coreResults A ip mbtiAnswers allMbtiQuestions =
     (case mapE (coreResult A ip mbtiAnswers allMbtiQuestions) DICHOTOMY_CONFIG of
        Inl e \<Rightarrow> Inl e
      | Inr rs \<Rightarrow> Inr (rs ! 0, rs ! 1, rs ! 2))"

subsection \<open>Step 2: attitude strengths\<close>

text \<open>From here on the engine adds the weights 1 and 2 and multiplies estimates, which
  lie between -3 and 3, with a few fixed weights; these sums and products are taken with
  the exact operations.\<close>

type_synonym strengths = "string \<rightharpoonup> jsnum"

definition initialStrengths :: strengths where
  "initialStrengths =
     [''Ti'' \<mapsto> Num 0, ''Te'' \<mapsto> Num 0, ''Fi'' \<mapsto> Num 0, ''Fe'' \<mapsto> Num 0,
      ''Si'' \<mapsto> Num 0, ''Se'' \<mapsto> Num 0, ''Ni'' \<mapsto> Num 0, ''Ne'' \<mapsto> Num 0]"

text \<open>\<open>likertWeights[answer.choice]\<close>: the choice is turned into a property key, so the
  number 1 and the string "1" find the same entry. Any other key finds \<open>undefined\<close>
  (\<open>None\<close>) or an inherited property of the object, a function, and neither is greater
  or less than 0.\<close>

definition likertWeights :: "jsval \<Rightarrow> real option" where
  "likertWeights c =
     (if c = StrV ''1'' \<or> c = NumV (Num 1) then Some 2
      else if c = StrV ''2'' \<or> c = NumV (Num 2) then Some 1
      else if c = StrV ''3'' \<or> c = NumV (Num 3) then Some 0
      else if c = StrV ''4'' \<or> c = NumV (Num 4) then Some (- 1)
      else if c = StrV ''5'' \<or> c = NumV (Num 5) then Some (- 2)
      else None)"

fun truthy :: "jsval \<Rightarrow> bool" where
  "truthy Undefined = False"
| "truthy (NumV (Num x)) = (x \<noteq> 0)"
| "truthy (NumV NaN) = False"
| "truthy (NumV _) = True"
| "truthy (StrV s) = (s \<noteq> [])"

text \<open>\<open>attitudeStrengths[pole] += w\<close>; a pole that is not a key yet reads as
  \<open>undefined\<close>. The scoring reads the eight function labels only, which are keys
  from the start.\<close>

definition strength :: "strengths \<Rightarrow> string \<Rightarrow> jsnum" where
  "strength m f = (case m f of None \<Rightarrow> NaN | Some v \<Rightarrow> v)"

definition addStrength :: "strengths \<Rightarrow> string \<Rightarrow> jsnum \<Rightarrow> strengths" where
  "addStrength m pole w = m(pole \<mapsto> jadd (strength m pole) w)"

definition likertStep :: "attitude_answers \<Rightarrow> strengths \<Rightarrow> attitude_question \<Rightarrow> strengths" where
  "likertStep attitudeAnswers m q =
     (case attitudeAnswers (q_id q) of
        None \<Rightarrow> m
      | Some c \<Rightarrow>
          if truthy c then
            (case likertWeights c of
               None \<Rightarrow> m
             | Some w \<Rightarrow>
                 if 0 < w then addStrength m (construct1_pole q) (Num w)
                 else if w < 0 then addStrength m (construct2_pole q) (Num \<bar>w\<bar>)
                 else m)
          else m)"

definition attitudeStrengths :: "attitude_answers \<Rightarrow> attitude_question list \<Rightarrow> strengths" where
  "attitudeStrengths attitudeAnswers allAttitudeQuestions =
     foldl (likertStep attitudeAnswers) initialStrengths allAttitudeQuestions"

subsection \<open>Step 3: holistic scoring of the 16 stacks\<close>

definition startsWith_E :: "string \<Rightarrow> bool" where
  "startsWith_E t = (case t of [] \<Rightarrow> False | c # _ \<Rightarrow> c = CHR ''E'')"

definition includes_char :: "string \<Rightarrow> char \<Rightarrow> bool" where
  "includes_char t c = (c \<in> set t)"

text \<open>The body of the loop up to \<open>typeScores[type] = currentScore\<close>.\<close>

definition typeScore ::
  "core_result \<Rightarrow> core_result \<Rightarrow> core_result \<Rightarrow> strengths \<Rightarrow> string \<Rightarrow> stack \<Rightarrow> jsnum" where
  "typeScore eiResult snResult tfResult st type stk =
     (case stk of (domf, auxf, terf, inff) \<Rightarrow>
        let eiMatch = (if startsWith_E type then res_theta eiResult else jneg (res_theta eiResult));
            snMatch = (if includes_char type CHR ''S'' then res_theta snResult
                       else jneg (res_theta snResult));
            tfMatch = (if includes_char type CHR ''T'' then res_theta tfResult
                       else jneg (res_theta tfResult));
            s1 = jadd (Num 0) (jmul eiMatch (Num (IRT_CLARITY_WEIGHT (res_pcc eiResult))));
            s2 = jadd s1 (jmul snMatch (Num (IRT_CLARITY_WEIGHT (res_pcc snResult))));
            s3 = jadd s2 (jmul tfMatch (Num (IRT_CLARITY_WEIGHT (res_pcc tfResult))));
            attitudeScore =
              jadd (jadd (jadd
                (jmul (strength st domf) (Num (w_dom ATTITUDE_STACK_POSITION_WEIGHT)))
                (jmul (strength st auxf) (Num (w_aux ATTITUDE_STACK_POSITION_WEIGHT))))
                (jmul (strength st terf) (Num (w_ter ATTITUDE_STACK_POSITION_WEIGHT))))
                (jmul (strength st inff) (Num (w_inf ATTITUDE_STACK_POSITION_WEIGHT)))
        in jadd s3 (jmul attitudeScore (Num ATTITUDE_SCORE_WEIGHT)))"

text \<open>The state of the loop: \<open>bestFitType\<close> (\<open>None\<close> is \<open>null\<close>), \<open>maxScore\<close> and
  \<open>typeScores\<close>.\<close>

type_synonym scoring_state = "string option \<times> jsnum \<times> (string \<rightharpoonup> jsnum)"

definition scoreStep ::
  "(string \<Rightarrow> stack \<Rightarrow> jsnum) \<Rightarrow> scoring_state \<Rightarrow> string \<times> stack \<Rightarrow> scoring_state" where
  "scoreStep f s entry =
     (case s of (bestFitType, maxScore, typeScores) \<Rightarrow>
        case entry of (type, stk) \<Rightarrow>
          let currentScore = f type stk;
              typeScores' = typeScores(type \<mapsto> currentScore)
          in if jgt currentScore maxScore then (Some type, currentScore, typeScores')
             else (bestFitType, maxScore, typeScores'))"

definition scoreAll :: "(string \<Rightarrow> stack \<Rightarrow> jsnum) \<Rightarrow> scoring_state" where
  "scoreAll f = foldl (scoreStep f) (None, NegInfinity, Map.empty) TYPE_FUNCTION_STACKS"

subsection \<open>Step 4: the result\<close>

text \<open>The result object without its \<open>rationale\<close>, a display string formatted from
  the three estimates, the winning type and its score, which no later step reads.\<close>

record result =
  finalType :: string
  dominant :: string
  auxiliary :: string
  tertiary :: string
  inferior :: string
  score :: jsnum
  allTypeScores :: "string \<rightharpoonup> jsnum"

text \<open>\<open>TYPE_FUNCTION_STACKS[bestFitType]\<close> is \<open>undefined\<close> when no type was ever
  the best fit, and then \<open>finalStack[0]\<close> raises.\<close>

definition finalize :: "scoring_state \<Rightarrow> js_error + result" where
  "finalize s =
     (case s of (bestFitType, maxScore, typeScores) \<Rightarrow>
        case bestFitType of
          None \<Rightarrow> Inl (TypeError ''0'')
        | Some t \<Rightarrow>
            (case map_of TYPE_FUNCTION_STACKS t of
               None \<Rightarrow> Inl (TypeError ''0'')
             | Some (f0, f1, f2, f3) \<Rightarrow>
                 Inr \<lparr>finalType = t, dominant = f0, auxiliary = f1, tertiary = f2,
                      inferior = f3, score = maxScore, allTypeScores = typeScores\<rparr>))"

definition calculateHybridResults ::
  "arith \<Rightarrow> item_param list \<Rightarrow> mbti_answers \<Rightarrow> attitude_answers \<Rightarrow> mbti_question list
     \<Rightarrow> attitude_question list \<Rightarrow> js_error + result" where
  "calculateHybridResults A ip mbtiAnswers attitudeAnswers allMbtiQuestions allAttitudeQuestions =
     (case coreResults A ip mbtiAnswers allMbtiQuestions of
        Inl e \<Rightarrow> Inl e
      | Inr (eiResult, snResult, tfResult) \<Rightarrow>
          finalize (scoreAll (typeScore eiResult snResult tfResult
            (attitudeStrengths attitudeAnswers allAttitudeQuestions))))"

subsection \<open>The second version of the engine\<close>

text \<open>
  The repository holds a second source file of \<open>scorer.js\<close>: the same engine with two
  policy changes. The clarity weight is a continuous function of the index instead of
  the table keyed by category, and the stack position weights are 5, 3, 1 and 0.5.
\<close>

definition getIrtClarityWeight :: "jsnum \<Rightarrow> jsnum" where
  "getIrtClarityWeight p =
     (if jle p (Num 0) then Num 1
      else jadd (jmul (Num (215 / 100)) (jlog p)) (Num 1))"

definition ATTITUDE_STACK_POSITION_WEIGHT_2 :: position_weight where
  "ATTITUDE_STACK_POSITION_WEIGHT_2 = \<lparr>w_dom = 5, w_aux = 3, w_ter = 1, w_inf = 1/2\<rparr>"

definition typeScore_2 ::
  "core_result \<Rightarrow> core_result \<Rightarrow> core_result \<Rightarrow> strengths \<Rightarrow> string \<Rightarrow> stack \<Rightarrow> jsnum" where
  "typeScore_2 eiResult snResult tfResult st type stk =
     (case stk of (domf, auxf, terf, inff) \<Rightarrow>
        let eiMatch = (if startsWith_E type then res_theta eiResult else jneg (res_theta eiResult));
            snMatch = (if includes_char type CHR ''S'' then res_theta snResult
                       else jneg (res_theta snResult));
            tfMatch = (if includes_char type CHR ''T'' then res_theta tfResult
                       else jneg (res_theta tfResult));
            s1 = jadd (Num 0) (jmul eiMatch (getIrtClarityWeight (res_pci eiResult)));
            s2 = jadd s1 (jmul snMatch (getIrtClarityWeight (res_pci snResult)));
            s3 = jadd s2 (jmul tfMatch (getIrtClarityWeight (res_pci tfResult)));
            attitudeScore =
              jadd (jadd (jadd
                (jmul (strength st domf) (Num (w_dom ATTITUDE_STACK_POSITION_WEIGHT_2)))
                (jmul (strength st auxf) (Num (w_aux ATTITUDE_STACK_POSITION_WEIGHT_2))))
                (jmul (strength st terf) (Num (w_ter ATTITUDE_STACK_POSITION_WEIGHT_2))))
                (jmul (strength st inff) (Num (w_inf ATTITUDE_STACK_POSITION_WEIGHT_2)))
        in jadd s3 (jmul attitudeScore (Num ATTITUDE_SCORE_WEIGHT)))"

definition calculateHybridResults_2 ::
  "arith \<Rightarrow> item_param list \<Rightarrow> mbti_answers \<Rightarrow> attitude_answers \<Rightarrow> mbti_question list
     \<Rightarrow> attitude_question list \<Rightarrow> js_error + result" where
  "calculateHybridResults_2 A ip mbtiAnswers attitudeAnswers allMbtiQuestions
       allAttitudeQuestions =
     (case coreResults A ip mbtiAnswers allMbtiQuestions of
        Inl e \<Rightarrow> Inl e
      | Inr (eiResult, snResult, tfResult) \<Rightarrow>
          finalize (scoreAll (typeScore_2 eiResult snResult tfResult
            (attitudeStrengths attitudeAnswers allAttitudeQuestions))))"

section \<open>The procedures as the specification words them\<close>

text \<open>
  The specification describes the estimator and the attitude aggregator as procedures
  over the answered items and over the Likert answers. They are written down here once
  more, from its words, to be compared with the functions above.
\<close>

subsection \<open>Newton-Raphson estimation\<close>

text \<open>The answered items of a dichotomy: the questions of the item parameter table
  that belong to the dichotomy and have a recorded answer, in the order of the table.
  An answered item is a triple \<open>(a, b, u)\<close> of the two parameters of the question and
  the response code that the metadata gives for the chosen option (\<open>None\<close> when the
  option carries no code). The items are defined when every answered question and its
  chosen option are found in the metadata.\<close>

type_synonym spec_item = "real \<times> real \<times> real option"

definition spec_answered :: "item_param list \<Rightarrow> string \<Rightarrow> mbti_answers \<Rightarrow> nat list" where
  "spec_answered ip d answers =
     filter (\<lambda>i. dichotomy (ip ! i) = d \<and> answers (i + 1) \<noteq> None) [0 ..< length ip]"

definition spec_item ::
  "item_param list \<Rightarrow> mbti_answers \<Rightarrow> mbti_question list \<Rightarrow> nat \<Rightarrow> spec_item option" where
  "spec_item ip answers qs i =
     (case find (\<lambda>q. number q = i + 1) qs of
        None \<Rightarrow> None
      | Some q \<Rightarrow>
          (case answers (i + 1) of
             None \<Rightarrow> None
           | Some c \<Rightarrow>
               (case lookupOption q c of
                  None \<Rightarrow> None
                | Some opt \<Rightarrow> Some (param_a (ip ! i), param_b (ip ! i), scoreKey opt))))"

definition spec_items ::
  "item_param list \<Rightarrow> string \<Rightarrow> mbti_answers \<Rightarrow> mbti_question list \<Rightarrow> spec_item list option" where
  "spec_items ip d answers qs = those (map (spec_item ip answers qs) (spec_answered ip d answers))"

text \<open>\<open>P = 1 / (1 + exp(-a (theta - b)))\<close>, and the two sums
  \<open>\<Sum> a (u - P)\<close> and \<open>\<Sum> -a\<^sup>2 (1 - P) P\<close>, taken over the items from the first to
  the last, starting from the given value. The factor \<open>-a\<^sup>2\<close> is the product of
  \<open>-a\<close> and \<open>a\<close>.\<close>

definition spec_P :: "arith \<Rightarrow> jsnum \<Rightarrow> real \<Rightarrow> real \<Rightarrow> jsnum" where
  "spec_P A th a b =
     fl_div A (Num 1) (fl_add A (Num 1) (fl_exp A (fl_mul A (Num (- a)) (fl_sub A th (Num b)))))"

fun spec_first :: "arith \<Rightarrow> jsnum \<Rightarrow> jsnum \<Rightarrow> spec_item list \<Rightarrow> jsnum" where
  "spec_first A th acc [] = acc"
| "spec_first A th acc ((a, b, u) # its) =
     spec_first A th
       (fl_add A acc (fl_mul A (Num a) (fl_sub A (toNumber u) (spec_P A th a b)))) its"

fun spec_second :: "arith \<Rightarrow> jsnum \<Rightarrow> jsnum \<Rightarrow> spec_item list \<Rightarrow> jsnum" where
  "spec_second A th acc [] = acc"
| "spec_second A th acc ((a, b, u) # its) =
     spec_second A th
       (fl_add A acc
          (fl_mul A (fl_mul A (fl_mul A (Num (- a)) (Num a)) (fl_sub A (Num 1) (spec_P A th a b)))
             (spec_P A th a b))) its"

definition spec_clamp :: "jsnum \<Rightarrow> jsnum" where
  "spec_clamp x = jmax (Num (- 3)) (jmin (Num 3) x)"

text \<open>Up to \<open>n\<close> iterations from \<open>th\<close>: stop if the magnitude of the second
  derivative is below \<open>1e-9\<close>; otherwise clamp the Newton step, adopt it, and stop if
  it differs from the previous value by less than \<open>1e-4\<close>.\<close>

fun spec_newton :: "arith \<Rightarrow> nat \<Rightarrow> spec_item list \<Rightarrow> jsnum \<Rightarrow> jsnum" where
  "spec_newton A 0 its th = th"
| "spec_newton A (Suc n) its th =
     (let first = spec_first A th (Num 0) its;
          second = spec_second A th (Num 0) its
      in if jlt (jabs second) (Num lit_1e_9) then th
         else
           let c = spec_clamp (fl_sub A th (fl_div A first second))
           in if jlt (jabs (fl_sub A c th)) (Num lit_1e_4) then c
              else spec_newton A n its c)"

subsection \<open>Attitude aggregation\<close>

definition function_labels :: "string list" where
  "function_labels = [''Ti'', ''Te'', ''Fi'', ''Fe'', ''Si'', ''Se'', ''Ni'', ''Ne'']"

text \<open>The fixed table \<open>{1: +2, 2: +1, 3: 0, 4: -1, 5: -2}\<close>; a response is the number
  or the string that the form stores for it. Any other response weighs nothing.\<close>

definition spec_likert_weight :: "jsval \<Rightarrow> real" where
  "spec_likert_weight c =
     (if c \<in> {NumV (Num 1), StrV ''1''} then 2
      else if c \<in> {NumV (Num 2), StrV ''2''} then 1
      else if c \<in> {NumV (Num 3), StrV ''3''} then 0
      else if c \<in> {NumV (Num 4), StrV ''4''} then - 1
      else if c \<in> {NumV (Num 5), StrV ''5''} then - 2
      else 0)"

text \<open>What one question adds to the strength of the function \<open>f\<close>: the magnitude of a
  positive weight if \<open>f\<close> is its first pole, the magnitude of a negative weight if
  \<open>f\<close> is its second pole, nothing otherwise, and nothing when it is unanswered.\<close>

definition spec_contribution :: "attitude_answers \<Rightarrow> string \<Rightarrow> attitude_question \<Rightarrow> real" where
  "spec_contribution attitudeAnswers f q =
     (case attitudeAnswers (q_id q) of
        None \<Rightarrow> 0
      | Some c \<Rightarrow>
          (let w = spec_likert_weight c
           in if 0 < w \<and> construct1_pole q = f then \<bar>w\<bar>
              else if w < 0 \<and> construct2_pole q = f then \<bar>w\<bar>
              else 0))"

definition spec_strength :: "attitude_answers \<Rightarrow> attitude_question list \<Rightarrow> string \<Rightarrow> real" where
  "spec_strength attitudeAnswers qs f = (\<Sum>q \<leftarrow> qs. spec_contribution attitudeAnswers f q)"

section \<open>Auxiliary definitions\<close>

text \<open>The entry of \<open>coreResults\<close> for a dichotomy without evidence.\<close>

definition neutral :: core_result where
  "neutral = \<lparr>res_pcc = Slight, res_theta = Num 0, res_pci = Num 1\<rparr>"

text \<open>The invariant of the scoring loop while every score is a finite number: either
  nothing was scored yet, or \<open>bestFitType\<close> holds a type whose recorded score is
  \<open>maxScore\<close> and no recorded score exceeds it.\<close>

definition scoring_invariant :: "scoring_state \<Rightarrow> bool" where
  "scoring_invariant s =
     (case s of (b, m, ts) \<Rightarrow>
        (b = None \<and> m = NegInfinity \<and> ts = Map.empty)
        \<or> (\<exists>t x. b = Some t \<and> m = Num x \<and> ts t = Some (Num x)
              \<and> (\<forall>t' v. ts t' = Some v \<longrightarrow> (\<exists>y. v = Num y \<and> y \<le> x))))"

text \<open>An item of the engine as a triple.\<close>

definition item_triple :: "item \<Rightarrow> spec_item" where
  "item_triple it = (item_a it, item_b it, item_u it)"

subsection \<open>Properties of the arithmetic of the format\<close>

text \<open>Two properties that the operations of the format have and that an arbitrary
  arithmetic need not have. The first: on finite operands the operations never return
  \<open>NaN\<close> (the division for a divisor other than zero). The second concerns the two
  operations of the clarity index, the division by 3 and the multiplication by 30, on
  operands that are not negative: rounding to the nearest number keeps the order and
  the sign, and it leaves \<open>3 / 3\<close> and \<open>1 * 30\<close> as they are.\<close>

definition defined_on_finite :: "arith \<Rightarrow> bool" where
  "defined_on_finite A \<longleftrightarrow>
     (\<forall>x y. fadd A x y \<noteq> NaN \<and> fsub A x y \<noteq> NaN \<and> fmul A x y \<noteq> NaN
            \<and> (y \<noteq> 0 \<longrightarrow> fdiv A x y \<noteq> NaN) \<and> fexp A x \<noteq> NaN)"

definition monotone_scaling :: "arith \<Rightarrow> bool" where
  "monotone_scaling A \<longleftrightarrow>
     fdiv A 3 3 = Num 1 \<and> fmul A 1 30 = Num 30
     \<and> (\<forall>x y. 0 \<le> x \<and> x \<le> y \<longrightarrow>
          jle (Num 0) (fdiv A x 3) \<and> jle (fdiv A x 3) (fdiv A y 3)
          \<and> jle (Num 0) (fmul A x 30) \<and> jle (fmul A x 30) (fmul A y 30))"

text \<open>A number other than zero rounded to the format, before the test for overflow.\<close>

definition rounded :: "real \<Rightarrow> real" where
  "rounded x = of_int (round_half_even (x / 2 powr (of_int (binary_exponent x) - 52)))
                 * 2 powr (of_int (binary_exponent x) - 52)"

text \<open>The argument of \<open>Math.round\<close> in the index expression, for a magnitude
  \<open>x\<close> of the estimate.\<close>

definition scaled :: "arith \<Rightarrow> real \<Rightarrow> jsnum" where
  "scaled A x = fl_mul A (fl_div A (Num x) (Num 3)) (Num 30)"

subsection \<open>The iteration over the reals\<close>

text \<open>What the procedure of the specification computes in the arithmetic that never
  rounds, for items whose response codes are numbers.\<close>

type_synonym real_item = "real \<times> real \<times> real"

definition real_P :: "real \<Rightarrow> real \<Rightarrow> real \<Rightarrow> real" where
  "real_P th a b = 1 / (1 + exp (- a * (th - b)))"

definition real_first :: "real_item list \<Rightarrow> real \<Rightarrow> real" where
  "real_first its th = (\<Sum>(a, b, u) \<leftarrow> its. a * (u - real_P th a b))"

definition real_second :: "real_item list \<Rightarrow> real \<Rightarrow> real" where
  "real_second its th = (\<Sum>(a, b, u) \<leftarrow> its. - (a\<^sup>2) * (1 - real_P th a b) * real_P th a b)"

definition real_clamp :: "real \<Rightarrow> real" where
  "real_clamp x = max (- 3) (min 3 x)"

fun real_newton :: "nat \<Rightarrow> real_item list \<Rightarrow> real \<Rightarrow> real" where
  "real_newton 0 its th = th"
| "real_newton (Suc n) its th =
     (if \<bar>real_second its th\<bar> < lit_1e_9 then th
      else
        let c = real_clamp (th - real_first its th / real_second its th)
        in if \<bar>c - th\<bar> < lit_1e_4 then c else real_newton n its c)"

definition numeric_item :: "real_item \<Rightarrow> spec_item" where
  "numeric_item it = (case it of (a, b, u) \<Rightarrow> (a, b, Some u))"

subsection \<open>Example inputs\<close>

text \<open>One forced-choice question on the E-I axis, answered with option A; its item
  parameters, with discrimination 1, with the discrimination \<open>0.00001\<close> (the number
  of the format that the literal denotes) and with the discrimination \<open>2^665\<close>, a
  number of the format near \<open>1.5e200\<close>, and difficulty 1; and the metadata of the
  question in three forms: complete, with an option A that has no \<open>scoreKey\<close>, and
  without an option A.\<close>

definition ex_params :: "item_param list" where
  "ex_params = [\<lparr>dichotomy = ''E-I'', param_a = 1, param_b = 0\<rparr>]"

definition ex_flat_params :: "item_param list" where
  "ex_flat_params =
     [\<lparr>dichotomy = ''E-I'', param_a = 5902958103587057 / 2 ^ 69, param_b = 0\<rparr>]"

definition ex_huge_params :: "item_param list" where
  "ex_huge_params = [\<lparr>dichotomy = ''E-I'', param_a = 2 ^ 665, param_b = 1\<rparr>]"

definition ex_mbti_answers :: mbti_answers where
  "ex_mbti_answers = [1 \<mapsto> ''A'']"

definition ex_mbti_questions :: "mbti_question list" where
  "ex_mbti_questions =
     [\<lparr>number = 1, options = [''A'' \<mapsto> \<lparr>scoreKey = Some 1\<rparr>, ''B'' \<mapsto> \<lparr>scoreKey = Some 0\<rparr>]\<rparr>]"

definition ex_questions_no_scoreKey :: "mbti_question list" where
  "ex_questions_no_scoreKey =
     [\<lparr>number = 1, options = [''A'' \<mapsto> \<lparr>scoreKey = None\<rparr>, ''B'' \<mapsto> \<lparr>scoreKey = Some 0\<rparr>]\<rparr>]"

definition ex_questions_no_option :: "mbti_question list" where
  "ex_questions_no_option =
     [\<lparr>number = 1, options = [''B'' \<mapsto> \<lparr>scoreKey = Some 0\<rparr>]\<rparr>]"

text \<open>The same question answered with a choice that names an inherited property.\<close>

definition ex_inherited_answers :: mbti_answers where
  "ex_inherited_answers = [1 \<mapsto> ''constructor'']"

text \<open>Three Likert questions and the answers to the first two.\<close>

definition ex_attitude_questions :: "attitude_question list" where
  "ex_attitude_questions =
     [\<lparr>q_id = ''a1'', construct1_pole = ''Ti'', construct2_pole = ''Ne''\<rparr>,
      \<lparr>q_id = ''a2'', construct1_pole = ''Fe'', construct2_pole = ''Ti''\<rparr>,
      \<lparr>q_id = ''a3'', construct1_pole = ''Si'', construct2_pole = ''Ti''\<rparr>]"

definition ex_attitude_answers :: attitude_answers where
  "ex_attitude_answers = [''a1'' \<mapsto> StrV ''1'', ''a2'' \<mapsto> StrV ''4'']"

section \<open>Arithmetic on finite numbers\<close>

lemma jsub_Num [simp]: "jsub (Num x) (Num y) = Num (x - y)"
  by (simp add: jsub_def)

lemma jmax_Num [simp]: "jmax (Num x) (Num y) = Num (max x y)"
  by (simp add: jmax_def max_def)

lemma jmin_Num [simp]: "jmin (Num x) (Num y) = Num (min x y)"
  by (simp add: jmin_def min_def)

lemma jle_Num [simp]: "jle (Num x) (Num y) = (x \<le> y)"
  by (auto simp: jle_def)

lemma jge_Num [simp]: "jge (Num x) (Num y) = (y \<le> x)"
  by (simp add: jge_def)

lemma jgt_Num [simp]: "jgt (Num x) (Num y) = (y < x)"
  by (simp add: jgt_def)

lemma jlt_NaN_right [simp]: "jlt x NaN = False"
  by (cases x) simp_all

lemma jadd_NaN_right [simp]: "jadd x NaN = NaN"
  by (cases x) simp_all

lemma jmul_NaN_right [simp]: "jmul x NaN = NaN"
  by (cases x) simp_all

lemma jdiv_NaN_right [simp]: "jdiv x NaN = NaN"
  by (cases x) simp_all

lemma jsub_NaN [simp]: "jsub x NaN = NaN" "jsub NaN x = NaN"
  by (simp_all add: jsub_def)

lemma jle_zero_cases: "jle (Num 0) v \<Longrightarrow> (\<exists>w. v = Num w \<and> 0 \<le> w) \<or> v = PosInfinity"
  by (cases v) (auto simp: jle_def)

lemma jle_PosInfinity: "z \<noteq> NaN \<Longrightarrow> jle z PosInfinity"
  by (cases z) (auto simp: jle_def)

section \<open>Rounding and special values\<close>

lemma fl_add_NaN [simp]: "fl_add A NaN y = NaN" "fl_add A x NaN = NaN"
  by (cases x; simp)+

lemma fl_sub_NaN [simp]: "fl_sub A NaN y = NaN" "fl_sub A x NaN = NaN"
  by (cases x; simp)+

lemma fl_mul_NaN [simp]: "fl_mul A NaN y = NaN" "fl_mul A x NaN = NaN"
  by (cases x; simp)+

lemma fl_div_NaN [simp]: "fl_div A NaN y = NaN" "fl_div A x NaN = NaN"
  by (cases x; simp)+

lemma exact_arith_ops [simp]:
  "fadd exact_arith x y = Num (x + y)" "fsub exact_arith x y = Num (x - y)"
  "fmul exact_arith x y = Num (x * y)" "fdiv exact_arith x y = Num (x / y)"
  "fexp exact_arith x = Num (exp x)"
  by (simp_all add: exact_arith_def)

lemma round_less_mono: "x < y \<Longrightarrow> round x \<le> round (y::real)"
  by (rule round_mono) simp

lemma fl_add_exact [simp]: "fl_add exact_arith x y = jadd x y"
  by (cases x; cases y) simp_all

lemma fl_sub_exact [simp]: "fl_sub exact_arith x y = jsub x y"
  by (cases x; cases y) simp_all

lemma fl_mul_exact [simp]: "fl_mul exact_arith x y = jmul x y"
  by (cases x; cases y) simp_all

lemma fl_div_exact [simp]: "fl_div exact_arith x y = jdiv x y"
  by (cases x; cases y) simp_all

lemma fl_exp_exact [simp]: "fl_exp exact_arith x = jexp x"
  by (cases x) simp_all

lemma defined_on_finite_exact: "defined_on_finite exact_arith"
  by (simp add: defined_on_finite_def)

lemma monotone_scaling_exact: "monotone_scaling exact_arith"
  by (simp add: monotone_scaling_def)

section \<open>Rounding to the nearest number of the format\<close>

lemma rhe_bounds: "\<lfloor>x\<rfloor> \<le> round_half_even x \<and> round_half_even x \<le> \<lfloor>x\<rfloor> + 1"
  by (simp add: round_half_even_def Let_def)

lemma rhe_int [simp]: "round_half_even (of_int n) = n"
  by (simp add: round_half_even_def)

lemma rhe_numeral [simp]: "round_half_even (numeral n) = numeral n"
  using rhe_int [of "numeral n"] by simp

lemma powr_shift: "(2::real) ^ k * 2 powr (e - of_nat k) = 2 powr e"
proof -
  have "(2::real) ^ k = 2 powr of_nat k" by (simp add: powr_realpow)
  then have "(2::real) ^ k * 2 powr (e - of_nat k) = 2 powr (of_nat k + (e - of_nat k))"
    by (simp only: powr_add)
  then show ?thesis by simp
qed

lemma rhe_mono:
  assumes "x \<le> y"
  shows "round_half_even x \<le> round_half_even y"
proof (cases "\<lfloor>x\<rfloor> = \<lfloor>y\<rfloor>")
  case True
  then show ?thesis using assms by (auto simp: round_half_even_def Let_def)
next
  case False
  then have "\<lfloor>x\<rfloor> < \<lfloor>y\<rfloor>" using assms floor_mono [of x y] by linarith
  then have "\<lfloor>x\<rfloor> + 1 \<le> \<lfloor>y\<rfloor>" by simp
  with rhe_bounds [of x] rhe_bounds [of y] show ?thesis by linarith
qed

lemma binary_exponent_upper:
  assumes "0 < x"
  shows "x < 2 powr (of_int (binary_exponent x) + 1)"
proof -
  have "log 2 x < of_int \<lfloor>log 2 x\<rfloor> + 1" by linarith
  also have "\<dots> \<le> of_int (binary_exponent x) + 1"
    using assms by (simp add: binary_exponent_def)
  finally have "log 2 x < of_int (binary_exponent x) + 1" .
  then show ?thesis using assms by (simp add: log_less_iff)
qed

lemma binary_exponent_lower:
  assumes "0 < x" "- 1022 < binary_exponent x"
  shows "2 powr of_int (binary_exponent x) \<le> x"
proof -
  from assms have "binary_exponent x = \<lfloor>log 2 x\<rfloor>"
    by (simp add: binary_exponent_def max_def split: if_splits)
  then have "of_int (binary_exponent x) \<le> log 2 x" by simp
  then show ?thesis using assms(1) by (simp add: le_log_iff)
qed

lemma binary_exponent_mono:
  assumes "0 < x" "x \<le> y"
  shows "binary_exponent x \<le> binary_exponent y"
proof -
  have "log 2 x \<le> log 2 y" using assms by simp
  then have "\<lfloor>log 2 x\<rfloor> \<le> \<lfloor>log 2 y\<rfloor>" by (rule floor_mono)
  then have "max \<lfloor>log 2 x\<rfloor> (- 1022) \<le> max \<lfloor>log 2 y\<rfloor> (- 1022)"
    by (intro max.mono) simp_all
  moreover have "\<bar>x\<bar> = x" "\<bar>y\<bar> = y" using assms by simp_all
  ultimately show ?thesis by (simp only: binary_exponent_def)
qed

lemma rounded_nonneg:
  assumes "0 < x"
  shows "0 \<le> rounded x"
proof -
  let ?u = "2 powr (of_int (binary_exponent x) - 52)"
  have "0 \<le> x / ?u" using assms by simp
  then have "round_half_even 0 \<le> round_half_even (x / ?u)" by (rule rhe_mono)
  then have "0 \<le> round_half_even (x / ?u)" using rhe_int [of 0] by simp
  then show ?thesis by (simp add: rounded_def)
qed

lemma rounded_upper:
  assumes "0 < x"
  shows "rounded x \<le> 2 powr (of_int (binary_exponent x) + 1)"
proof -
  let ?e = "of_int (binary_exponent x) :: real"
  let ?u = "2 powr (?e - 52)"
  have u: "0 < ?u" by simp
  have "x / ?u < 2 powr (?e + 1) / ?u"
    using binary_exponent_upper [OF assms] u by (simp add: divide_strict_right_mono)
  also have "2 powr (?e + 1) / ?u = 2 powr 53"
    by (simp add: powr_diff [symmetric])
  also have "\<dots> = of_int (2 ^ 53)" by simp
  finally have "x / ?u \<le> of_int (2 ^ 53)" by simp
  then have "round_half_even (x / ?u) \<le> round_half_even (of_int (2 ^ 53))" by (rule rhe_mono)
  then have "round_half_even (x / ?u) \<le> 2 ^ 53" by (simp only: rhe_int)
  then have "of_int (round_half_even (x / ?u)) \<le> (2 ^ 53 :: real)"
    by (metis of_int_le_iff of_int_numeral of_int_power)
  then have "rounded x \<le> 2 ^ 53 * ?u"
    unfolding rounded_def using u by (intro mult_right_mono) simp_all
  also have "2 ^ 53 * ?u = 2 powr (?e + 1)"
    using powr_shift [of 53 "?e + 1"] by simp
  finally show ?thesis .
qed

lemma rounded_lower:
  assumes "0 < x" "- 1022 < binary_exponent x"
  shows "2 powr of_int (binary_exponent x) \<le> rounded x"
proof -
  let ?e = "of_int (binary_exponent x) :: real"
  let ?u = "2 powr (?e - 52)"
  have u: "0 < ?u" by simp
  have "2 powr ?e / ?u \<le> x / ?u"
    using binary_exponent_lower [OF assms] u by (simp add: divide_right_mono)
  moreover have "2 powr ?e / ?u = 2 powr 52"
    by (simp add: powr_diff [symmetric])
  moreover have "2 powr 52 = (of_int (2 ^ 52) :: real)" by simp
  ultimately have "of_int (2 ^ 52) \<le> x / ?u" by simp
  then have "round_half_even (of_int (2 ^ 52)) \<le> round_half_even (x / ?u)" by (rule rhe_mono)
  then have "2 ^ 52 \<le> round_half_even (x / ?u)" by (simp only: rhe_int)
  then have "(2 ^ 52 :: real) \<le> of_int (round_half_even (x / ?u))"
    by (metis of_int_le_iff of_int_numeral of_int_power)
  then have "2 ^ 52 * ?u \<le> rounded x"
    unfolding rounded_def using u by (intro mult_right_mono) simp_all
  moreover have "2 ^ 52 * ?u = 2 powr ?e"
    using powr_shift [of 52 ?e] by simp
  ultimately show ?thesis by simp
qed

lemma rounded_mono:
  assumes "0 < x" "x \<le> y"
  shows "rounded x \<le> rounded y"
proof (cases "binary_exponent x = binary_exponent y")
  case True
  let ?u = "2 powr (of_int (binary_exponent y) - 52)"
  have "x / ?u \<le> y / ?u" using assms by (simp add: divide_right_mono)
  then have "round_half_even (x / ?u) \<le> round_half_even (y / ?u)" by (rule rhe_mono)
  then have "real_of_int (round_half_even (x / ?u)) * ?u
      \<le> real_of_int (round_half_even (y / ?u)) * ?u"
    by (intro mult_right_mono) simp_all
  then show ?thesis by (simp add: rounded_def True)
next
  case False
  with binary_exponent_mono [OF assms] have lt: "binary_exponent x < binary_exponent y" by simp
  have y: "0 < y" using assms by simp
  have "- 1022 \<le> binary_exponent x" by (simp add: binary_exponent_def)
  with lt have ny: "- 1022 < binary_exponent y" by simp
  have "rounded x \<le> 2 powr (of_int (binary_exponent x) + 1)" by (rule rounded_upper [OF assms(1)])
  also have "\<dots> \<le> 2 powr of_int (binary_exponent y)"
  proof -
    have "of_int (binary_exponent x) + 1 \<le> (of_int (binary_exponent y) :: real)"
      using lt by linarith
    then show ?thesis by simp
  qed
  also have "\<dots> \<le> rounded y" by (rule rounded_lower [OF y ny])
  finally show ?thesis .
qed

lemma overflow_mono: "a \<le> b \<Longrightarrow> jle (overflow a) (overflow b)"
  by (auto simp: overflow_def jle_def)

lemma overflow_nonneg: "0 \<le> a \<Longrightarrow> jle (Num 0) (overflow a)"
  by (auto simp: overflow_def jle_def)

lemma double_round_rounded: "x \<noteq> 0 \<Longrightarrow> double_round x = overflow (rounded x)"
  by (simp add: double_round_def rounded_def Let_def)

lemma double_round_nonneg: "0 \<le> x \<Longrightarrow> jle (Num 0) (double_round x)"
proof (cases "x = 0")
  case True
  then show ?thesis by (simp add: double_round_def jle_def)
next
  case False
  assume "0 \<le> x"
  with False have "0 < x" by simp
  from overflow_nonneg [OF rounded_nonneg [OF this]] False show ?thesis
    by (simp add: double_round_rounded)
qed

lemma double_round_mono:
  assumes "0 \<le> x" "x \<le> y"
  shows "jle (double_round x) (double_round y)"
proof (cases "x = 0")
  case True
  have "0 \<le> y" using assms by simp
  from double_round_nonneg [OF this] True show ?thesis by (simp add: double_round_def)
next
  case False
  with assms have x: "0 < x" and y: "y \<noteq> 0" by auto
  from overflow_mono [OF rounded_mono [OF x assms(2)]] False y show ?thesis
    by (simp add: double_round_rounded)
qed

lemma binary_exponent_eq:
  assumes "2 powr of_int k \<le> \<bar>x\<bar>" "\<bar>x\<bar> < 2 powr (of_int k + 1)" "- 1022 \<le> k"
  shows "binary_exponent x = k"
proof -
  have pos: "0 < \<bar>x\<bar>" using assms(1) powr_gt_zero [of 2 "of_int k"] by linarith
  have "\<lfloor>log 2 \<bar>x\<bar>\<rfloor> = k"
    using assms(1,2) pos by (subst floor_log_eq_powr_iff) simp_all
  then show ?thesis using assms(3) by (simp add: binary_exponent_def)
qed

lemma double_round_one: "double_round 1 = Num 1"
proof -
  have e: "binary_exponent 1 = 0" by (rule binary_exponent_eq) simp_all
  show ?thesis
    by (simp add: double_round_def e Let_def powr_minus overflow_def)
qed

lemma double_round_thirty: "double_round 30 = Num 30"
proof -
  have e: "binary_exponent 30 = 4" by (rule binary_exponent_eq) simp_all
  have u: "(2::real) powr (of_int 4 - 52) = 1 / 2 ^ 48"
    by (simp add: powr_minus_divide)
  show ?thesis
    unfolding double_round_def e Let_def u
    by (simp add: overflow_def)
qed


lemma double_round_eval:
  assumes "2 powr of_int k \<le> \<bar>x\<bar>" "\<bar>x\<bar> < 2 powr (of_int k + 1)" "- 1022 \<le> k"
  shows "double_round x
     = overflow (of_int (round_half_even (x / 2 powr (of_int k - 52))) * 2 powr (of_int k - 52))"
proof -
  have "0 < \<bar>x\<bar>" using assms(1) powr_gt_zero [of 2 "of_int k"] by linarith
  then have "x \<noteq> 0" by simp
  then show ?thesis
    by (simp add: double_round_def binary_exponent_eq [OF assms] Let_def)
qed


lemma double_arith_ops [simp]:
  "fadd double_arith x y = double_round (x + y)" "fsub double_arith x y = double_round (x - y)"
  "fmul double_arith x y = double_round (x * y)" "fdiv double_arith x y = double_round (x / y)"
  "fexp double_arith x = double_round (exp x)"
  by (simp_all add: double_arith_def)

lemma double_round_defined: "double_round x \<noteq> NaN"
  by (simp add: double_round_def overflow_def Let_def)

lemma defined_on_finite_double: "defined_on_finite double_arith"
  by (simp add: defined_on_finite_def double_round_defined)

lemma monotone_scaling_double: "monotone_scaling double_arith"
  unfolding monotone_scaling_def
proof (intro conjI allI impI)
  show "fdiv double_arith 3 3 = Num 1" by (simp add: double_round_one)
  show "fmul double_arith 1 30 = Num 30" by (simp add: double_round_thirty)
next
  fix x y :: real
  assume h: "0 \<le> x \<and> x \<le> y"
  then have d: "0 \<le> x / 3" "x / 3 \<le> y / 3" and m: "0 \<le> x * 30" "x * 30 \<le> y * 30"
    by simp_all
  show "jle (Num 0) (fdiv double_arith x 3)"
    using double_round_nonneg [OF d(1)] by simp
  show "jle (fdiv double_arith x 3) (fdiv double_arith y 3)"
    using double_round_mono [OF d] by simp
  show "jle (Num 0) (fmul double_arith x 30)"
    using double_round_nonneg [OF m(1)] by simp
  show "jle (fmul double_arith x 30) (fmul double_arith y 30)"
    using double_round_mono [OF m] by simp
qed

lemma rhe_neg_numeral [simp]: "round_half_even (- numeral n) = - numeral n"
  using rhe_int [of "- numeral n"] by simp

lemma double_round_huge:
  assumes "2 ^ 1024 \<le> x"
  shows "double_round x = PosInfinity"
proof -
  have p: "(0::real) < 2 ^ 1024" by simp
  with assms have pos: "0 < x" by linarith
  have e: "binary_exponent (2 ^ 1024) = 1024" by (rule binary_exponent_eq) simp_all
  have le: "1024 \<le> binary_exponent x"
    using binary_exponent_mono [OF p assms] e by simp
  then have "real_of_int 1024 \<le> of_int (binary_exponent x)" by (simp only: of_int_le_iff)
  then have "(2::real) powr real_of_int 1024 \<le> 2 powr of_int (binary_exponent x)"
    by (intro powr_mono) simp_all
  also have "\<dots> \<le> rounded x" using pos le by (intro rounded_lower) simp_all
  finally have "(2::real) powr real_of_int 1024 \<le> rounded x" .
  moreover have "(2::real) powr real_of_int 1024 = 2 ^ 1024" by simp
  ultimately have "2 ^ 1024 \<le> rounded x" by simp
  then show ?thesis using pos by (simp add: double_round_rounded overflow_def)
qed

lemma double_round_minus_one: "double_round (- 1) = Num (- 1)"
proof -
  have u: "(2::real) powr (of_int 0 - 52) = 1 / 2 ^ 52"
    by (simp add: powr_minus_divide)
  have "double_round (- 1)
      = overflow (of_int (round_half_even (- 1 / 2 powr (of_int 0 - 52))) * 2 powr (of_int 0 - 52))"
    by (rule double_round_eval) simp_all
  also have "\<dots> = Num (- 1)" unfolding u by (simp add: overflow_def)
  finally show ?thesis .
qed

lemma double_round_power:
  assumes "x = 2 ^ 665"
  shows "double_round x = Num x"
proof -
  have u: "(2::real) powr (of_int 665 - 52) = 2 ^ 613"
    using powr_realpow [of 2 613] by simp
  have "double_round x
      = overflow (of_int (round_half_even (x / 2 powr (of_int 665 - 52))) * 2 powr (of_int 665 - 52))"
    unfolding assms by (rule double_round_eval) simp_all
  also have "\<dots> = Num x" unfolding u assms by (simp add: overflow_def)
  finally show ?thesis .
qed

lemma double_round_minus_square:
  assumes "x = - (2 ^ 1330)"
  shows "double_round x = NegInfinity"
proof -
  have u: "(2::real) powr (of_int 1330 - 52) = 2 ^ 1278"
    using powr_realpow [of 2 1278] by simp
  have "double_round x
      = overflow (of_int (round_half_even (x / 2 powr (of_int 1330 - 52))) * 2 powr (of_int 1330 - 52))"
    unfolding assms by (rule double_round_eval) simp_all
  also have "\<dots> = NegInfinity" unfolding u assms by (simp add: overflow_def)
  finally show ?thesis .
qed

lemma double_round_dyadic:
  assumes "x = of_int m * 2 powr of_int k" "2 ^ 52 \<le> \<bar>m\<bar>" "\<bar>m\<bar> < 2 ^ 53"
    and "- 1074 \<le> k" "k \<le> 971"
  shows "double_round x = Num x"
proof -
  let ?p = "2 powr real_of_int k"
  have p: "0 < ?p" by simp
  have ax: "\<bar>x\<bar> = real_of_int \<bar>m\<bar> * ?p"
    unfolding assms(1) by (simp add: abs_mult)
  have m1: "(2 ^ 52 :: real) \<le> real_of_int \<bar>m\<bar>"
    using assms(2) by (metis of_int_le_iff of_int_numeral of_int_power)
  have m2: "real_of_int \<bar>m\<bar> < 2 ^ 53"
    using assms(3) by (metis of_int_less_iff of_int_numeral of_int_power)
  have lo: "2 powr of_int (k + 52) \<le> \<bar>x\<bar>"
  proof -
    have "2 powr real_of_int (k + 52) = 2 ^ 52 * ?p"
      using powr_shift [of 52 "real_of_int (k + 52)"] by simp
    also have "\<dots> \<le> real_of_int \<bar>m\<bar> * ?p"
      using m1 p by (intro mult_right_mono) simp_all
    finally show ?thesis by (simp only: ax)
  qed
  have hi: "\<bar>x\<bar> < 2 powr (of_int (k + 52) + 1)"
  proof -
    have "real_of_int \<bar>m\<bar> * ?p < 2 ^ 53 * ?p"
      using m2 p by (intro mult_strict_right_mono) simp_all
    also have "2 ^ 53 * ?p = 2 powr (real_of_int (k + 52) + 1)"
      using powr_shift [of 53 "real_of_int (k + 52) + 1"] by simp
    finally show ?thesis by (simp only: ax)
  qed
  have u: "2 powr (real_of_int (k + 52) - 52) = ?p" by simp
  have "double_round x
      = overflow (of_int (round_half_even (x / 2 powr (of_int (k + 52) - 52)))
          * 2 powr (of_int (k + 52) - 52))"
    using lo hi assms(4) by (intro double_round_eval) simp_all
  also have "\<dots> = overflow x"
    unfolding u assms(1) by simp
  finally have dr: "double_round x = overflow x" .
  have "?p \<le> 2 powr real_of_int 971"
    using assms(5) by (intro powr_mono) simp_all
  then have "2 ^ 53 * ?p \<le> 2 ^ 53 * 2 powr real_of_int 971"
    by (intro mult_left_mono) simp_all
  moreover have "(2::real) ^ 53 * 2 powr real_of_int 971 = 2 ^ 1024"
    using powr_shift [of 53 1024] by simp
  moreover have "\<bar>x\<bar> < 2 ^ 53 * ?p"
    unfolding ax using m2 p by (intro mult_strict_right_mono) simp_all
  ultimately have "\<bar>x\<bar> < 2 ^ 1024" by linarith
  then have "\<not> 2 ^ 1024 \<le> x" "\<not> x \<le> - (2 ^ 1024)" by linarith+
  then show ?thesis unfolding dr by (simp only: overflow_def if_False)
qed

lemma double_round_values [simp]:
  "double_round 0 = Num 0" "double_round 1 = Num 1" "double_round (- 1) = Num (- 1)"
  "double_round 2 = Num 2" "double_round (1 / 2) = Num (1 / 2)"
  "double_round (- (1 / 2)) = Num (- (1 / 2))" "double_round (- (1 / 4)) = Num (- (1 / 4))"
proof -
  show "double_round 0 = Num 0" by (simp add: double_round_def)
  show "double_round 1 = Num 1" by (rule double_round_one)
  show "double_round (- 1) = Num (- 1)" by (rule double_round_minus_one)
  show "double_round 2 = Num 2"
    by (rule double_round_dyadic [where m = "2 ^ 52" and k = "- 51"])
      (simp_all add: powr_minus_divide)
  show "double_round (1 / 2) = Num (1 / 2)"
    by (rule double_round_dyadic [where m = "2 ^ 52" and k = "- 53"])
      (simp_all add: powr_minus_divide)
  show "double_round (- (1 / 2)) = Num (- (1 / 2))"
    by (rule double_round_dyadic [where m = "- (2 ^ 52)" and k = "- 53"])
      (simp_all add: powr_minus_divide)
  show "double_round (- (1 / 4)) = Num (- (1 / 4))"
    by (rule double_round_dyadic [where m = "- (2 ^ 52)" and k = "- 54"])
      (simp_all add: powr_minus_divide)
qed

subsection \<open>The discrimination 0.00001\<close>

text \<open>The literal \<open>0.00001\<close> denotes \<open>5902958103587057 / 2^69\<close>. The product of
  this number with its negative is rounded; the halves of the rounded product are
  exact.\<close>

lemma ex_flat_square:
  assumes "a = 5902958103587057 / 2 ^ 69"
  shows "double_round (- a * a) = Num (- (1934281311383407 / 2 ^ 84))"
proof -
  have u: "(2::real) powr (of_int (- 34) - 52) = 1 / 2 ^ 86"
    by (simp add: powr_minus_divide)
  have "double_round (- a * a)
      = overflow (of_int (round_half_even (- a * a / 2 powr (of_int (- 34) - 52)))
          * 2 powr (of_int (- 34) - 52))"
    unfolding assms by (rule double_round_eval) (simp_all add: powr_minus_divide)
  also have "\<dots> = Num (- (1934281311383407 / 2 ^ 84))"
    unfolding u assms by (simp add: round_half_even_def overflow_def)
  finally show ?thesis .
qed

lemma ex_flat_halves:
  "double_round (- (1934281311383407 / 2 ^ 84) * (1 / 2)) = Num (- (1934281311383407 / 2 ^ 85))"
  "double_round (- (1934281311383407 / 2 ^ 85) * (1 / 2)) = Num (- (1934281311383407 / 2 ^ 86))"
  "double_round (0 + - (1934281311383407 / 2 ^ 86)) = Num (- (1934281311383407 / 2 ^ 86))"
proof -
  have a: "double_round (- (1934281311383407 / 2 ^ 85)) = Num (- (1934281311383407 / 2 ^ 85))"
    by (rule double_round_dyadic [where m = "- 7737125245533628" and k = "- 87"])
      (simp_all add: powr_minus_divide)
  have b: "double_round (- (1934281311383407 / 2 ^ 86)) = Num (- (1934281311383407 / 2 ^ 86))"
    by (rule double_round_dyadic [where m = "- 7737125245533628" and k = "- 88"])
      (simp_all add: powr_minus_divide)
  have e1: "- (1934281311383407 / 2 ^ 84) * (1 / 2) = - (1934281311383407 / 2 ^ 85 :: real)"
    by simp
  have e2: "- (1934281311383407 / 2 ^ 85) * (1 / 2) = - (1934281311383407 / 2 ^ 86 :: real)"
    by simp
  have e3: "0 + - (1934281311383407 / 2 ^ 86) = - (1934281311383407 / 2 ^ 86 :: real)"
    by simp
  show "double_round (- (1934281311383407 / 2 ^ 84) * (1 / 2))
      = Num (- (1934281311383407 / 2 ^ 85))"
    unfolding e1 by (rule a)
  show "double_round (- (1934281311383407 / 2 ^ 85) * (1 / 2))
      = Num (- (1934281311383407 / 2 ^ 86))"
    unfolding e2 by (rule b)
  show "double_round (0 + - (1934281311383407 / 2 ^ 86)) = Num (- (1934281311383407 / 2 ^ 86))"
    unfolding e3 by (rule b)
qed

subsection \<open>The estimate 2.55\<close>

text \<open>The literal \<open>2.55\<close> denotes \<open>2871044762448691 / 2^50\<close>. Its quotient by 3
  is rounded up, and the product of the rounded quotient with 30 is rounded up to
  \<open>25.5\<close>, a tie of \<open>Math.round\<close>, although the exact value of the expression
  is below \<open>25.5\<close>.\<close>

lemma ex_quotient:
  "double_round (2871044762448691 / 2 ^ 50 / 3) = Num (7656119366529843 / 2 ^ 53)"
proof -
  have u: "(2::real) powr (of_int (- 1) - 52) = 1 / 2 ^ 53"
    by (simp add: powr_minus_divide)
  have "double_round (2871044762448691 / 2 ^ 50 / 3)
      = overflow (of_int (round_half_even (2871044762448691 / 2 ^ 50 / 3
            / 2 powr (of_int (- 1) - 52))) * 2 powr (of_int (- 1) - 52))"
    by (rule double_round_eval) (simp_all add: powr_minus_divide)
  also have "\<dots> = Num (7656119366529843 / 2 ^ 53)"
    unfolding u by (simp add: round_half_even_def overflow_def)
  finally show ?thesis .
qed

lemma ex_product:
  "double_round (7656119366529843 / 2 ^ 53 * 30) = Num (51 / 2)"
proof -
  have u: "(2::real) powr (of_int 4 - 52) = 1 / 2 ^ 48"
    by (simp add: powr_minus_divide)
  have "double_round (7656119366529843 / 2 ^ 53 * 30)
      = overflow (of_int (round_half_even (7656119366529843 / 2 ^ 53 * 30
            / 2 powr (of_int 4 - 52))) * 2 powr (of_int 4 - 52))"
    by (rule double_round_eval) simp_all
  also have "\<dots> = Num (51 / 2)"
    unfolding u by (simp add: round_half_even_def overflow_def)
  finally show ?thesis .
qed

section \<open>The clarity classifier\<close>

lemma computePci_Num:
  "computePci A (Num t) = (if t = 0 then Num 1 else jmax (Num 1) (jround (scaled A \<bar>t\<bar>)))"
  by (simp add: computePci_def scaled_def)

lemma computePci_exact:
  "computePci exact_arith (Num t)
     = Num (of_int (if t = 0 then 1 else max 1 (round (\<bar>t\<bar> / 3 * 30))))"
  by (simp add: computePci_def max_def)

lemma getPccCategory_Num:
  "getPccCategory (Num p) =
     (if 26 \<le> p then Very_Clear else if 16 \<le> p then Clear
      else if 6 \<le> p then Moderate else Slight)"
  by (simp add: getPccCategory_def)

lemma scaled_cases:
  assumes "monotone_scaling A" "0 \<le> x"
  shows "(\<exists>w. scaled A x = Num w \<and> 0 \<le> w) \<or> scaled A x = PosInfinity"
proof -
  from assms have d: "jle (Num 0) (fdiv A x 3)"
    unfolding monotone_scaling_def by blast
  from jle_zero_cases [OF d] show ?thesis
  proof
    assume "\<exists>v. fdiv A x 3 = Num v \<and> 0 \<le> v"
    then obtain v where v: "fdiv A x 3 = Num v" "0 \<le> v" by blast
    with assms(1) have "jle (Num 0) (fmul A v 30)"
      unfolding monotone_scaling_def by blast
    from jle_zero_cases [OF this] v show ?thesis by (simp add: scaled_def)
  next
    assume "fdiv A x 3 = PosInfinity"
    then show ?thesis by (simp add: scaled_def)
  qed
qed

lemma scaled_mono:
  assumes "monotone_scaling A" "0 \<le> x" "x \<le> y"
  shows "jle (scaled A x) (scaled A y)"
proof -
  from assms have le: "jle (fdiv A x 3) (fdiv A y 3)"
    and px: "jle (Num 0) (fdiv A x 3)"
    unfolding monotone_scaling_def by blast+
  from assms have py: "jle (Num 0) (fdiv A y 3)"
    unfolding monotone_scaling_def by (meson order_trans order_refl)
  from assms have y: "0 \<le> y" by simp
  from jle_zero_cases [OF px] show ?thesis
  proof
    assume "\<exists>v. fdiv A x 3 = Num v \<and> 0 \<le> v"
    then obtain v where v: "fdiv A x 3 = Num v" "0 \<le> v" by blast
    from jle_zero_cases [OF py] show ?thesis
    proof
      assume "\<exists>v'. fdiv A y 3 = Num v' \<and> 0 \<le> v'"
      then obtain v' where v': "fdiv A y 3 = Num v'" by blast
      with le v have "v \<le> v'" by simp
      with assms(1) v(2) have "jle (fmul A v 30) (fmul A v' 30)"
        unfolding monotone_scaling_def by blast
      with v v' show ?thesis by (simp add: scaled_def)
    next
      assume inf: "fdiv A y 3 = PosInfinity"
      from scaled_cases [OF assms(1,2)] have "scaled A x \<noteq> NaN" by auto
      then have "jle (scaled A x) PosInfinity" by (rule jle_PosInfinity)
      with inf show ?thesis by (simp add: scaled_def)
    qed
  next
    assume inf: "fdiv A x 3 = PosInfinity"
    with le have "fdiv A y 3 = PosInfinity"
      by (cases "fdiv A y 3") (auto simp: jle_def)
    with inf show ?thesis by (simp add: scaled_def jle_def)
  qed
qed

lemma scaled_three: "monotone_scaling A \<Longrightarrow> scaled A 3 = Num 30"
  by (simp add: scaled_def monotone_scaling_def)

lemma round_index_mono:
  "jle z z' \<Longrightarrow> jle (jmax (Num 1) (jround z)) (jmax (Num 1) (jround z'))"
  by (cases z; cases z') (auto simp: jle_def jmax_def dest: round_less_mono)

lemma index_at_least_one: "z \<noteq> NaN \<Longrightarrow> jle (Num 1) (jmax (Num 1) (jround z))"
  by (cases z) (auto simp: jle_def jmax_def)

lemma pci_range:
  assumes "monotone_scaling A" "- 3 \<le> t" "t \<le> 3"
  shows "\<exists>n::int. computePci A (Num t) = Num (of_int n) \<and> 1 \<le> n \<and> n \<le> 30"
proof (cases "t = 0")
  case True
  then have "computePci A (Num t) = Num (of_int 1)" by (simp add: computePci_Num)
  then show ?thesis by (metis order_refl one_le_numeral)
next
  case False
  have a: "0 \<le> \<bar>t\<bar>" "\<bar>t\<bar> \<le> 3" using assms by simp_all
  from scaled_mono [OF assms(1) a] scaled_three [OF assms(1)]
  have le: "jle (scaled A \<bar>t\<bar>) (Num 30)" by simp
  from scaled_cases [OF assms(1) a(1)] le
  obtain w where w: "scaled A \<bar>t\<bar> = Num w" "0 \<le> w" "w \<le> 30"
    by (auto simp: jle_def)
  have "round w \<le> round (30::real)" using w(3) by (rule round_mono)
  then have r: "round w \<le> 30" by simp
  have "computePci A (Num t) = Num (of_int (max 1 (round w)))"
    using False w(1) by (simp add: computePci_Num max_def)
  moreover have "1 \<le> max 1 (round w)" "max 1 (round w) \<le> 30" using r by simp_all
  ultimately show ?thesis by blast
qed

lemma pci_mono:
  assumes "monotone_scaling A" "\<bar>t\<bar> \<le> \<bar>t'\<bar>"
  shows "jle (computePci A (Num t)) (computePci A (Num t'))"
proof (cases "t = 0")
  case True
  show ?thesis
  proof (cases "t' = 0")
    case True
    with \<open>t = 0\<close> show ?thesis by (simp add: computePci_Num)
  next
    case False
    from scaled_cases [OF assms(1), of "\<bar>t'\<bar>"] have "scaled A \<bar>t'\<bar> \<noteq> NaN" by auto
    from index_at_least_one [OF this] True False show ?thesis
      by (simp add: computePci_Num)
  qed
next
  case False
  with assms(2) have ne: "t' \<noteq> 0" by auto
  have "jle (scaled A \<bar>t\<bar>) (scaled A \<bar>t'\<bar>)"
    using assms by (intro scaled_mono) simp_all
  from round_index_mono [OF this] False ne show ?thesis
    by (simp add: computePci_Num)
qed

lemma ex_pci_double:
  "computePci double_arith (Num (2871044762448691 / 2 ^ 50)) = Num 26"
  "computePci exact_arith (Num (2871044762448691 / 2 ^ 50)) = Num 25"
proof -
  let ?t = "2871044762448691 / 2 ^ 50 :: real"
  have pos: "\<bar>?t\<bar> = ?t" "?t \<noteq> 0" by simp_all
  have "scaled double_arith \<bar>?t\<bar> = fl_mul double_arith (double_round (?t / 3)) (Num 30)"
    unfolding scaled_def pos by simp
  also have "\<dots> = double_round (7656119366529843 / 2 ^ 53 * 30)"
    unfolding ex_quotient by simp
  finally have "scaled double_arith \<bar>?t\<bar> = Num (51 / 2)"
    unfolding ex_product .
  then have "computePci double_arith (Num ?t)
      = jmax (Num 1) (jround (Num (51 / 2)))"
    using pos(2) by (simp only: computePci_Num if_False)
  also have "\<dots> = Num 26" by (simp add: round_def)
  finally show "computePci double_arith (Num ?t) = Num 26" .
  show "computePci exact_arith (Num ?t) = Num 25"
    by (simp add: computePci_exact round_def)
qed

text \<open>
  Claim C5. For every numeric theta the Preference Clarity Index is 1 when theta is 0 and
  \<open>max(1, round(|theta| / 3.0 * 30))\<close> otherwise, the quotient and the product being
  those of the arithmetic of the engine; it is an integer between 1 and 30 whenever
  theta lies in \<open>[-3, 3]\<close>. The category is fixed by the thresholds 26, 16 and 6 on the
  index, so that 5 is Slight, 6 and 15 are Moderate, 16 and 25 are Clear and 26 is Very
  Clear. The index does not decrease when \<open>|theta|\<close> grows. The range and the
  monotonicity hold for every arithmetic whose division by 3 and multiplication by 30
  keep the order of operands that are not negative and are exact at \<open>3 / 3\<close> and
  \<open>1 * 30\<close>; the arithmetic of the format is one of them. There the estimate
  \<open>2.55\<close> has the index 26, not the 25 of the arithmetic that never rounds.
\<close>

theorem clarity_classifier:
  "computePci A (Num t)
     = (if t = 0 then Num 1
        else jmax (Num 1) (jround (fl_mul A (fl_div A (Num \<bar>t\<bar>) (Num 3)) (Num 30))))
   \<and> (monotone_scaling A \<and> - 3 \<le> t \<and> t \<le> 3 \<longrightarrow>
        (\<exists>n::int. computePci A (Num t) = Num (of_int n) \<and> 1 \<le> n \<and> n \<le> 30))
   \<and> getPccCategory (Num p) =
        (if 26 \<le> p then Very_Clear else if 16 \<le> p then Clear
         else if 6 \<le> p then Moderate else Slight)
   \<and> getPccCategory (Num 5) = Slight \<and> getPccCategory (Num 6) = Moderate
   \<and> getPccCategory (Num 15) = Moderate \<and> getPccCategory (Num 16) = Clear
   \<and> getPccCategory (Num 25) = Clear \<and> getPccCategory (Num 26) = Very_Clear
   \<and> (monotone_scaling A \<and> \<bar>t\<bar> \<le> \<bar>t'\<bar> \<longrightarrow>
        jle (computePci A (Num t)) (computePci A (Num t')))"
proof -
  have formula: "computePci A (Num t)
     = (if t = 0 then Num 1
        else jmax (Num 1) (jround (fl_mul A (fl_div A (Num \<bar>t\<bar>) (Num 3)) (Num 30))))"
    by (simp add: computePci_def)
  have range: "monotone_scaling A \<and> - 3 \<le> t \<and> t \<le> 3 \<longrightarrow>
        (\<exists>n::int. computePci A (Num t) = Num (of_int n) \<and> 1 \<le> n \<and> n \<le> 30)"
    using pci_range [of A t] by blast
  have mono: "monotone_scaling A \<and> \<bar>t\<bar> \<le> \<bar>t'\<bar> \<longrightarrow>
        jle (computePci A (Num t)) (computePci A (Num t'))"
    using pci_mono [of A t t'] by blast
  have cat: "getPccCategory (Num p) =
        (if 26 \<le> p then Very_Clear else if 16 \<le> p then Clear
         else if 6 \<le> p then Moderate else Slight)"
    "getPccCategory (Num 5) = Slight" "getPccCategory (Num 6) = Moderate"
    "getPccCategory (Num 15) = Moderate" "getPccCategory (Num 16) = Clear"
    "getPccCategory (Num 25) = Clear" "getPccCategory (Num 26) = Very_Clear"
    by (simp_all add: getPccCategory_Num)
  from formula range cat mono show ?thesis by blast
qed

theorem clarity_classifier_witness:
  "- 3 \<le> (3/2::real) \<and> (3/2::real) \<le> 3 \<and> \<bar>3/2::real\<bar> \<le> \<bar>- 2::real\<bar>
   \<and> computePci exact_arith (Num (3/2)) = Num 15 \<and> getPccCategory (Num 15) = Moderate
   \<and> computePci exact_arith (Num (- 2)) = Num 20
   \<and> (\<exists>n::int. computePci exact_arith (Num (3/2)) = Num (of_int n) \<and> 1 \<le> n \<and> n \<le> 30)
   \<and> jle (computePci exact_arith (Num (3/2))) (computePci exact_arith (Num (- 2)))
   \<and> computePci double_arith (Num (2871044762448691 / 2 ^ 50)) = Num 26
   \<and> getPccCategory (Num 26) = Very_Clear
   \<and> (\<exists>n::int. computePci double_arith (Num (2871044762448691 / 2 ^ 50)) = Num (of_int n)
         \<and> 1 \<le> n \<and> n \<le> 30)
   \<and> jle (computePci double_arith (Num (3/2)))
         (computePci double_arith (Num (2871044762448691 / 2 ^ 50)))"
proof -
  let ?t = "2871044762448691 / 2 ^ 50 :: real"
  have h: "- 3 \<le> (3/2::real) \<and> (3/2::real) \<le> 3" "\<bar>3/2::real\<bar> \<le> \<bar>- 2::real\<bar>"
    "- 3 \<le> ?t \<and> ?t \<le> 3" "\<bar>3/2::real\<bar> \<le> \<bar>?t\<bar>"
    by simp_all
  have v: "computePci exact_arith (Num (3/2)) = Num 15"
    "computePci exact_arith (Num (- 2)) = Num 20"
    by (simp_all add: computePci_exact)
  from clarity_classifier [of exact_arith "3/2" 15 "- 2"] h(1,2) monotone_scaling_exact
  have e: "(\<exists>n::int. computePci exact_arith (Num (3/2)) = Num (of_int n) \<and> 1 \<le> n \<and> n \<le> 30)
     \<and> jle (computePci exact_arith (Num (3/2))) (computePci exact_arith (Num (- 2)))
     \<and> getPccCategory (Num 15) = Moderate"
    by blast
  from clarity_classifier [of double_arith ?t 26 0] h(3) monotone_scaling_double
  have d1: "(\<exists>n::int. computePci double_arith (Num ?t) = Num (of_int n) \<and> 1 \<le> n \<and> n \<le> 30)
     \<and> getPccCategory (Num 26) = Very_Clear"
    by blast
  from clarity_classifier [of double_arith "3/2" 26 ?t] h(4) monotone_scaling_double
  have d2: "jle (computePci double_arith (Num (3/2))) (computePci double_arith (Num ?t))"
    by blast
  from h(1,2) v e d1 d2 ex_pci_double(1) show ?thesis by blast
qed

section \<open>The clarity weight\<close>

lemma weight_table_mono:
  "p1 \<le> p2 \<Longrightarrow>
     IRT_CLARITY_WEIGHT (getPccCategory (Num p1)) \<le> IRT_CLARITY_WEIGHT (getPccCategory (Num p2))"
  by (simp add: getPccCategory_Num IRT_CLARITY_WEIGHT_def)

lemma getIrtClarityWeight_pos:
  "0 < p \<Longrightarrow> getIrtClarityWeight (Num p) = Num (215 / 100 * ln p + 1)"
  by (simp add: getIrtClarityWeight_def)

lemma getIrtClarityWeight_guard:
  "p \<le> 0 \<Longrightarrow> getIrtClarityWeight (Num p) = Num 1"
  by (simp add: getIrtClarityWeight_def)

text \<open>
  Claim C9. The clarity weight does not decrease when the index grows, in both versions
  of the engine: the table keyed by category (Slight 2, Moderate 4, Clear 6, Very Clear
  8) and the continuous weight \<open>2.15 * ln(pci) + 1\<close>, which is 1 for an index that is
  not positive. For indices \<open>1 \<le> p1 \<le> p2\<close> the weight of \<open>p1\<close> is at most the
  weight of \<open>p2\<close>.
\<close>

theorem clarity_weight_monotone:
  "(p1 \<le> p2 \<longrightarrow>
      IRT_CLARITY_WEIGHT (getPccCategory (Num p1)) \<le> IRT_CLARITY_WEIGHT (getPccCategory (Num p2)))
   \<and> IRT_CLARITY_WEIGHT Slight = 2 \<and> IRT_CLARITY_WEIGHT Moderate = 4
   \<and> IRT_CLARITY_WEIGHT Clear = 6 \<and> IRT_CLARITY_WEIGHT Very_Clear = 8
   \<and> (p1 \<le> 0 \<longrightarrow> getIrtClarityWeight (Num p1) = Num 1)
   \<and> (0 < p1 \<longrightarrow> getIrtClarityWeight (Num p1) = Num (215 / 100 * ln p1 + 1))
   \<and> (1 \<le> p1 \<and> p1 \<le> p2 \<longrightarrow>
        (\<exists>w1 w2. getIrtClarityWeight (Num p1) = Num w1 \<and> getIrtClarityWeight (Num p2) = Num w2
           \<and> w1 \<le> w2))"
proof -
  have log_mono: "1 \<le> p1 \<and> p1 \<le> p2 \<longrightarrow>
        (\<exists>w1 w2. getIrtClarityWeight (Num p1) = Num w1 \<and> getIrtClarityWeight (Num p2) = Num w2
           \<and> w1 \<le> w2)"
  proof
    assume h: "1 \<le> p1 \<and> p1 \<le> p2"
    then have "ln p1 \<le> ln p2" by simp
    then have "215 / 100 * ln p1 + 1 \<le> 215 / 100 * ln p2 + 1" by simp
    moreover have "getIrtClarityWeight (Num p1) = Num (215 / 100 * ln p1 + 1)"
      using h by (intro getIrtClarityWeight_pos) simp
    moreover have "getIrtClarityWeight (Num p2) = Num (215 / 100 * ln p2 + 1)"
      using h by (intro getIrtClarityWeight_pos) simp
    ultimately show "\<exists>w1 w2. getIrtClarityWeight (Num p1) = Num w1
        \<and> getIrtClarityWeight (Num p2) = Num w2 \<and> w1 \<le> w2"
      by blast
  qed
  show ?thesis
    using log_mono weight_table_mono [of p1 p2]
    by (simp add: IRT_CLARITY_WEIGHT_def getIrtClarityWeight_pos getIrtClarityWeight_guard)
qed

theorem clarity_weight_monotone_witness:
  "(5::real) \<le> 16 \<and> (1::real) \<le> 5 \<and> (0::real) < 5 \<and> (0::real) \<le> 0
   \<and> IRT_CLARITY_WEIGHT (getPccCategory (Num 5)) = 2
   \<and> IRT_CLARITY_WEIGHT (getPccCategory (Num 16)) = 6
   \<and> getIrtClarityWeight (Num 0) = Num 1
   \<and> getIrtClarityWeight (Num 5) = Num (215 / 100 * ln 5 + 1)
   \<and> (\<exists>w1 w2. getIrtClarityWeight (Num 5) = Num w1 \<and> getIrtClarityWeight (Num 16) = Num w2
         \<and> w1 \<le> w2)"
proof -
  have h: "(5::real) \<le> 16" "(1::real) \<le> 5" "(0::real) < 5" "(0::real) \<le> 0" by simp_all
  have a: "(\<exists>w1 w2. getIrtClarityWeight (Num 5) = Num w1 \<and> getIrtClarityWeight (Num 16) = Num w2
         \<and> w1 \<le> w2) \<and> getIrtClarityWeight (Num 5) = Num (215 / 100 * ln 5 + 1)"
    using clarity_weight_monotone [of 5 16] h by blast
  have b: "getIrtClarityWeight (Num 0) = Num 1"
    using clarity_weight_monotone [of 0 0] h by simp
  have c: "IRT_CLARITY_WEIGHT (getPccCategory (Num 5)) = 2"
    "IRT_CLARITY_WEIGHT (getPccCategory (Num 16)) = 6"
    by (simp_all add: getPccCategory_Num IRT_CLARITY_WEIGHT_def)
  show ?thesis using a b c h by blast
qed

section \<open>The attitude aggregator\<close>

lemma likertWeights_spec:
  "likertWeights c = Some w \<Longrightarrow> spec_likert_weight c = w \<and> truthy c"
  by (auto simp: likertWeights_def spec_likert_weight_def split: if_splits)

lemma likertWeights_None:
  "likertWeights c = None \<Longrightarrow> spec_likert_weight c = 0"
  by (auto simp: likertWeights_def spec_likert_weight_def split: if_splits)

lemma likertStep_contribution:
  assumes "m f = Some (Num x)"
  shows "likertStep aa m q f = Some (Num (x + spec_contribution aa f q))"
proof (cases "aa (q_id q)")
  case None
  then show ?thesis using assms by (simp add: likertStep_def spec_contribution_def)
next
  case (Some c)
  show ?thesis
  proof (cases "likertWeights c")
    case None
    then show ?thesis
      using assms Some likertWeights_None [OF None]
      by (simp add: likertStep_def spec_contribution_def)
  next
    case (Some w)
    from likertWeights_spec [OF Some] have "spec_likert_weight c = w" "truthy c" by simp_all
    then show ?thesis
      using assms Some \<open>aa (q_id q) = Some c\<close>
      by (auto simp: likertStep_def spec_contribution_def addStrength_def strength_def)
  qed
qed

lemma foldl_likertStep:
  "m f = Some (Num x) \<Longrightarrow>
     foldl (likertStep aa) m qs f = Some (Num (x + (\<Sum>q \<leftarrow> qs. spec_contribution aa f q)))"
proof (induction qs arbitrary: m x)
  case Nil
  then show ?case by simp
next
  case (Cons q qs)
  have "likertStep aa m q f = Some (Num (x + spec_contribution aa f q))"
    using Cons.prems by (rule likertStep_contribution)
  then have "foldl (likertStep aa) (likertStep aa m q) qs f
      = Some (Num (x + spec_contribution aa f q + (\<Sum>q \<leftarrow> qs. spec_contribution aa f q)))"
    by (rule Cons.IH)
  then show ?case by (simp add: add.assoc)
qed

lemma initialStrengths_label:
  "f \<in> set function_labels \<Longrightarrow> initialStrengths f = Some (Num 0)"
  by (auto simp: function_labels_def initialStrengths_def)

lemma attitudeStrengths_label:
  "f \<in> set function_labels \<Longrightarrow>
     attitudeStrengths aa qs f = Some (Num (spec_strength aa qs f))"
  using foldl_likertStep [of initialStrengths f 0 aa qs] initialStrengths_label [of f]
  by (simp add: attitudeStrengths_def spec_strength_def)

lemma spec_contribution_nonneg: "0 \<le> spec_contribution aa f q"
  by (simp add: spec_contribution_def Let_def split: option.splits)

lemma spec_strength_nonneg: "0 \<le> spec_strength aa qs f"
  unfolding spec_strength_def by (rule sum_list_nonneg) (auto simp: spec_contribution_nonneg)

text \<open>
  Claim C6. The Attitude Strength Map is the fold of the Likert answers with the weight
  table 1: +2, 2: +1, 3: 0, 4: -1, 5: -2: a positive weight adds its magnitude to the
  first pole of the question, a negative weight adds its magnitude to the second pole, a
  zero weight and an unanswered question add nothing. Hence each of the eight function
  strengths is the sum of these contributions and is never negative.
\<close>

theorem attitude_strength_map:
  "likertWeights (StrV ''1'') = Some 2 \<and> likertWeights (StrV ''2'') = Some 1
   \<and> likertWeights (StrV ''3'') = Some 0 \<and> likertWeights (StrV ''4'') = Some (- 1)
   \<and> likertWeights (StrV ''5'') = Some (- 2)
   \<and> likertWeights (NumV (Num 1)) = Some 2 \<and> likertWeights (NumV (Num 2)) = Some 1
   \<and> likertWeights (NumV (Num 3)) = Some 0 \<and> likertWeights (NumV (Num 4)) = Some (- 1)
   \<and> likertWeights (NumV (Num 5)) = Some (- 2)
   \<and> (\<forall>f \<in> set function_labels.
        attitudeStrengths attitudeAnswers allAttitudeQuestions f
          = Some (Num (spec_strength attitudeAnswers allAttitudeQuestions f))
        \<and> 0 \<le> spec_strength attitudeAnswers allAttitudeQuestions f)"
  by (simp add: likertWeights_def attitudeStrengths_label spec_strength_nonneg)

theorem attitude_strength_map_witness:
  "''Ti'' \<in> set function_labels
   \<and> attitudeStrengths ex_attitude_answers ex_attitude_questions ''Ti'' = Some (Num 3)
   \<and> spec_strength ex_attitude_answers ex_attitude_questions ''Ti'' = 3"
proof -
  have h: "''Ti'' \<in> set function_labels" by (simp add: function_labels_def)
  have v: "spec_strength ex_attitude_answers ex_attitude_questions ''Ti'' = 3"
    by (simp add: spec_strength_def spec_contribution_def spec_likert_weight_def
        ex_attitude_answers_def ex_attitude_questions_def)
  from attitude_strength_map [of ex_attitude_answers ex_attitude_questions] h
  have "attitudeStrengths ex_attitude_answers ex_attitude_questions ''Ti''
          = Some (Num (spec_strength ex_attitude_answers ex_attitude_questions ''Ti''))" by blast
  with h v show ?thesis by simp
qed

lemma likertStep_no_answers: "likertStep Map.empty m q = m"
  by (simp add: likertStep_def)

lemma attitudeStrengths_no_answers: "attitudeStrengths Map.empty aqs = initialStrengths"
  unfolding attitudeStrengths_def
  by (induction aqs) (simp_all add: likertStep_no_answers)

lemma likertStep_outside:
  assumes "likertWeights c = None"
  shows "likertStep (aa(k \<mapsto> c)) m q = likertStep (aa(k := None)) m q"
  using assms by (simp add: likertStep_def)

lemma attitudeStrengths_outside:
  assumes "likertWeights c = None"
  shows "attitudeStrengths (aa(k \<mapsto> c)) qs = attitudeStrengths (aa(k := None)) qs"
proof -
  have "likertStep (aa(k \<mapsto> c)) = likertStep (aa(k := None))"
    by (intro ext) (simp add: likertStep_outside [OF assms])
  then show ?thesis by (simp add: attitudeStrengths_def)
qed

section \<open>Unanswered dichotomies\<close>

lemma dichotomy_indices:
  "set (map fst (filter (\<lambda>(i, p). dichotomy p = d) (enumerate 0 ip)))
     = {i. i < length ip \<and> dichotomy (ip ! i) = d}"
  by (auto simp: in_set_enumerate_eq image_iff)

lemma set_answeredQuestionIndices:
  "set (answeredQuestionIndices ip d answers)
     \<subseteq> {i. i < length ip \<and> dichotomy (ip ! i) = d \<and> answers (Suc i) \<noteq> None}"
  unfolding answeredQuestionIndices_def dichotomyToQuestionMap_def Let_def
  using dichotomy_indices [of d ip]
  by (auto split: if_splits)

lemma no_answer_no_index:
  assumes "\<forall>i < length ip. dichotomy (ip ! i) = d \<longrightarrow> answers (Suc i) = None"
  shows "answeredQuestionIndices ip d answers = []"
proof -
  have "set (answeredQuestionIndices ip d answers) \<subseteq> {}"
    using set_answeredQuestionIndices [of ip d answers] assms by fastforce
  then show ?thesis by simp
qed

lemma enumerate_as_map: "enumerate 0 xs = map (\<lambda>i. (i, xs ! i)) [0 ..< length xs]"
proof (rule nth_equalityI)
  show "length (enumerate 0 xs) = length (map (\<lambda>i. (i, xs ! i)) [0 ..< length xs])" by simp
next
  fix i assume "i < length (enumerate 0 xs)"
  then show "enumerate 0 xs ! i = map (\<lambda>i. (i, xs ! i)) [0 ..< length xs] ! i"
    by (simp add: nth_enumerate_eq)
qed

lemma answered_with_entry:
  assumes "d \<in> set DICHOTOMY_CONFIG \<or> d \<in> set inherited_names"
  shows "answeredQuestionIndices ip d answers = spec_answered ip d answers"
proof -
  let ?idx = "map fst (filter (\<lambda>(i, p). dichotomy p = d) (enumerate 0 ip))"
  have idx: "?idx = filter (\<lambda>i. dichotomy (ip ! i) = d) [0 ..< length ip]"
    by (simp add: enumerate_as_map filter_map o_def)
  have "(case dichotomyToQuestionMap ip d of None \<Rightarrow> [] | Some l \<Rightarrow> l) = ?idx"
    using assms by (simp add: dichotomyToQuestionMap_def Let_def)
  then show ?thesis
    by (simp add: answeredQuestionIndices_def spec_answered_def idx Let_def conj_commute)
qed

lemma answered_is_spec_answered:
  assumes "d \<in> set DICHOTOMY_CONFIG"
  shows "answeredQuestionIndices ip d answers = spec_answered ip d answers"
  using assms by (intro answered_with_entry) simp

lemma not_configured:
  "d \<notin> set DICHOTOMY_CONFIG \<Longrightarrow> d \<notin> set inherited_names \<Longrightarrow>
     answeredQuestionIndices ip d answers = []"
  by (simp add: answeredQuestionIndices_def dichotomyToQuestionMap_def Let_def)

lemma set_spec_answered:
  "set (spec_answered ip d answers)
     = {i. i < length ip \<and> dichotomy (ip ! i) = d \<and> answers (Suc i) \<noteq> None}"
  by (auto simp: spec_answered_def)

lemma findBestTheta_unanswered:
  "answeredQuestionIndices ip d answers = [] \<Longrightarrow>
     findBestThetaForDichotomy A ip d answers qs = Inr (Num 0)"
  by (simp add: findBestThetaForDichotomy_def)

lemma coreResult_unanswered:
  "answeredQuestionIndices ip d answers = [] \<Longrightarrow>
     coreResult A ip answers qs d
       = Inr \<lparr>res_pcc = Slight, res_theta = Num 0, res_pci = Num 1\<rparr>"
  by (simp add: coreResult_def findBestTheta_unanswered computePci_def getPccCategory_Num)

lemma coreResults_unfold:
  "coreResults A ip answers qs =
     (case coreResult A ip answers qs ''E-I'' of
        Inl e \<Rightarrow> Inl e
      | Inr ei \<Rightarrow>
          (case coreResult A ip answers qs ''S-N'' of
             Inl e \<Rightarrow> Inl e
           | Inr sn \<Rightarrow>
               (case coreResult A ip answers qs ''T-F'' of
                  Inl e \<Rightarrow> Inl e
                | Inr tf \<Rightarrow> Inr (ei, sn, tf))))"
  by (simp add: coreResults_def DICHOTOMY_CONFIG_def split: sum.splits)

section \<open>The scoring loop\<close>

lemma scoreStep_cong:
  "\<forall>(t, stk) \<in> set xs. f t stk = g t stk \<Longrightarrow>
     foldl (scoreStep f) s xs = foldl (scoreStep g) s xs"
proof (induction xs arbitrary: s)
  case Nil
  then show ?case by simp
next
  case (Cons x xs)
  obtain t stk where x: "x = (t, stk)" by (cases x)
  have "scoreStep f s x = scoreStep g s x"
    using Cons.prems x by (simp add: scoreStep_def)
  then show ?case using Cons by simp
qed

lemma stack_labels:
  "(t, (d, a, te, i)) \<in> set TYPE_FUNCTION_STACKS \<Longrightarrow>
     d \<in> set function_labels \<and> a \<in> set function_labels
     \<and> te \<in> set function_labels \<and> i \<in> set function_labels"
  by (auto simp: TYPE_FUNCTION_STACKS_def function_labels_def)

lemma typeScore_Num:
  assumes "res_theta ei = Num t1" "res_theta sn = Num t2" "res_theta tf = Num t3"
    and "\<forall>f \<in> set function_labels. \<exists>x. st f = Some (Num x)"
    and "(t, stk) \<in> set TYPE_FUNCTION_STACKS"
  shows "\<exists>x. typeScore ei sn tf st t stk = Num x"
proof -
  obtain d a te i where stk: "stk = (d, a, te, i)" by (cases stk) auto
  have "d \<in> set function_labels" "a \<in> set function_labels"
    "te \<in> set function_labels" "i \<in> set function_labels"
    using stack_labels [of t d a te i] assms(5) stk by simp_all
  with assms(4)
  obtain x1 x2 x3 x4 where "st d = Some (Num x1)" "st a = Some (Num x2)"
    "st te = Some (Num x3)" "st i = Some (Num x4)" by meson
  then show ?thesis
    using assms(1-3) stk by (simp add: typeScore_def strength_def Let_def)
qed

lemma typeScore_zero:
  assumes "(t, stk) \<in> set TYPE_FUNCTION_STACKS"
  shows "typeScore neutral neutral neutral initialStrengths t stk = Num 0"
proof -
  obtain d a te i where stk: "stk = (d, a, te, i)" by (cases stk) auto
  from stack_labels assms stk initialStrengths_label
  have "initialStrengths d = Some (Num 0)" "initialStrengths a = Some (Num 0)"
    "initialStrengths te = Some (Num 0)" "initialStrengths i = Some (Num 0)" by blast+
  then show ?thesis
    using stk by (simp add: typeScore_def strength_def Let_def neutral_def)
qed

lemma scoreStep_invariant:
  assumes "scoring_invariant s" "f t stk = Num x" "snd (snd s) t = None"
  shows "scoring_invariant (scoreStep f s (t, stk)) \<and> fst (scoreStep f s (t, stk)) \<noteq> None"
proof -
  obtain b m ts where s: "s = (b, m, ts)" by (cases s) auto
  from assms(1) s consider
    (init) "b = None" "m = NegInfinity" "ts = Map.empty"
    | (best) t0 x0 where "b = Some t0" "m = Num x0" "ts t0 = Some (Num x0)"
        "\<forall>t' v. ts t' = Some v \<longrightarrow> (\<exists>y. v = Num y \<and> y \<le> x0)"
    by (auto simp: scoring_invariant_def)
  then show ?thesis
  proof cases
    case init
    then show ?thesis
      using s assms(2) by (simp add: scoreStep_def scoring_invariant_def jgt_def Let_def)
  next
    case best
    have ne: "t \<noteq> t0" using best(3) assms(3) s by auto
    show ?thesis
    proof (cases "x0 < x")
      case True
      then show ?thesis
        using s assms(2) best ne
        by (fastforce simp: scoreStep_def scoring_invariant_def Let_def)
    next
      case False
      then show ?thesis
        using s assms(2) best ne
        by (fastforce simp: scoreStep_def scoring_invariant_def Let_def)
    qed
  qed
qed

lemma scoreStep_scores:
  "snd (snd (scoreStep f s (t, stk))) = (snd (snd s))(t \<mapsto> f t stk)"
  by (cases s) (simp add: scoreStep_def Let_def)

lemma scoreLoop_scores:
  "snd (snd (foldl (scoreStep f) s xs)) t' =
     (case map_of (rev xs) t' of None \<Rightarrow> snd (snd s) t' | Some stk \<Rightarrow> Some (f t' stk))"
proof (induction xs arbitrary: s)
  case Nil
  then show ?case by simp
next
  case (Cons x xs)
  obtain t stk where x: "x = (t, stk)" by (cases x)
  show ?case
    using Cons.IH [of "scoreStep f s x"] x
    by (auto simp: scoreStep_scores map_add_def split: option.splits)
qed

lemma scoreLoop_invariant:
  assumes "\<forall>(t, stk) \<in> set xs. \<exists>x. f t stk = Num x"
    and "distinct (map fst xs)"
    and "\<forall>(t, stk) \<in> set xs. snd (snd s) t = None"
    and "scoring_invariant s"
  shows "scoring_invariant (foldl (scoreStep f) s xs)
         \<and> (xs \<noteq> [] \<longrightarrow> fst (foldl (scoreStep f) s xs) \<noteq> None)"
  using assms
proof (induction xs arbitrary: s rule: rev_induct)
  case Nil
  then show ?case by simp
next
  case (snoc e xs)
  obtain t stk where e: "e = (t, stk)" by (cases e)
  from snoc.prems e obtain x where x: "f t stk = Num x" by auto
  have inv: "scoring_invariant (foldl (scoreStep f) s xs)"
    using snoc.IH [of s] snoc.prems by auto
  have "map_of (rev xs) t = None"
    using snoc.prems(2) e by (auto simp: map_of_eq_None_iff image_iff)
  then have fresh: "snd (snd (foldl (scoreStep f) s xs)) t = None"
    using snoc.prems(3) e by (simp add: scoreLoop_scores)
  from scoreStep_invariant [of "foldl (scoreStep f) s xs" f t stk x] inv x fresh e
  show ?case by simp
qed

lemma scoreStep_NaN:
  "\<forall>(t, stk) \<in> set xs. f t stk = NaN \<Longrightarrow> fst (foldl (scoreStep f) (None, m, ts) xs) = None"
proof (induction xs arbitrary: ts)
  case Nil
  then show ?case by simp
next
  case (Cons x xs)
  obtain t stk where x: "x = (t, stk)" by (cases x)
  have "scoreStep f (None, m, ts) x = (None, m, ts(t \<mapsto> NaN))"
    using Cons.prems x by (simp add: scoreStep_def jgt_def Let_def)
  then show ?case using Cons by simp
qed

lemma map_of_rev_distinct: "distinct (map fst xs) \<Longrightarrow> map_of (rev xs) = map_of xs"
  using map_of_inject_set [of "rev xs" xs] by (simp add: rev_map [symmetric])

lemma types_distinct: "distinct (map fst TYPE_FUNCTION_STACKS)"
  by (simp add: TYPE_FUNCTION_STACKS_def)

lemma scoreAll_zero_best:
  "fst (scoreAll (\<lambda>t stk. Num 0)) = Some ''INTP'' \<and> fst (snd (scoreAll (\<lambda>t stk. Num 0))) = Num 0"
  by (simp add: scoreAll_def scoreStep_def TYPE_FUNCTION_STACKS_def jgt_def Let_def)

section \<open>The Newton iteration\<close>

lemma one_plus_exp_nonzero [simp]: "1 + exp (x::real) \<noteq> 0"
  using exp_gt_zero [of x] by linarith

lemma tolerances_positive: "0 < lit_1e_9" "0 < lit_1e_4"
  by (simp_all add: lit_1e_9_def lit_1e_4_def)

lemma probability_spec: "probability A th (Num a) (Num b) = spec_P A th a b"
  by (simp add: probability_def spec_P_def)

lemma accumulate_step:
  "accumulate A th (f, s) it =
     (fl_add A f
        (fl_mul A (Num (item_a it))
           (fl_sub A (toNumber (item_u it)) (spec_P A th (item_a it) (item_b it)))),
      fl_add A s
        (fl_mul A
           (fl_mul A (fl_mul A (Num (- item_a it)) (Num (item_a it)))
              (fl_sub A (Num 1) (spec_P A th (item_a it) (item_b it))))
           (spec_P A th (item_a it) (item_b it))))"
  by (simp add: accumulate_def Let_def probability_spec)

lemma accumulate_spec:
  "foldl (accumulate A th) (f, s) items =
     (spec_first A th f (map item_triple items), spec_second A th s (map item_triple items))"
proof (induction items arbitrary: f s)
  case Nil
  then show ?case by simp
next
  case (Cons it items)
  have "foldl (accumulate A th) (f, s) (it # items)
      = foldl (accumulate A th) (accumulate A th (f, s) it) items" by simp
  also have "\<dots> = (spec_first A th f (map item_triple (it # items)),
                    spec_second A th s (map item_triple (it # items)))"
    unfolding accumulate_step Cons.IH by (simp add: item_triple_def)
  finally show ?case .
qed

lemma derivatives_spec:
  "derivatives A th items =
     (spec_first A th (Num 0) (map item_triple items),
      spec_second A th (Num 0) (map item_triple items))"
  by (simp add: derivatives_def accumulate_spec)

lemma newton_spec: "newton A n items th = spec_newton A n (map item_triple items) th"
proof (induction n arbitrary: th)
  case 0
  then show ?case by simp
next
  case (Suc n)
  show ?case by (simp add: derivatives_spec spec_clamp_def Let_def Suc.IH)
qed

lemma clamp_cases:
  "spec_clamp x = NaN \<or> (\<exists>t. spec_clamp x = Num t \<and> - 3 \<le> t \<and> t \<le> 3)"
  by (cases x) (auto simp: spec_clamp_def jmax_def jmin_def)

lemma clamp_defined: "x \<noteq> NaN \<Longrightarrow> \<exists>t. spec_clamp x = Num t \<and> - 3 \<le> t \<and> t \<le> 3"
  by (cases x) (auto simp: spec_clamp_def jmax_def jmin_def)

lemma clamp_NaN [simp]: "spec_clamp NaN = NaN"
  by (simp add: spec_clamp_def jmax_def jmin_def)

lemma spec_newton_range:
  "th = NaN \<or> (\<exists>t. th = Num t \<and> - 3 \<le> t \<and> t \<le> 3) \<Longrightarrow>
     spec_newton A n its th = NaN
     \<or> (\<exists>t. spec_newton A n its th = Num t \<and> - 3 \<le> t \<and> t \<le> 3)"
proof (induction n arbitrary: th)
  case 0
  then show ?case by simp
next
  case (Suc n)
  let ?c = "spec_clamp (fl_sub A th (fl_div A (spec_first A th (Num 0) its)
               (spec_second A th (Num 0) its)))"
  have c: "?c = NaN \<or> (\<exists>t. ?c = Num t \<and> - 3 \<le> t \<and> t \<le> 3)" by (rule clamp_cases)
  show ?case
    using Suc.prems c Suc.IH [OF c]
    by (auto simp: Let_def)
qed

lemma spec_first_NaN [simp]: "spec_first A th NaN its = NaN"
  by (induction its) auto

lemma spec_second_NaN [simp]: "spec_second A th NaN its = NaN"
  by (induction its) auto

lemma spec_first_undefined:
  "\<exists>(a, b, u) \<in> set its. u = None \<Longrightarrow> spec_first A th acc its = NaN"
proof (induction its arbitrary: acc)
  case Nil
  then show ?case by simp
next
  case (Cons it its)
  obtain a b u where it: "it = (a, b, u)" by (cases it) auto
  show ?case
  proof (cases u)
    case None
    then show ?thesis using it by simp
  next
    case (Some k)
    with Cons.prems it have "\<exists>(a, b, u) \<in> set its. u = None" by auto
    from Cons.IH [OF this] it show ?thesis by simp
  qed
qed

lemma spec_newton_NaN [simp]: "spec_newton A n its NaN = NaN"
  by (induction n) (simp_all add: Let_def)

lemma spec_newton_undefined:
  assumes "\<exists>(a, b, u) \<in> set its. u = None"
  shows "spec_newton A (Suc n) its (Num 0) =
     (if jlt (jabs (spec_second A (Num 0) (Num 0) its)) (Num lit_1e_9) then Num 0 else NaN)"
  using spec_first_undefined [OF assms, of A "Num 0" "Num 0"]
  by (simp add: Let_def)

lemma spec_newton_undefined_20:
  assumes "\<exists>(a, b, u) \<in> set its. u = None"
  shows "spec_newton A 20 its (Num 0) =
     (if jlt (jabs (spec_second A (Num 0) (Num 0) its)) (Num lit_1e_9) then Num 0 else NaN)"
  using spec_newton_undefined [OF assms, of A 19] by (simp del: spec_newton.simps)

lemma fl_sub_defined:
  assumes "defined_on_finite A" "q \<noteq> NaN"
  shows "fl_sub A (Num t) q \<noteq> NaN"
  using assms by (cases q) (simp_all add: defined_on_finite_def jsub_def)

lemma finite_derivatives_range:
  assumes "defined_on_finite A"
    and "\<forall>t. - 3 \<le> t \<and> t \<le> 3 \<longrightarrow>
           (\<exists>f s. spec_first A (Num t) (Num 0) its = Num f
                  \<and> spec_second A (Num t) (Num 0) its = Num s)"
    and "- 3 \<le> t" "t \<le> 3"
  shows "\<exists>t'. spec_newton A n its (Num t) = Num t' \<and> - 3 \<le> t' \<and> t' \<le> 3"
  using assms(3,4)
proof (induction n arbitrary: t)
  case 0
  then show ?case by simp
next
  case (Suc n)
  from assms(2) Suc.prems obtain f s
    where f: "spec_first A (Num t) (Num 0) its = Num f"
      and s: "spec_second A (Num t) (Num 0) its = Num s" by blast
  show ?case
  proof (cases "\<bar>s\<bar> < lit_1e_9")
    case True
    then show ?thesis using f s Suc.prems by (simp add: Let_def)
  next
    case False
    then have nz: "s \<noteq> 0" using tolerances_positive(1) by auto
    then have q: "fl_div A (Num f) (Num s) \<noteq> NaN"
      using assms(1) by (simp add: defined_on_finite_def)
    from clamp_defined [OF fl_sub_defined [OF assms(1) q, of t]]
    obtain c where c: "spec_clamp (fl_sub A (Num t) (fl_div A (Num f) (Num s))) = Num c"
      "- 3 \<le> c" "c \<le> 3" by blast
    from Suc.IH [OF c(2,3)] obtain t' where
      "spec_newton A n its (Num c) = Num t'" "- 3 \<le> t'" "t' \<le> 3" by blast
    then show ?thesis
      using f s False c by (simp add: Let_def del: fl_div.simps fl_sub.simps)
  qed
qed

subsection \<open>The arithmetic that never rounds\<close>

lemma spec_P_exact: "spec_P exact_arith (Num t) a b = Num (real_P t a b)"
  by (simp add: spec_P_def real_P_def)

lemma spec_first_exact:
  "spec_first exact_arith (Num t) (Num f0) (map numeric_item its)
     = Num (f0 + real_first its t)"
proof (induction its arbitrary: f0)
  case Nil
  then show ?case by (simp add: real_first_def)
next
  case (Cons it its)
  obtain a b u where it: "it = (a, b, u)" by (cases it) auto
  have "real_first (it # its) t = a * (u - real_P t a b) + real_first its t"
    using it by (simp add: real_first_def)
  then show ?case
    using it Cons.IH by (simp add: numeric_item_def spec_P_exact add.assoc)
qed

lemma spec_second_exact:
  "spec_second exact_arith (Num t) (Num s0) (map numeric_item its)
     = Num (s0 + real_second its t)"
proof (induction its arbitrary: s0)
  case Nil
  then show ?case by (simp add: real_second_def)
next
  case (Cons it its)
  obtain a b u where it: "it = (a, b, u)" by (cases it) auto
  have "real_second (it # its) t
      = - (a\<^sup>2) * (1 - real_P t a b) * real_P t a b + real_second its t"
    using it by (simp add: real_second_def)
  then show ?case
    using it Cons.IH by (simp add: numeric_item_def spec_P_exact add.assoc power2_eq_square)
qed

lemma real_clamp_Num: "spec_clamp (Num x) = Num (real_clamp x)"
  by (simp add: spec_clamp_def real_clamp_def)

lemma spec_newton_exact:
  "spec_newton exact_arith n (map numeric_item its) (Num t) = Num (real_newton n its t)"
proof (induction n arbitrary: t)
  case 0
  then show ?case by simp
next
  case (Suc n)
  note d = spec_first_exact [of t 0 its] spec_second_exact [of t 0 its]
  show ?case
  proof (cases "\<bar>real_second its t\<bar> < lit_1e_9")
    case True
    then show ?thesis using d by (simp add: Let_def)
  next
    case False
    then have nz: "real_second its t \<noteq> 0" using tolerances_positive(1) by auto
    show ?thesis
      using d False nz Suc.IH
      by (simp add: real_clamp_Num Let_def)
  qed
qed

subsection \<open>One item answered towards its positive pole\<close>

text \<open>With a single item \<open>a = 1\<close>, \<open>b = 0\<close>, \<open>u = 1\<close> the likelihood has no
  maximum: the iteration goes from 0 to 2, is clamped to 3, and stops there.\<close>

lemma extreme_derivatives:
  "real_first [(1, 0, 1)] th = exp (- th) / (1 + exp (- th))"
  "real_second [(1, 0, 1)] th = - (exp (- th) / (1 + exp (- th))\<^sup>2)"
proof -
  have p: "1 + exp (- th) \<noteq> 0" by simp
  show "real_first [(1, 0, 1)] th = exp (- th) / (1 + exp (- th))"
    using p by (simp add: real_first_def real_P_def field_simps)
  show "real_second [(1, 0, 1)] th = - (exp (- th) / (1 + exp (- th))\<^sup>2)"
    using p by (simp add: real_second_def real_P_def field_simps power2_eq_square)
qed

lemma quotient_of_derivatives:
  "x \<noteq> 0 \<Longrightarrow> y \<noteq> 0 \<Longrightarrow> (x / y) / (- (x / y\<^sup>2)) = - (y::real)"
  by (simp add: power2_eq_square)

lemma extreme_step:
  assumes "0 \<le> th" "th \<le> 3"
  shows "\<not> \<bar>real_second [(1, 0, 1)] th\<bar> < lit_1e_9"
    and "th - real_first [(1, 0, 1)] th / real_second [(1, 0, 1)] th = th + 1 + exp (- th)"
proof -
  let ?e = "exp (- th)"
  have e0: "0 < ?e" by simp
  have e1: "?e \<le> 1" using assms by simp
  have "exp (3::real) = exp 1 * exp 1 * exp 1"
    by (simp add: exp_add [symmetric])
  also have "\<dots> \<le> 3 * 3 * 3"
    by (intro mult_mono exp_le) simp_all
  finally have "exp (3::real) \<le> 27" by simp
  moreover have "exp th \<le> exp 3" using assms by simp
  ultimately have "exp th \<le> 27" by linarith
  then have e27: "1 / 27 \<le> ?e"
    by (simp add: exp_minus field_simps)
  have "(1 + ?e)\<^sup>2 \<le> 2\<^sup>2"
    using e0 e1 by (intro power_mono) simp_all
  then have "(1 + ?e)\<^sup>2 \<le> 4" by simp
  then have "?e / 4 \<le> ?e / (1 + ?e)\<^sup>2"
    using e0 by (intro divide_left_mono) (auto intro: mult_pos_pos add_pos_pos)
  then have lb: "1 / 108 \<le> ?e / (1 + ?e)\<^sup>2" using e27 by linarith
  have "0 \<le> ?e / (1 + ?e)\<^sup>2" by simp
  then have "\<bar>real_second [(1, 0, 1)] th\<bar> = ?e / (1 + ?e)\<^sup>2"
    unfolding extreme_derivatives by (simp only: abs_minus abs_of_nonneg)
  moreover have "lit_1e_9 < 1 / 108" by (simp add: lit_1e_9_def)
  ultimately show "\<not> \<bar>real_second [(1, 0, 1)] th\<bar> < lit_1e_9"
    using lb by linarith
  have "?e \<noteq> 0" "1 + ?e \<noteq> 0" by simp_all
  then have "real_first [(1, 0, 1)] th / real_second [(1, 0, 1)] th = - (1 + ?e)"
    unfolding extreme_derivatives by (rule quotient_of_derivatives)
  then show "th - real_first [(1, 0, 1)] th / real_second [(1, 0, 1)] th = th + 1 + exp (- th)"
    by simp
qed

lemma extreme_newton:
  assumes "0 \<le> th" "th \<le> 3"
  shows "real_newton (Suc n) [(1, 0, 1)] th =
     (if \<bar>real_clamp (th + 1 + exp (- th)) - th\<bar> < lit_1e_4
      then real_clamp (th + 1 + exp (- th))
      else real_newton n [(1, 0, 1)] (real_clamp (th + 1 + exp (- th))))"
  unfolding real_newton.simps Let_def extreme_step(2) [OF assms]
  using extreme_step(1) [OF assms] by simp

lemma extreme_estimate: "real_newton 20 [(1, 0, 1)] 0 = 3"
proof -
  let ?its = "[(1, 0, 1)] :: real_item list"
  have s0: "real_clamp (0 + 1 + exp (- 0)) = (2::real)" by (simp add: real_clamp_def)
  have "exp (- 2) > (0::real)" by simp
  then have s2: "real_clamp (2 + 1 + exp (- 2)) = (3::real)" by (simp add: real_clamp_def)
  have "exp (- 3) > (0::real)" by simp
  then have s3: "real_clamp (3 + 1 + exp (- 3)) = (3::real)" by (simp add: real_clamp_def)
  have a: "real_newton 20 ?its 0 = real_newton 19 ?its 2"
    using extreme_newton [of 0 19] by (simp only: s0) (simp add: lit_1e_4_def)
  have b: "real_newton 19 ?its 2 = real_newton 18 ?its 3"
    using extreme_newton [of 2 18] by (simp only: s2) (simp add: lit_1e_4_def)
  have c: "real_newton 18 ?its 3 = 3"
    using extreme_newton [of 3 17] by (simp only: s3) (simp add: lit_1e_4_def)
  show ?thesis using a b c by simp
qed

section \<open>Errors and results of an invocation\<close>

lemma mapE_Inl: "mapE f xs = Inl e \<Longrightarrow> \<exists>x \<in> set xs. f x = Inl e"
  by (induction xs arbitrary: e) (auto split: sum.splits)

lemma mapE_fails: "x \<in> set xs \<Longrightarrow> f x = Inl e \<Longrightarrow> \<exists>e'. mapE f xs = Inl e'"
  by (induction xs) (auto split: sum.splits)

lemma resolveItem_error:
  assumes "i < length ip" "answers (Suc i) \<noteq> None" "resolveItem ip answers qs i = Inl e"
  shows "e = TypeError ''options'' \<or> e = TypeError ''scoreKey''"
  using assms by (auto simp: resolveItem_def split: option.splits if_splits)

lemma resolveItem_error_found:
  assumes "i < length ip" "answers (Suc i) \<noteq> None" "find (\<lambda>q. number q = Suc i) qs \<noteq> None"
    and "resolveItem ip answers qs i = Inl e"
  shows "e = TypeError ''scoreKey''"
  using assms by (auto simp: resolveItem_def split: option.splits if_splits)

lemma resolveItem_undefined:
  assumes "find (\<lambda>q. number q = Suc i) qs = Some qd" "answers (Suc i) = Some c"
    and "lookupOption qd c = None"
  shows "resolveItem ip answers qs i = Inl (TypeError ''scoreKey'')"
  using assms by (simp add: resolveItem_def)

lemma resolveItem_spec:
  assumes "i < length ip" "spec_item ip answers qs i = Some tr"
  shows "\<exists>it. resolveItem ip answers qs i = Inr it \<and> item_triple it = tr"
  using assms
  by (auto simp: resolveItem_def spec_item_def item_triple_def split: option.splits)

lemma resolve_items:
  assumes "\<forall>i \<in> set xs. i < length ip"
    and "those (map (spec_item ip answers qs) xs) = Some its"
  shows "\<exists>items. mapE (resolveItem ip answers qs) xs = Inr items \<and> map item_triple items = its"
  using assms
proof (induction xs arbitrary: its)
  case Nil
  then show ?case by simp
next
  case (Cons i xs)
  from Cons.prems(2) obtain tr rest where tr: "spec_item ip answers qs i = Some tr"
    and rest: "those (map (spec_item ip answers qs) xs) = Some rest"
    and its: "its = tr # rest"
    by (auto split: option.splits)
  from Cons.prems(1) have i: "i < length ip" by simp
  from resolveItem_spec [OF i tr] obtain it
    where it: "resolveItem ip answers qs i = Inr it" "item_triple it = tr" by blast
  from Cons.IH [OF _ rest] Cons.prems(1) obtain items
    where items: "mapE (resolveItem ip answers qs) xs = Inr items" "map item_triple items = rest"
    by auto
  show ?case using it items its by simp
qed

lemma findBestTheta_items:
  assumes "answeredQuestionIndices ip d answers \<noteq> []"
    and "mapE (resolveItem ip answers qs) (answeredQuestionIndices ip d answers) = Inr items"
  shows "findBestThetaForDichotomy A ip d answers qs = Inr (newton A 20 items (Num 0))"
  using assms by (simp add: findBestThetaForDichotomy_def)

lemma findBestTheta_raises:
  assumes "mapE (resolveItem ip answers qs) (answeredQuestionIndices ip d answers) = Inl e"
  shows "findBestThetaForDichotomy A ip d answers qs = Inl e"
proof -
  have "answeredQuestionIndices ip d answers \<noteq> []" using assms by auto
  then show ?thesis using assms by (simp add: findBestThetaForDichotomy_def)
qed

lemma findBestTheta_with_entry:
  assumes "d \<in> set DICHOTOMY_CONFIG \<or> d \<in> set inherited_names"
    and "spec_answered ip d answers \<noteq> []"
    and "spec_items ip d answers qs = Some its"
  shows "findBestThetaForDichotomy A ip d answers qs = Inr (spec_newton A 20 its (Num 0))"
proof -
  note eq = answered_with_entry [OF assms(1), of ip answers]
  have "\<forall>i \<in> set (spec_answered ip d answers). i < length ip"
    by (simp add: set_spec_answered)
  from resolve_items [OF this] assms(3) obtain items
    where items: "mapE (resolveItem ip answers qs) (spec_answered ip d answers) = Inr items"
      "map item_triple items = its"
    unfolding spec_items_def by blast
  from findBestTheta_items [of ip d answers qs items A] assms(2) items(1) eq
  have "findBestThetaForDichotomy A ip d answers qs = Inr (newton A 20 items (Num 0))"
    by simp
  then show ?thesis using items(2) by (simp add: newton_spec del: newton.simps)
qed

lemma findBestTheta_spec:
  assumes "d \<in> set DICHOTOMY_CONFIG" "spec_answered ip d answers \<noteq> []"
    and "spec_items ip d answers qs = Some its"
  shows "findBestThetaForDichotomy A ip d answers qs = Inr (spec_newton A 20 its (Num 0))"
  using assms by (intro findBestTheta_with_entry) simp_all

lemma findBestTheta_error:
  assumes "findBestThetaForDichotomy A ip d answers qs = Inl e"
  shows "e = TypeError ''options'' \<or> e = TypeError ''scoreKey''"
proof -
  from assms have "mapE (resolveItem ip answers qs) (answeredQuestionIndices ip d answers) = Inl e"
    by (auto simp: findBestThetaForDichotomy_def Let_def split: if_splits sum.splits)
  then obtain i where i: "i \<in> set (answeredQuestionIndices ip d answers)"
    and e: "resolveItem ip answers qs i = Inl e"
    using mapE_Inl by fastforce
  from i set_answeredQuestionIndices [of ip d answers]
  have "i < length ip" "answers (Suc i) \<noteq> None" by auto
  then show ?thesis using e by (rule resolveItem_error)
qed

lemma findBestTheta_error_found:
  assumes "\<forall>j. answers (Suc j) \<noteq> None \<longrightarrow> find (\<lambda>q. number q = Suc j) qs \<noteq> None"
    and "findBestThetaForDichotomy A ip d answers qs = Inl e"
  shows "e = TypeError ''scoreKey''"
proof -
  from assms(2)
  have "mapE (resolveItem ip answers qs) (answeredQuestionIndices ip d answers) = Inl e"
    by (auto simp: findBestThetaForDichotomy_def Let_def split: if_splits sum.splits)
  then obtain i where i: "i \<in> set (answeredQuestionIndices ip d answers)"
    and e: "resolveItem ip answers qs i = Inl e"
    using mapE_Inl by fastforce
  from i set_answeredQuestionIndices [of ip d answers]
  have a: "i < length ip" "answers (Suc i) \<noteq> None" by auto
  with assms(1) have "find (\<lambda>q. number q = Suc i) qs \<noteq> None" by blast
  from resolveItem_error_found [OF a this e] show ?thesis .
qed

lemma findBestTheta_range:
  assumes "findBestThetaForDichotomy A ip d answers qs = Inr th"
  shows "th = NaN \<or> (\<exists>t. th = Num t \<and> - 3 \<le> t \<and> t \<le> 3)"
proof -
  have z: "Num 0 = NaN \<or> (\<exists>t. Num 0 = Num t \<and> - 3 \<le> t \<and> t \<le> (3::real))" by simp
  show ?thesis
    using assms spec_newton_range [OF z, of A 20]
    by (auto simp: findBestThetaForDichotomy_def Let_def newton_spec
        simp del: newton.simps spec_newton.simps split: if_splits sum.splits)
qed

lemma coreResult_Inr:
  assumes "coreResult A ip answers qs d = Inr r"
  shows "findBestThetaForDichotomy A ip d answers qs = Inr (res_theta r)
         \<and> res_pci r = computePci A (res_theta r) \<and> res_pcc r = getPccCategory (res_pci r)"
  using assms by (auto simp: coreResult_def Let_def split: sum.splits)

lemma coreResult_Inl:
  "coreResult A ip answers qs d = Inl e \<Longrightarrow> findBestThetaForDichotomy A ip d answers qs = Inl e"
  by (auto simp: coreResult_def Let_def split: sum.splits)

lemma coreResult_raises:
  "findBestThetaForDichotomy A ip d answers qs = Inl e \<Longrightarrow> coreResult A ip answers qs d = Inl e"
  by (simp add: coreResult_def)

lemma typeScore_NaN:
  assumes "res_theta ei = NaN \<or> res_theta sn = NaN \<or> res_theta tf = NaN"
  shows "typeScore ei sn tf st t stk = NaN"
  using assms by (cases stk) (auto simp: typeScore_def Let_def)

lemma typeScore_2_NaN:
  assumes "res_theta ei = NaN \<or> res_theta sn = NaN \<or> res_theta tf = NaN"
  shows "typeScore_2 ei sn tf st t stk = NaN"
  using assms by (cases stk) (auto simp: typeScore_2_def Let_def)

lemma getIrtClarityWeight_Num: "\<exists>w. getIrtClarityWeight (Num p) = Num w"
  by (simp add: getIrtClarityWeight_def)

lemma typeScore_2_Num:
  assumes "res_theta ei = Num t1" "res_theta sn = Num t2" "res_theta tf = Num t3"
    and "res_pci ei = Num p1" "res_pci sn = Num p2" "res_pci tf = Num p3"
    and "\<forall>f \<in> set function_labels. \<exists>x. st f = Some (Num x)"
    and "(t, stk) \<in> set TYPE_FUNCTION_STACKS"
  shows "\<exists>x. typeScore_2 ei sn tf st t stk = Num x"
proof -
  obtain d a te i where stk: "stk = (d, a, te, i)" by (cases stk) auto
  have "d \<in> set function_labels" "a \<in> set function_labels"
    "te \<in> set function_labels" "i \<in> set function_labels"
    using stack_labels [of t d a te i] assms(8) stk by simp_all
  with assms(7)
  obtain x1 x2 x3 x4 where "st d = Some (Num x1)" "st a = Some (Num x2)"
    "st te = Some (Num x3)" "st i = Some (Num x4)" by meson
  moreover obtain w1 w2 w3 where "getIrtClarityWeight (Num p1) = Num w1"
    "getIrtClarityWeight (Num p2) = Num w2" "getIrtClarityWeight (Num p3) = Num w3"
    using getIrtClarityWeight_Num by meson
  ultimately show ?thesis
    using assms(1-6) stk by (simp add: typeScore_2_def strength_def Let_def)
qed

lemma finalize_scoreAll_NaN:
  assumes "\<forall>(t, stk) \<in> set TYPE_FUNCTION_STACKS. f t stk = NaN"
  shows "finalize (scoreAll f) = Inl (TypeError ''0'')"
proof -
  have "fst (scoreAll f) = None"
    unfolding scoreAll_def using assms by (rule scoreStep_NaN)
  then show ?thesis by (cases "scoreAll f") (simp add: finalize_def)
qed

lemma finalize_scoreAll_Num:
  assumes "\<forall>(t, stk) \<in> set TYPE_FUNCTION_STACKS. \<exists>x. f t stk = Num x"
  shows "\<exists>r x. finalize (scoreAll f) = Inr r \<and> score r = Num x
           \<and> allTypeScores r (finalType r) = Some (Num x)
           \<and> (\<forall>t v. allTypeScores r t = Some v \<longrightarrow> (\<exists>y. v = Num y \<and> y \<le> x))
           \<and> dom (allTypeScores r) = fst ` set TYPE_FUNCTION_STACKS
           \<and> map_of TYPE_FUNCTION_STACKS (finalType r)
               = Some (dominant r, auxiliary r, tertiary r, inferior r)"
proof -
  let ?init = "(None, NegInfinity, Map.empty) :: scoring_state"
  have ne: "TYPE_FUNCTION_STACKS \<noteq> []" by (simp add: TYPE_FUNCTION_STACKS_def)
  have "scoring_invariant (scoreAll f) \<and> fst (scoreAll f) \<noteq> None"
    unfolding scoreAll_def
    using scoreLoop_invariant [of TYPE_FUNCTION_STACKS f ?init] assms types_distinct ne
    by (simp add: scoring_invariant_def)
  then obtain t x ts where s: "scoreAll f = (Some t, Num x, ts)"
    and best: "ts t = Some (Num x)"
    and le: "\<forall>t' v. ts t' = Some v \<longrightarrow> (\<exists>y. v = Num y \<and> y \<le> x)"
    by (cases "scoreAll f") (auto simp: scoring_invariant_def)
  have ts: "ts t' = (case map_of TYPE_FUNCTION_STACKS t' of None \<Rightarrow> None
                     | Some stk \<Rightarrow> Some (f t' stk))" for t'
    using scoreLoop_scores [of f ?init TYPE_FUNCTION_STACKS t'] s
    by (simp add: scoreAll_def map_of_rev_distinct [OF types_distinct] split: option.splits)
  from best ts [of t] obtain d a te i where stk: "map_of TYPE_FUNCTION_STACKS t = Some (d, a, te, i)"
    by (cases "map_of TYPE_FUNCTION_STACKS t") auto
  have dom: "dom ts = fst ` set TYPE_FUNCTION_STACKS"
    using ts by (auto simp: dom_def map_of_eq_None_iff split: option.splits)
  show ?thesis
    using s best le stk dom by (simp add: finalize_def)
qed

lemma coreResults_Inr:
  "coreResults A ip answers qs = Inr (ei, sn, tf) \<longleftrightarrow>
     coreResult A ip answers qs ''E-I'' = Inr ei \<and> coreResult A ip answers qs ''S-N'' = Inr sn
     \<and> coreResult A ip answers qs ''T-F'' = Inr tf"
  by (auto simp: coreResults_unfold split: sum.splits)

lemma coreResults_Inl:
  "coreResults A ip answers qs = Inl e \<Longrightarrow>
     \<exists>d \<in> set DICHOTOMY_CONFIG. findBestThetaForDichotomy A ip d answers qs = Inl e"
  by (auto simp: coreResults_unfold DICHOTOMY_CONFIG_def dest: coreResult_Inl split: sum.splits)

lemma coreResults_raise:
  assumes "d \<in> set DICHOTOMY_CONFIG" "findBestThetaForDichotomy A ip d answers qs = Inl e"
  shows "\<exists>e'. coreResults A ip answers qs = Inl e'"
proof -
  from mapE_fails [of d DICHOTOMY_CONFIG "coreResult A ip answers qs" e]
    assms(1) coreResult_raises [OF assms(2)]
  show ?thesis by (auto simp: coreResults_def)
qed

lemma coreResult_Num:
  "findBestThetaForDichotomy A ip d answers qs = Inr (Num t) \<Longrightarrow>
     \<exists>r. coreResult A ip answers qs d = Inr r \<and> res_theta r = Num t"
  by (auto simp: coreResult_def Let_def)

lemma coreResult_theta_cases:
  assumes "coreResult A ip answers qs d = Inr r"
  shows "res_theta r = NaN \<or> (\<exists>t. res_theta r = Num t \<and> - 3 \<le> t \<and> t \<le> 3)"
  using coreResult_Inr [OF assms] findBestTheta_range by blast

lemma coreResult_pci:
  assumes "monotone_scaling A" "coreResult A ip answers qs d = Inr r" "res_theta r = Num t"
  shows "\<exists>p. res_pci r = Num p"
proof -
  from coreResult_theta_cases [OF assms(2)] assms(3) have "- 3 \<le> t" "t \<le> 3" by auto
  from pci_range [OF assms(1) this] coreResult_Inr [OF assms(2)] assms(3)
  show ?thesis by auto
qed

lemma attitudeStrengths_Num:
  "\<forall>f \<in> set function_labels. \<exists>x. attitudeStrengths aa aqs f = Some (Num x)"
  using attitudeStrengths_label by blast

text \<open>What both versions of the engine return once the three estimates are known.\<close>

lemma scored_result:
  assumes "coreResults A ip answers qs = Inr (ei, sn, tf)"
    and "res_theta ei = Num t1" "res_theta sn = Num t2" "res_theta tf = Num t3"
  shows "\<exists>r x. calculateHybridResults A ip answers aa qs aqs = Inr r \<and> score r = Num x
           \<and> allTypeScores r (finalType r) = Some (Num x)
           \<and> (\<forall>t v. allTypeScores r t = Some v \<longrightarrow> (\<exists>y. v = Num y \<and> y \<le> x))
           \<and> dom (allTypeScores r) = fst ` set TYPE_FUNCTION_STACKS
           \<and> map_of TYPE_FUNCTION_STACKS (finalType r)
               = Some (dominant r, auxiliary r, tertiary r, inferior r)"
proof -
  let ?st = "attitudeStrengths aa aqs"
  have "\<forall>(t, stk) \<in> set TYPE_FUNCTION_STACKS. \<exists>x. typeScore ei sn tf ?st t stk = Num x"
    using typeScore_Num [OF assms(2-4) attitudeStrengths_Num] by blast
  from finalize_scoreAll_Num [OF this] assms(1)
  show ?thesis by (simp add: calculateHybridResults_def)
qed

lemma scored_result_2:
  assumes "coreResults A ip answers qs = Inr (ei, sn, tf)"
    and "res_theta ei = Num t1" "res_theta sn = Num t2" "res_theta tf = Num t3"
    and "res_pci ei = Num p1" "res_pci sn = Num p2" "res_pci tf = Num p3"
  shows "\<exists>r. calculateHybridResults_2 A ip answers aa qs aqs = Inr r"
proof -
  let ?st = "attitudeStrengths aa aqs"
  have "\<forall>(t, stk) \<in> set TYPE_FUNCTION_STACKS. \<exists>x. typeScore_2 ei sn tf ?st t stk = Num x"
    using typeScore_2_Num [OF assms(2-7) attitudeStrengths_Num] by blast
  from finalize_scoreAll_Num [OF this] assms(1)
  show ?thesis by (auto simp: calculateHybridResults_2_def)
qed

lemma NaN_estimate_result:
  assumes "coreResults A ip answers qs = Inr (ei, sn, tf)"
    and "res_theta ei = NaN \<or> res_theta sn = NaN \<or> res_theta tf = NaN"
  shows "calculateHybridResults A ip answers aa qs aqs = Inl (TypeError ''0'')"
    and "calculateHybridResults_2 A ip answers aa qs aqs = Inl (TypeError ''0'')"
  using assms(1) finalize_scoreAll_NaN [of "typeScore ei sn tf (attitudeStrengths aa aqs)"]
    finalize_scoreAll_NaN [of "typeScore_2 ei sn tf (attitudeStrengths aa aqs)"]
    typeScore_NaN [OF assms(2)] typeScore_2_NaN [OF assms(2)]
  by (simp_all add: calculateHybridResults_def calculateHybridResults_2_def)

lemma numeric_estimates_core:
  assumes "\<forall>d \<in> set DICHOTOMY_CONFIG. \<exists>t. findBestThetaForDichotomy A ip d answers qs = Inr (Num t)"
  shows "\<exists>ei sn tf t1 t2 t3. coreResults A ip answers qs = Inr (ei, sn, tf)
           \<and> coreResult A ip answers qs ''E-I'' = Inr ei
           \<and> coreResult A ip answers qs ''S-N'' = Inr sn
           \<and> coreResult A ip answers qs ''T-F'' = Inr tf
           \<and> res_theta ei = Num t1 \<and> res_theta sn = Num t2 \<and> res_theta tf = Num t3"
proof -
  from assms obtain t1 t2 t3 where
    "findBestThetaForDichotomy A ip ''E-I'' answers qs = Inr (Num t1)"
    "findBestThetaForDichotomy A ip ''S-N'' answers qs = Inr (Num t2)"
    "findBestThetaForDichotomy A ip ''T-F'' answers qs = Inr (Num t3)"
    by (auto simp: DICHOTOMY_CONFIG_def)
  then obtain ei sn tf where
    c: "coreResult A ip answers qs ''E-I'' = Inr ei" "coreResult A ip answers qs ''S-N'' = Inr sn"
       "coreResult A ip answers qs ''T-F'' = Inr tf"
    and n: "res_theta ei = Num t1" "res_theta sn = Num t2" "res_theta tf = Num t3"
    using coreResult_Num by meson
  from c have "coreResults A ip answers qs = Inr (ei, sn, tf)" by (simp add: coreResults_Inr)
  with c n show ?thesis by blast
qed

lemma numeric_estimates_succeed:
  assumes "\<forall>d \<in> set DICHOTOMY_CONFIG. \<exists>t. findBestThetaForDichotomy A ip d answers qs = Inr (Num t)"
  shows "\<exists>r. calculateHybridResults A ip answers aa qs aqs = Inr r"
proof -
  from numeric_estimates_core [OF assms] obtain ei sn tf t1 t2 t3
    where core: "coreResults A ip answers qs = Inr (ei, sn, tf)"
      and n: "res_theta ei = Num t1" "res_theta sn = Num t2" "res_theta tf = Num t3"
    by blast
  from scored_result [OF core n] show ?thesis by blast
qed

lemma numeric_estimates_succeed_2:
  assumes "monotone_scaling A"
    and "\<forall>d \<in> set DICHOTOMY_CONFIG. \<exists>t. findBestThetaForDichotomy A ip d answers qs = Inr (Num t)"
  shows "\<exists>r. calculateHybridResults_2 A ip answers aa qs aqs = Inr r"
proof -
  from numeric_estimates_core [OF assms(2)] obtain ei sn tf t1 t2 t3
    where core: "coreResults A ip answers qs = Inr (ei, sn, tf)"
      and c: "coreResult A ip answers qs ''E-I'' = Inr ei"
        "coreResult A ip answers qs ''S-N'' = Inr sn"
        "coreResult A ip answers qs ''T-F'' = Inr tf"
      and n: "res_theta ei = Num t1" "res_theta sn = Num t2" "res_theta tf = Num t3"
    by blast
  from coreResult_pci [OF assms(1) c(1) n(1)] coreResult_pci [OF assms(1) c(2) n(2)]
    coreResult_pci [OF assms(1) c(3) n(3)]
  obtain p1 p2 p3 where "res_pci ei = Num p1" "res_pci sn = Num p2" "res_pci tf = Num p3"
    by blast
  from scored_result_2 [OF core n this] show ?thesis .
qed

text \<open>An invocation in which an estimator raises ends with the error of the first
  estimator that raises, and every such error is one of two.\<close>

lemma invocation_raises:
  assumes "d \<in> set DICHOTOMY_CONFIG" "findBestThetaForDichotomy A ip d answers qs = Inl e"
  shows "\<exists>e'. (e' = TypeError ''options'' \<or> e' = TypeError ''scoreKey'')
           \<and> calculateHybridResults A ip answers aa qs aqs = Inl e'
           \<and> calculateHybridResults_2 A ip answers aa qs aqs = Inl e'"
proof -
  from coreResults_raise [OF assms] obtain e' where e': "coreResults A ip answers qs = Inl e'"
    by blast
  from coreResults_Inl [OF e'] findBestTheta_error
  have "e' = TypeError ''options'' \<or> e' = TypeError ''scoreKey''" by blast
  with e' show ?thesis
    by (auto simp: calculateHybridResults_def calculateHybridResults_2_def)
qed

lemma invocation_raises_found:
  assumes "\<forall>j. answers (Suc j) \<noteq> None \<longrightarrow> find (\<lambda>q. number q = Suc j) qs \<noteq> None"
    and "d \<in> set DICHOTOMY_CONFIG" "findBestThetaForDichotomy A ip d answers qs = Inl e"
  shows "calculateHybridResults A ip answers aa qs aqs = Inl (TypeError ''scoreKey'')
         \<and> calculateHybridResults_2 A ip answers aa qs aqs = Inl (TypeError ''scoreKey'')"
proof -
  from coreResults_raise [OF assms(2,3)] obtain e'
    where e': "coreResults A ip answers qs = Inl e'" by blast
  from coreResults_Inl [OF e'] findBestTheta_error_found [OF assms(1)]
  have "e' = TypeError ''scoreKey''" by blast
  with e' show ?thesis
    by (auto simp: calculateHybridResults_def calculateHybridResults_2_def)
qed

lemma invocation_NaN:
  assumes "\<forall>d \<in> set DICHOTOMY_CONFIG. \<exists>th. findBestThetaForDichotomy A ip d answers qs = Inr th"
    and "\<exists>d \<in> set DICHOTOMY_CONFIG. findBestThetaForDichotomy A ip d answers qs = Inr NaN"
  shows "calculateHybridResults A ip answers aa qs aqs = Inl (TypeError ''0'')
         \<and> calculateHybridResults_2 A ip answers aa qs aqs = Inl (TypeError ''0'')"
proof -
  from assms(1) obtain th1 th2 th3 where
    th: "findBestThetaForDichotomy A ip ''E-I'' answers qs = Inr th1"
    "findBestThetaForDichotomy A ip ''S-N'' answers qs = Inr th2"
    "findBestThetaForDichotomy A ip ''T-F'' answers qs = Inr th3"
    by (auto simp: DICHOTOMY_CONFIG_def)
  then obtain ei sn tf where
    c: "coreResult A ip answers qs ''E-I'' = Inr ei" "res_theta ei = th1"
       "coreResult A ip answers qs ''S-N'' = Inr sn" "res_theta sn = th2"
       "coreResult A ip answers qs ''T-F'' = Inr tf" "res_theta tf = th3"
    by (auto simp: coreResult_def Let_def)
  then have core: "coreResults A ip answers qs = Inr (ei, sn, tf)"
    by (simp add: coreResults_Inr)
  have "res_theta ei = NaN \<or> res_theta sn = NaN \<or> res_theta tf = NaN"
    using assms(2) th c by (auto simp: DICHOTOMY_CONFIG_def)
  from NaN_estimate_result [OF core this] show ?thesis by simp
qed

section \<open>The example inputs evaluated\<close>

lemma ex_spec_answered [simp]:
  "spec_answered ex_params ''E-I'' answers = (if answers (Suc 0) = None then [] else [0])"
  "spec_answered ex_flat_params ''E-I'' answers = (if answers (Suc 0) = None then [] else [0])"
  "spec_answered ex_huge_params ''E-I'' answers = (if answers (Suc 0) = None then [] else [0])"
  "spec_answered ex_params ''S-N'' answers = []"
  "spec_answered ex_params ''T-F'' answers = []"
  "spec_answered ex_flat_params ''S-N'' answers = []"
  "spec_answered ex_flat_params ''T-F'' answers = []"
  by (simp_all add: spec_answered_def ex_params_def ex_flat_params_def ex_huge_params_def)

lemma ex_answers [simp]:
  "ex_mbti_answers (Suc 0) = Some ''A''" "ex_inherited_answers (Suc 0) = Some ''constructor''"
  by (simp_all add: ex_mbti_answers_def ex_inherited_answers_def)

lemma ex_configured [simp]:
  "''E-I'' \<in> set DICHOTOMY_CONFIG" "''S-N'' \<in> set DICHOTOMY_CONFIG"
  "''T-F'' \<in> set DICHOTOMY_CONFIG"
  by (simp_all add: DICHOTOMY_CONFIG_def)

lemma ex_answered [simp]:
  "answeredQuestionIndices ex_params ''E-I'' ex_mbti_answers = [0]"
  "answeredQuestionIndices ex_flat_params ''E-I'' ex_mbti_answers = [0]"
  "answeredQuestionIndices ex_params ''S-N'' ex_mbti_answers = []"
  "answeredQuestionIndices ex_params ''T-F'' ex_mbti_answers = []"
  "answeredQuestionIndices ex_flat_params ''S-N'' ex_mbti_answers = []"
  "answeredQuestionIndices ex_flat_params ''T-F'' ex_mbti_answers = []"
  by (simp_all add: answered_is_spec_answered)

lemma ex_spec_items:
  "spec_items ex_params ''E-I'' ex_mbti_answers ex_mbti_questions = Some [(1, 0, Some 1)]"
  "spec_items ex_params ''E-I'' ex_mbti_answers ex_questions_no_scoreKey = Some [(1, 0, None)]"
  "spec_items ex_flat_params ''E-I'' ex_mbti_answers ex_questions_no_scoreKey
     = Some [(5902958103587057 / 2 ^ 69, 0, None)]"
  "spec_items ex_params ''E-I'' ex_mbti_answers ex_questions_no_option = None"
  "spec_items ex_params ''E-I'' ex_inherited_answers ex_mbti_questions = Some [(1, 0, None)]"
  by (simp_all add: spec_items_def)
    (simp_all add: spec_item_def lookupOption_def inherited_names_def
      ex_params_def ex_flat_params_def ex_mbti_questions_def ex_questions_no_scoreKey_def
      ex_questions_no_option_def)

lemma ex_huge_items:
  "spec_items ex_huge_params ''E-I'' ex_mbti_answers ex_mbti_questions
     = Some [(2 ^ 665, 1, Some 1)]"
  by (simp add: spec_items_def)
    (simp add: spec_item_def lookupOption_def ex_huge_params_def ex_mbti_questions_def)

lemma ex_item_raises:
  "mapE (resolveItem ex_params ex_mbti_answers ex_questions_no_option) [0]
     = Inl (TypeError ''scoreKey'')"
  by (simp add: resolveItem_def lookupOption_def inherited_names_def ex_questions_no_option_def)

lemma half_P: "spec_P double_arith (Num 0) a 0 = Num (1 / 2)"
  by (simp add: spec_P_def)

lemma ex_second_derivative:
  "spec_second double_arith (Num 0) (Num 0) [(1, 0, None)] = Num (- (1 / 4))"
  "spec_second double_arith (Num 0) (Num 0) [(5902958103587057 / 2 ^ 69, 0, None)]
     = Num (- (1934281311383407 / 2 ^ 86))"
proof -
  show "spec_second double_arith (Num 0) (Num 0) [(1, 0, None)] = Num (- (1 / 4))"
    by (simp add: half_P)
  let ?a = "5902958103587057 / 2 ^ 69 :: real"
  have sq: "fl_mul double_arith (Num (- ?a)) (Num ?a) = Num (- (1934281311383407 / 2 ^ 84))"
    using ex_flat_square [of ?a] by simp
  have h1: "fl_mul double_arith (Num (- (1934281311383407 / 2 ^ 84))) (Num (1 / 2))
      = Num (- (1934281311383407 / 2 ^ 85))"
    using ex_flat_halves(1) by simp
  have h2: "fl_mul double_arith (Num (- (1934281311383407 / 2 ^ 85))) (Num (1 / 2))
      = Num (- (1934281311383407 / 2 ^ 86))"
    using ex_flat_halves(2) by simp
  have h3: "fl_add double_arith (Num 0) (Num (- (1934281311383407 / 2 ^ 86)))
      = Num (- (1934281311383407 / 2 ^ 86))"
    using ex_flat_halves(3) by simp
  have h0: "fl_sub double_arith (Num 1) (Num (1 / 2)) = Num (1 / 2)" by simp
  show "spec_second double_arith (Num 0) (Num 0) [(?a, 0, None)]
      = Num (- (1934281311383407 / 2 ^ 86))"
    unfolding spec_second.simps half_P h0 sq h1 h2 h3 ..
qed

lemma ex_estimates:
  "findBestThetaForDichotomy double_arith ex_params ''E-I'' ex_mbti_answers
     ex_questions_no_scoreKey = Inr NaN"
  "findBestThetaForDichotomy double_arith ex_flat_params ''E-I'' ex_mbti_answers
     ex_questions_no_scoreKey = Inr (Num 0)"
  "findBestThetaForDichotomy A ex_params ''E-I'' ex_mbti_answers
     ex_questions_no_option = Inl (TypeError ''scoreKey'')"
  "findBestThetaForDichotomy double_arith ex_params ''E-I'' ex_inherited_answers
     ex_mbti_questions = Inr NaN"
proof -
  let ?unit = "[(1, 0, None)] :: spec_item list"
  let ?flat = "[(5902958103587057 / 2 ^ 69, 0, None)] :: spec_item list"
  have small: "jlt (jabs (Num (- (1934281311383407 / 2 ^ 86)))) (Num lit_1e_9)"
    "\<not> jlt (jabs (Num (- (1 / 4)))) (Num lit_1e_9)"
    by (simp_all add: lit_1e_9_def)
  have u: "\<exists>(a, b, u) \<in> set ?unit. u = None" "\<exists>(a, b, u) \<in> set ?flat. u = None"
    by simp_all
  have unit: "spec_newton double_arith 20 ?unit (Num 0) = NaN"
    unfolding spec_newton_undefined_20 [OF u(1)] ex_second_derivative(1)
    using small(2) by (simp only: if_False)
  have flat: "spec_newton double_arith 20 ?flat (Num 0) = Num 0"
    unfolding spec_newton_undefined_20 [OF u(2)] ex_second_derivative(2)
    using small(1) by (simp only: if_True)
  have "findBestThetaForDichotomy double_arith ex_params ''E-I'' ex_mbti_answers
      ex_questions_no_scoreKey = Inr (spec_newton double_arith 20 ?unit (Num 0))"
    by (rule findBestTheta_spec) (simp_all add: ex_spec_items)
  then show "findBestThetaForDichotomy double_arith ex_params ''E-I'' ex_mbti_answers
      ex_questions_no_scoreKey = Inr NaN"
    by (simp only: unit)
  have "findBestThetaForDichotomy double_arith ex_flat_params ''E-I'' ex_mbti_answers
      ex_questions_no_scoreKey = Inr (spec_newton double_arith 20 ?flat (Num 0))"
    by (rule findBestTheta_spec) (simp_all add: ex_spec_items)
  then show "findBestThetaForDichotomy double_arith ex_flat_params ''E-I'' ex_mbti_answers
      ex_questions_no_scoreKey = Inr (Num 0)"
    by (simp only: flat)
  show "findBestThetaForDichotomy A ex_params ''E-I'' ex_mbti_answers
      ex_questions_no_option = Inl (TypeError ''scoreKey'')"
    using findBestTheta_raises [of ex_params ex_mbti_answers ex_questions_no_option "''E-I''"]
    by (simp add: ex_item_raises del: mapE.simps)
  have "findBestThetaForDichotomy double_arith ex_params ''E-I'' ex_inherited_answers
      ex_mbti_questions = Inr (spec_newton double_arith 20 ?unit (Num 0))"
    by (rule findBestTheta_spec) (simp_all add: ex_spec_items)
  then show "findBestThetaForDichotomy double_arith ex_params ''E-I'' ex_inherited_answers
      ex_mbti_questions = Inr NaN"
    by (simp only: unit)
qed

lemma ex_extreme_estimate:
  "findBestThetaForDichotomy exact_arith ex_params ''E-I'' ex_mbti_answers ex_mbti_questions
     = Inr (Num 3)"
  using findBestTheta_spec [of "''E-I''" ex_params ex_mbti_answers ex_mbti_questions
      "[(1, 0, Some 1)]" exact_arith]
    spec_newton_exact [of 20 "[(1, 0, 1)]" 0]
  by (simp add: ex_spec_items extreme_estimate numeric_item_def del: spec_newton.simps)

subsection \<open>An item whose discrimination overflows\<close>

text \<open>With \<open>a = 2^665\<close>, \<open>b = 1\<close> and \<open>u = 1\<close> the exponential overflows at
  theta 0, so that \<open>P\<close> is 0, and the product \<open>-a * a\<close> overflows too: the second
  derivative is \<open>-Infinity * 1 * 0\<close>.\<close>

lemma exp_huge:
  assumes "1024 \<le> a"
  shows "2 ^ 1024 \<le> exp (a::real)"
proof -
  have "(2::real) \<le> exp 1" using exp_ge_add_one_self [of "1::real"] by simp
  then have "(2::real) ^ 1024 \<le> exp 1 ^ 1024" by (intro power_mono) simp_all
  also have "\<dots> = exp (of_nat 1024 * 1)" by (rule exp_of_nat_mult [symmetric])
  also have "\<dots> \<le> exp a" using assms by simp
  finally show ?thesis .
qed

lemma overflow_P:
  assumes "a = 2 ^ 665"
  shows "spec_P double_arith (Num 0) a 1 = Num 0"
proof -
  have "fl_sub double_arith (Num 0) (Num 1) = Num (- 1)"
    by (simp add: double_round_minus_one)
  moreover have "fl_mul double_arith (Num (- a)) (Num (- 1)) = Num a"
    using double_round_power [OF assms] by simp
  moreover have "fl_exp double_arith (Num a) = PosInfinity"
  proof -
    have "1024 \<le> a" unfolding assms by simp
    from double_round_huge [OF exp_huge [OF this]] show ?thesis by simp
  qed
  ultimately show ?thesis
    by (simp add: spec_P_def del: fl_sub.simps(1) fl_mul.simps(1) fl_exp.simps(1))
qed

lemma overflow_second:
  assumes "a = 2 ^ 665"
  shows "spec_second double_arith (Num 0) (Num 0) [(a, 1, Some 1)] = NaN"
proof -
  have "fl_sub double_arith (Num 1) (Num 0) = Num 1"
    by (simp add: double_round_one)
  moreover have "fl_mul double_arith (Num (- a)) (Num a) = NegInfinity"
  proof -
    have "- a * a = - (2 ^ 1330)" unfolding assms by simp
    from double_round_minus_square [OF this] show ?thesis by simp
  qed
  ultimately show ?thesis
    by (simp add: overflow_P [OF assms] del: fl_sub.simps(1) fl_mul.simps(1))
qed

lemma ex_overflow_second:
  "spec_second double_arith (Num 0) (Num 0) [(2 ^ 665, 1, Some 1)] = NaN"
  by (rule overflow_second) simp

lemma spec_newton_second_NaN:
  "spec_second A th (Num 0) its = NaN \<Longrightarrow> spec_newton A (Suc n) its th = NaN"
  by (simp add: Let_def)

lemma ex_overflow_estimate:
  "findBestThetaForDichotomy double_arith ex_huge_params ''E-I'' ex_mbti_answers
     ex_mbti_questions = Inr NaN"
  using findBestTheta_spec [of "''E-I''" ex_huge_params ex_mbti_answers ex_mbti_questions
      "[(2 ^ 665, 1, Some 1)]" double_arith]
    spec_newton_second_NaN [OF ex_overflow_second, of 19]
  by (simp add: ex_huge_items del: spec_newton.simps)

subsection \<open>Whole invocations\<close>

lemma ex_core_extreme:
  "coreResults exact_arith ex_params ex_mbti_answers ex_mbti_questions
     = Inr (\<lparr>res_pcc = Very_Clear, res_theta = Num 3, res_pci = Num 30\<rparr>, neutral, neutral)"
  by (simp add: coreResults_Inr coreResult_unanswered neutral_def)
    (simp add: coreResult_def ex_extreme_estimate computePci_exact getPccCategory_Num Let_def)

lemma ex_extreme_result:
  "\<exists>ts. calculateHybridResults exact_arith ex_params ex_mbti_answers Map.empty
           ex_mbti_questions []
      = Inr \<lparr>finalType = ''ENTP'', dominant = ''Ne'', auxiliary = ''Ti'', tertiary = ''Fe'',
             inferior = ''Si'', score = Num 24, allTypeScores = ts\<rparr>
      \<and> ts ''INTP'' = Some (Num (- 24))"
  by (simp add: calculateHybridResults_def ex_core_extreme attitudeStrengths_no_answers
      scoreAll_def TYPE_FUNCTION_STACKS_def scoreStep_def typeScore_def neutral_def
      initialStrengths_def strength_def IRT_CLARITY_WEIGHT_def ATTITUDE_SCORE_WEIGHT_def
      ATTITUDE_STACK_POSITION_WEIGHT_def startsWith_E_def includes_char_def jgt_def Let_def
      finalize_def)

lemma coreResults_no_answers:
  "coreResults A ip Map.empty qs = Inr (neutral, neutral, neutral)"
proof -
  have "answeredQuestionIndices ip d Map.empty = []" for d
    by (rule no_answer_no_index) simp
  then show ?thesis
    by (simp add: coreResults_Inr coreResult_unanswered neutral_def)
qed

lemma ex_strengths:
  "attitudeStrengths ex_attitude_answers ex_attitude_questions
     = initialStrengths(''Ti'' \<mapsto> Num 3)"
  by (simp add: attitudeStrengths_def ex_attitude_answers_def ex_attitude_questions_def
      likertStep_def likertWeights_def addStrength_def strength_def initialStrengths_def)

lemma ex_likert_result:
  "\<exists>ts. calculateHybridResults A [] Map.empty ex_attitude_answers [] ex_attitude_questions
      = Inr \<lparr>finalType = ''INTP'', dominant = ''Ti'', auxiliary = ''Ne'', tertiary = ''Si'',
             inferior = ''Fe'', score = Num 12, allTypeScores = ts\<rparr>"
  by (simp add: calculateHybridResults_def coreResults_no_answers ex_strengths
      scoreAll_def TYPE_FUNCTION_STACKS_def scoreStep_def typeScore_def neutral_def
      initialStrengths_def strength_def IRT_CLARITY_WEIGHT_def ATTITUDE_SCORE_WEIGHT_def
      ATTITUDE_STACK_POSITION_WEIGHT_def startsWith_E_def includes_char_def jgt_def Let_def
      finalize_def)

section \<open>The winning score\<close>

text \<open>
  Claim C1. Whenever \<open>calculateHybridResults\<close> returns a result, its \<open>score\<close> is
  the maximum of the scores recorded in \<open>allTypeScores\<close>, which holds one finite score
  for each of the 16 types, and the score recorded for the returned \<open>finalType\<close> is
  that maximum. This holds whatever the arithmetic of the estimator is.
\<close>

theorem winning_score_is_maximum:
  assumes "calculateHybridResults A ip mbtiAnswers attitudeAnswers allMbtiQuestions
             allAttitudeQuestions = Inr r"
  shows "\<exists>x. score r = Num x
           \<and> allTypeScores r (finalType r) = Some (Num x)
           \<and> (\<forall>t v. allTypeScores r t = Some v \<longrightarrow> (\<exists>y. v = Num y \<and> y \<le> x))
           \<and> x = Max {y. \<exists>t. allTypeScores r t = Some (Num y)}
           \<and> dom (allTypeScores r) = fst ` set TYPE_FUNCTION_STACKS
           \<and> card (dom (allTypeScores r)) = 16"
proof -
  from assms obtain ei sn tf
    where core: "coreResults A ip mbtiAnswers allMbtiQuestions = Inr (ei, sn, tf)"
    by (auto simp: calculateHybridResults_def split: sum.splits)
  then have c: "coreResult A ip mbtiAnswers allMbtiQuestions ''E-I'' = Inr ei"
    "coreResult A ip mbtiAnswers allMbtiQuestions ''S-N'' = Inr sn"
    "coreResult A ip mbtiAnswers allMbtiQuestions ''T-F'' = Inr tf"
    by (simp_all add: coreResults_Inr)
  have "\<not> (res_theta ei = NaN \<or> res_theta sn = NaN \<or> res_theta tf = NaN)"
    using NaN_estimate_result(1) [OF core] assms by fastforce
  with coreResult_theta_cases [OF c(1)] coreResult_theta_cases [OF c(2)]
    coreResult_theta_cases [OF c(3)]
  obtain t1 t2 t3 where n: "res_theta ei = Num t1" "res_theta sn = Num t2"
    "res_theta tf = Num t3"
    by auto
  from scored_result [OF core n, of attitudeAnswers allAttitudeQuestions] assms
  obtain x where x: "score r = Num x" "allTypeScores r (finalType r) = Some (Num x)"
    "\<forall>t v. allTypeScores r t = Some v \<longrightarrow> (\<exists>y. v = Num y \<and> y \<le> x)"
    "dom (allTypeScores r) = fst ` set TYPE_FUNCTION_STACKS"
    by auto
  let ?S = "{y. \<exists>t. allTypeScores r t = Some (Num y)}"
  have fin: "finite (dom (allTypeScores r))" using x(4) by simp
  have "?S \<subseteq> (\<lambda>t. case allTypeScores r t of Some (Num y) \<Rightarrow> y | _ \<Rightarrow> 0) ` dom (allTypeScores r)"
    by (force simp: image_iff dom_def)
  then have "finite ?S" using fin by (meson finite_imageI finite_subset)
  moreover have "x \<in> ?S" using x(2) by blast
  moreover have "\<forall>y \<in> ?S. y \<le> x" using x(3) by auto
  ultimately have mx: "x = Max ?S" by (metis (no_types, lifting) Max_eqI)
  have "card (fst ` set TYPE_FUNCTION_STACKS) = 16"
    using distinct_card [OF types_distinct] by (simp add: TYPE_FUNCTION_STACKS_def)
  with x mx show ?thesis by auto
qed

theorem winning_score_is_maximum_witness:
  "\<exists>r. calculateHybridResults double_arith [] Map.empty ex_attitude_answers []
          ex_attitude_questions = Inr r
     \<and> finalType r = ''INTP'' \<and> score r = Num 12
     \<and> allTypeScores r ''INTP'' = Some (Num 12)
     \<and> 12 = Max {y. \<exists>t. allTypeScores r t = Some (Num y)}
     \<and> card (dom (allTypeScores r)) = 16"
proof -
  from ex_likert_result [of double_arith] obtain r
    where r: "calculateHybridResults double_arith [] Map.empty ex_attitude_answers []
                ex_attitude_questions = Inr r"
      and v: "finalType r = ''INTP''" "score r = Num 12"
    by force
  from winning_score_is_maximum [OF r] v r show ?thesis by auto
qed

section \<open>The estimator and the procedure of the specification\<close>

text \<open>
  Claim C2. For a configured dichotomy with at least one answered question,
  \<open>findBestThetaForDichotomy\<close> returns the value of the procedure of the
  specification, run in the arithmetic of the engine over the answered items of the
  dichotomy, that is over the parameters \<open>a\<close> and \<open>b\<close> of each question of the
  dichotomy that has a recorded answer and the response code \<open>u\<close> of its chosen
  option: start at 0; at most 20 times, accumulate the two derivatives over these items,
  stop if the magnitude of the second one is below \<open>1e-9\<close>, otherwise clamp the Newton
  step to \<open>[-3, 3]\<close>, adopt it, and stop if it moved theta by less than \<open>1e-4\<close>. The
  items exist when every answered question of the dichotomy and its chosen option are
  found in the metadata; otherwise the estimator raises and computes no theta.
\<close>

theorem newton_raphson_procedure:
  assumes "d \<in> set DICHOTOMY_CONFIG"
    and "spec_answered ip d answers \<noteq> []"
    and "spec_items ip d answers qs = Some its"
  shows "findBestThetaForDichotomy A ip d answers qs = Inr (spec_newton A 20 its (Num 0))"
  using assms by (rule findBestTheta_spec)

theorem newton_raphson_procedure_witness:
  "''E-I'' \<in> set DICHOTOMY_CONFIG
   \<and> spec_answered ex_params ''E-I'' ex_mbti_answers = [0]
   \<and> spec_items ex_params ''E-I'' ex_mbti_answers ex_mbti_questions = Some [(1, 0, Some 1)]
   \<and> findBestThetaForDichotomy exact_arith ex_params ''E-I'' ex_mbti_answers ex_mbti_questions
      = Inr (spec_newton exact_arith 20 [(1, 0, Some 1)] (Num 0))
   \<and> spec_newton exact_arith 20 [(1, 0, Some 1)] (Num 0) = Num 3
   \<and> findBestThetaForDichotomy double_arith ex_params ''E-I'' ex_mbti_answers ex_mbti_questions
      = Inr (spec_newton double_arith 20 [(1, 0, Some 1)] (Num 0))"
proof -
  have h: "''E-I'' \<in> set DICHOTOMY_CONFIG"
    "spec_answered ex_params ''E-I'' ex_mbti_answers \<noteq> []"
    "spec_items ex_params ''E-I'' ex_mbti_answers ex_mbti_questions = Some [(1, 0, Some 1)]"
    by (simp_all add: ex_spec_items)
  have a: "spec_answered ex_params ''E-I'' ex_mbti_answers = [0]" by simp
  have v: "spec_newton exact_arith 20 [(1, 0, Some 1)] (Num 0) = Num 3"
    using spec_newton_exact [of 20 "[(1, 0, 1)]" 0] extreme_estimate
    by (simp add: numeric_item_def del: spec_newton.simps)
  from newton_raphson_procedure [OF h, of exact_arith]
    newton_raphson_procedure [OF h, of double_arith] h a v
  show ?thesis by blast
qed

section \<open>The range of the estimate\<close>

lemma findBestTheta_outcomes:
  "(\<exists>e. findBestThetaForDichotomy A ip d answers qs = Inl e
         \<and> (e = TypeError ''options'' \<or> e = TypeError ''scoreKey''))
   \<or> findBestThetaForDichotomy A ip d answers qs = Inr NaN
   \<or> (\<exists>t. findBestThetaForDichotomy A ip d answers qs = Inr (Num t) \<and> - 3 \<le> t \<and> t \<le> 3)"
proof (cases "findBestThetaForDichotomy A ip d answers qs")
  case (Inl e)
  with findBestTheta_error [of A ip d answers qs e] show ?thesis by simp
next
  case (Inr th)
  with findBestTheta_range [of A ip d answers qs th] show ?thesis by auto
qed

lemma findBestTheta_finite:
  assumes "defined_on_finite A" "spec_items ip d answers qs = Some its"
    and "\<forall>t. - 3 \<le> t \<and> t \<le> 3 \<longrightarrow>
           (\<exists>f s. spec_first A (Num t) (Num 0) its = Num f
                  \<and> spec_second A (Num t) (Num 0) its = Num s)"
  shows "\<exists>t. findBestThetaForDichotomy A ip d answers qs = Inr (Num t) \<and> - 3 \<le> t \<and> t \<le> 3"
proof (cases "(d \<in> set DICHOTOMY_CONFIG \<or> d \<in> set inherited_names)
              \<and> spec_answered ip d answers \<noteq> []")
  case True
  then have "findBestThetaForDichotomy A ip d answers qs = Inr (spec_newton A 20 its (Num 0))"
    using assms(2) by (intro findBestTheta_with_entry) simp_all
  moreover have "\<exists>t'. spec_newton A 20 its (Num 0) = Num t' \<and> - 3 \<le> t' \<and> t' \<le> 3"
    using assms(1,3) by (rule finite_derivatives_range) simp_all
  ultimately show ?thesis by auto
next
  case False
  then have "answeredQuestionIndices ip d answers = []"
    using not_configured [of d ip answers] answered_with_entry [of d ip answers] by metis
  then show ?thesis by (simp add: findBestTheta_unanswered)
qed

text \<open>
  Claim C4, as stated, fails: \<open>findBestThetaForDichotomy\<close> can return \<open>NaN\<close>, which
  is neither at least -3 nor at most 3. It does so for an answered question whose
  chosen option has no \<open>scoreKey\<close>, and it does so for well-formed metadata when an
  item parameter is extreme: with \<open>a = 2^665\<close>, \<open>b = 1\<close> and \<open>u = 1\<close> the
  exponential and the square of \<open>a\<close> overflow in the arithmetic of the format, and
  the second derivative is \<open>-Infinity * 0\<close>.
\<close>

theorem theta_counterexample:
  "findBestThetaForDichotomy double_arith ex_huge_params ''E-I'' ex_mbti_answers
     ex_mbti_questions = Inr NaN
   \<and> findBestThetaForDichotomy double_arith ex_params ''E-I'' ex_mbti_answers
       ex_questions_no_scoreKey = Inr NaN
   \<and> \<not> jle (Num (- 3)) NaN \<and> \<not> jle NaN (Num 3)"
  by (simp add: ex_estimates ex_overflow_estimate jle_def)

text \<open>
  Claim C4, amended. For every input and in every arithmetic,
  \<open>findBestThetaForDichotomy\<close> either raises the \<open>TypeError\<close> of a lookup on
  \<open>undefined\<close>, or returns \<open>NaN\<close>, or returns a number in the closed interval
  \<open>[-3, 3]\<close>. It returns a number in \<open>[-3, 3]\<close> whenever the chosen options of the
  answered questions are found and both derivatives are finite numbers at every theta of
  the interval, in an arithmetic that returns no \<open>NaN\<close> on finite operands, as the
  one of the format does.
\<close>

theorem theta_within_bounds:
  "((\<exists>e. findBestThetaForDichotomy A ip d answers qs = Inl e
          \<and> (e = TypeError ''options'' \<or> e = TypeError ''scoreKey''))
    \<or> findBestThetaForDichotomy A ip d answers qs = Inr NaN
    \<or> (\<exists>t. findBestThetaForDichotomy A ip d answers qs = Inr (Num t) \<and> - 3 \<le> t \<and> t \<le> 3))
   \<and> (defined_on_finite A \<and> spec_items ip d answers qs = Some its
       \<and> (\<forall>t. - 3 \<le> t \<and> t \<le> 3 \<longrightarrow>
             (\<exists>f s. spec_first A (Num t) (Num 0) its = Num f
                    \<and> spec_second A (Num t) (Num 0) its = Num s))
      \<longrightarrow> (\<exists>t. findBestThetaForDichotomy A ip d answers qs = Inr (Num t)
                \<and> - 3 \<le> t \<and> t \<le> 3))"
  using findBestTheta_outcomes [of A ip d answers qs]
    findBestTheta_finite [of A ip d answers qs its]
  by blast

theorem theta_within_bounds_witness:
  "spec_items ex_params ''E-I'' ex_mbti_answers ex_mbti_questions = Some [(1, 0, Some 1)]
   \<and> spec_first exact_arith (Num 0) (Num 0) [(1, 0, Some 1)] = Num (1 / 2)
   \<and> spec_second exact_arith (Num 0) (Num 0) [(1, 0, Some 1)] = Num (- 1 / 4)
   \<and> (\<exists>t. findBestThetaForDichotomy exact_arith ex_params ''E-I'' ex_mbti_answers
              ex_mbti_questions = Inr (Num t) \<and> - 3 \<le> t \<and> t \<le> 3)
   \<and> findBestThetaForDichotomy exact_arith ex_params ''E-I'' ex_mbti_answers ex_mbti_questions
       = Inr (Num 3)"
proof -
  have items: "spec_items ex_params ''E-I'' ex_mbti_answers ex_mbti_questions
      = Some [(1, 0, Some 1)]"
    by (simp add: ex_spec_items)
  have fin: "\<forall>t. - 3 \<le> t \<and> t \<le> 3 \<longrightarrow>
      (\<exists>f s. spec_first exact_arith (Num t) (Num 0) [(1, 0, Some 1)] = Num f
             \<and> spec_second exact_arith (Num t) (Num 0) [(1, 0, Some 1)] = Num s)"
    using spec_first_exact [of _ 0 "[(1, 0, 1)]"] spec_second_exact [of _ 0 "[(1, 0, 1)]"]
    by (simp add: numeric_item_def del: spec_first.simps spec_second.simps)
  have v: "spec_first exact_arith (Num 0) (Num 0) [(1, 0, Some 1)] = Num (1 / 2)"
    "spec_second exact_arith (Num 0) (Num 0) [(1, 0, Some 1)] = Num (- 1 / 4)"
    by (simp_all add: spec_P_def)
  from theta_within_bounds [of exact_arith ex_params "''E-I''" ex_mbti_answers
      ex_mbti_questions "[(1, 0, Some 1)]"] defined_on_finite_exact items fin
  have "\<exists>t. findBestThetaForDichotomy exact_arith ex_params ''E-I'' ex_mbti_answers
              ex_mbti_questions = Inr (Num t) \<and> - 3 \<le> t \<and> t \<le> 3"
    by blast
  with items v ex_extreme_estimate show ?thesis by blast
qed

section \<open>A dichotomy without answers\<close>

text \<open>
  Claim C7. For a dichotomy none of whose questions has a recorded answer the estimator
  raises nothing and returns 0, the entry of \<open>coreResults\<close> has the category Slight, and
  the invocation returns a result as soon as the estimates of the other dichotomies are
  numbers (in the second version of the engine, where the index itself enters the
  score, for an arithmetic whose index is finite on \<open>[-3, 3]\<close>, as the one of the
  format is).
\<close>

theorem unanswered_dichotomy:
  assumes "\<forall>i < length ip. dichotomy (ip ! i) = d \<longrightarrow> answers (Suc i) = None"
  shows "findBestThetaForDichotomy A ip d answers qs = Inr (Num 0)
         \<and> coreResult A ip answers qs d
             = Inr \<lparr>res_pcc = Slight, res_theta = Num 0, res_pci = Num 1\<rparr>
         \<and> (d \<in> set DICHOTOMY_CONFIG
              \<and> (\<forall>d' \<in> set DICHOTOMY_CONFIG. d' \<noteq> d \<longrightarrow>
                    (\<exists>t. findBestThetaForDichotomy A ip d' answers qs = Inr (Num t)))
            \<longrightarrow> (\<exists>r. calculateHybridResults A ip answers aa qs aqs = Inr r)
                \<and> (monotone_scaling A
                     \<longrightarrow> (\<exists>r. calculateHybridResults_2 A ip answers aa qs aqs = Inr r)))"
proof -
  have e: "answeredQuestionIndices ip d answers = []"
    using assms by (rule no_answer_no_index)
  then have z: "findBestThetaForDichotomy A ip d answers qs = Inr (Num 0)"
    by (rule findBestTheta_unanswered)
  have "(\<exists>r. calculateHybridResults A ip answers aa qs aqs = Inr r)
        \<and> (monotone_scaling A
             \<longrightarrow> (\<exists>r. calculateHybridResults_2 A ip answers aa qs aqs = Inr r))"
    if "\<forall>d' \<in> set DICHOTOMY_CONFIG. d' \<noteq> d \<longrightarrow>
          (\<exists>t. findBestThetaForDichotomy A ip d' answers qs = Inr (Num t))"
  proof -
    have "\<forall>d' \<in> set DICHOTOMY_CONFIG.
            \<exists>t. findBestThetaForDichotomy A ip d' answers qs = Inr (Num t)"
      using that z by metis
    then show ?thesis
      using numeric_estimates_succeed [of A ip answers qs aa aqs]
        numeric_estimates_succeed_2 [of A ip answers qs aa aqs] by blast
  qed
  then show ?thesis
    using z coreResult_unanswered [OF e] by blast
qed

theorem unanswered_dichotomy_witness:
  "length ex_params = 1 \<and> dichotomy (ex_params ! 0) = ''E-I''
   \<and> ''S-N'' \<in> set DICHOTOMY_CONFIG
   \<and> findBestThetaForDichotomy exact_arith ex_params ''T-F'' ex_mbti_answers ex_mbti_questions
       = Inr (Num 0)
   \<and> (\<exists>t. findBestThetaForDichotomy exact_arith ex_params ''E-I'' ex_mbti_answers
              ex_mbti_questions = Inr (Num t))
   \<and> findBestThetaForDichotomy exact_arith ex_params ''S-N'' ex_mbti_answers ex_mbti_questions
       = Inr (Num 0)
   \<and> coreResult exact_arith ex_params ex_mbti_answers ex_mbti_questions ''S-N''
       = Inr \<lparr>res_pcc = Slight, res_theta = Num 0, res_pci = Num 1\<rparr>
   \<and> (\<exists>ts. calculateHybridResults exact_arith ex_params ex_mbti_answers Map.empty
              ex_mbti_questions []
        = Inr \<lparr>finalType = ''ENTP'', dominant = ''Ne'', auxiliary = ''Ti'', tertiary = ''Fe'',
               inferior = ''Si'', score = Num 24, allTypeScores = ts\<rparr>)
   \<and> (\<exists>r. calculateHybridResults_2 exact_arith ex_params ex_mbti_answers Map.empty
              ex_mbti_questions [] = Inr r)"
proof -
  have p: "length ex_params = 1" "dichotomy (ex_params ! 0) = ''E-I''"
    by (simp_all add: ex_params_def)
  then have h1: "\<forall>i < length ex_params. dichotomy (ex_params ! i) = ''S-N''
              \<longrightarrow> ex_mbti_answers (Suc i) = None"
    by simp
  have h2: "''S-N'' \<in> set DICHOTOMY_CONFIG" by simp
  have ei: "\<exists>t. findBestThetaForDichotomy exact_arith ex_params ''E-I'' ex_mbti_answers
                ex_mbti_questions = Inr (Num t)"
    using ex_extreme_estimate by blast
  have tf: "findBestThetaForDichotomy exact_arith ex_params ''T-F'' ex_mbti_answers
                ex_mbti_questions = Inr (Num 0)"
    by (simp add: findBestTheta_unanswered)
  have h3: "\<forall>d' \<in> set DICHOTOMY_CONFIG. d' \<noteq> ''S-N'' \<longrightarrow>
         (\<exists>t. findBestThetaForDichotomy exact_arith ex_params d' ex_mbti_answers
                ex_mbti_questions = Inr (Num t))"
    using ei tf by (simp add: DICHOTOMY_CONFIG_def)
  from unanswered_dichotomy [OF h1, of exact_arith ex_mbti_questions Map.empty "[]"] h2 h3
    monotone_scaling_exact
  have "findBestThetaForDichotomy exact_arith ex_params ''S-N'' ex_mbti_answers
          ex_mbti_questions = Inr (Num 0)"
    "coreResult exact_arith ex_params ex_mbti_answers ex_mbti_questions ''S-N''
       = Inr \<lparr>res_pcc = Slight, res_theta = Num 0, res_pci = Num 1\<rparr>"
    "\<exists>r. calculateHybridResults_2 exact_arith ex_params ex_mbti_answers Map.empty
            ex_mbti_questions [] = Inr r"
    by blast+
  with ex_extreme_result p h2 ei tf show ?thesis by auto
qed

section \<open>No answers at all\<close>

lemma scoreAll_zero:
  "scoreAll (typeScore neutral neutral neutral initialStrengths)
     = (Some ''INTP'', Num 0,
        \<lambda>t. if t \<in> fst ` set TYPE_FUNCTION_STACKS then Some (Num 0) else None)"
proof -
  let ?f = "typeScore neutral neutral neutral initialStrengths"
  let ?z = "\<lambda>(t::string) (stk::stack). Num 0"
  have eq: "scoreAll ?f = scoreAll ?z"
    unfolding scoreAll_def by (rule scoreStep_cong) (auto simp: typeScore_zero)
  have "snd (snd (scoreAll ?z)) t
          = (if t \<in> fst ` set TYPE_FUNCTION_STACKS then Some (Num 0) else None)" for t
    using scoreLoop_scores [of ?z "(None, NegInfinity, Map.empty)" TYPE_FUNCTION_STACKS t]
      map_of_eq_None_iff [of TYPE_FUNCTION_STACKS t]
    by (cases "map_of TYPE_FUNCTION_STACKS t")
      (simp_all add: scoreAll_def map_of_rev_distinct [OF types_distinct])
  then have "snd (snd (scoreAll ?z))
          = (\<lambda>t. if t \<in> fst ` set TYPE_FUNCTION_STACKS then Some (Num 0) else None)"
    by (intro ext)
  with scoreAll_zero_best eq show ?thesis
    by (cases "scoreAll ?z") simp
qed

text \<open>
  Claim C8. Without any forced-choice answer and any Likert answer, the three estimates
  are 0 with category Slight, the Attitude Strength Map is 0 everywhere, each of the 16
  types is recorded with score 0, and the result is INTP, the first entry of
  \<open>TYPE_FUNCTION_STACKS\<close>, with score 0: a later type never replaces the best fit on a
  tie.
\<close>

theorem no_answers_scenario:
  "coreResults A ip Map.empty allMbtiQuestions
     = Inr (\<lparr>res_pcc = Slight, res_theta = Num 0, res_pci = Num 1\<rparr>,
            \<lparr>res_pcc = Slight, res_theta = Num 0, res_pci = Num 1\<rparr>,
            \<lparr>res_pcc = Slight, res_theta = Num 0, res_pci = Num 1\<rparr>)
   \<and> attitudeStrengths Map.empty allAttitudeQuestions
       = [''Ti'' \<mapsto> Num 0, ''Te'' \<mapsto> Num 0, ''Fi'' \<mapsto> Num 0, ''Fe'' \<mapsto> Num 0,
          ''Si'' \<mapsto> Num 0, ''Se'' \<mapsto> Num 0, ''Ni'' \<mapsto> Num 0, ''Ne'' \<mapsto> Num 0]
   \<and> calculateHybridResults A ip Map.empty Map.empty allMbtiQuestions allAttitudeQuestions
       = Inr \<lparr>finalType = ''INTP'', dominant = ''Ti'', auxiliary = ''Ne'', tertiary = ''Si'',
              inferior = ''Fe'', score = Num 0,
              allTypeScores =
                (\<lambda>t. if t \<in> fst ` set TYPE_FUNCTION_STACKS then Some (Num 0) else None)\<rparr>
   \<and> fst (hd TYPE_FUNCTION_STACKS) = ''INTP''"
proof -
  have "map_of TYPE_FUNCTION_STACKS ''INTP'' = Some (''Ti'', ''Ne'', ''Si'', ''Fe'')"
    by (simp add: TYPE_FUNCTION_STACKS_def)
  then have "calculateHybridResults A ip Map.empty Map.empty allMbtiQuestions
               allAttitudeQuestions
       = Inr \<lparr>finalType = ''INTP'', dominant = ''Ti'', auxiliary = ''Ne'', tertiary = ''Si'',
              inferior = ''Fe'', score = Num 0,
              allTypeScores =
                (\<lambda>t. if t \<in> fst ` set TYPE_FUNCTION_STACKS then Some (Num 0) else None)\<rparr>"
    by (simp add: calculateHybridResults_def coreResults_no_answers attitudeStrengths_no_answers
        scoreAll_zero finalize_def)
  moreover have "fst (hd TYPE_FUNCTION_STACKS) = ''INTP''"
    by (simp add: TYPE_FUNCTION_STACKS_def)
  ultimately show ?thesis
    using coreResults_no_answers [of A ip allMbtiQuestions]
      attitudeStrengths_no_answers [of allAttitudeQuestions]
    by (simp add: neutral_def initialStrengths_def)
qed

theorem no_answers_scenario_witness:
  "calculateHybridResults double_arith ex_params Map.empty Map.empty ex_mbti_questions
     ex_attitude_questions
     = Inr \<lparr>finalType = ''INTP'', dominant = ''Ti'', auxiliary = ''Ne'', tertiary = ''Si'',
            inferior = ''Fe'', score = Num 0,
            allTypeScores =
              (\<lambda>t. if t \<in> fst ` set TYPE_FUNCTION_STACKS then Some (Num 0) else None)\<rparr>"
  using no_answers_scenario [of double_arith ex_params ex_mbti_questions ex_attitude_questions]
  by simp

section \<open>Likert choices outside the weight table\<close>

lemma outside_domain:
  "c \<notin> {NumV (Num 1), NumV (Num 2), NumV (Num 3), NumV (Num 4), NumV (Num 5),
          StrV ''1'', StrV ''2'', StrV ''3'', StrV ''4'', StrV ''5''}
     \<Longrightarrow> likertWeights c = None"
  by (simp add: likertWeights_def)

text \<open>
  Claim C10. A Likert answer whose choice is none of 1 to 5 (as a number or as a string)
  leaves the Attitude Strength Map as it is and raises nothing: the strengths and the
  outcome of the whole invocation, in both versions of the engine, are those of the same
  input with that question unanswered.
\<close>

theorem likert_choice_outside_domain:
  assumes "c \<notin> {NumV (Num 1), NumV (Num 2), NumV (Num 3), NumV (Num 4), NumV (Num 5),
                 StrV ''1'', StrV ''2'', StrV ''3'', StrV ''4'', StrV ''5''}"
  shows "likertStep (aa(q_id q \<mapsto> c)) m q = m
         \<and> attitudeStrengths (aa(k \<mapsto> c)) aqs = attitudeStrengths (aa(k := None)) aqs
         \<and> calculateHybridResults A ip ma (aa(k \<mapsto> c)) qs aqs
             = calculateHybridResults A ip ma (aa(k := None)) qs aqs
         \<and> calculateHybridResults_2 A ip ma (aa(k \<mapsto> c)) qs aqs
             = calculateHybridResults_2 A ip ma (aa(k := None)) qs aqs"
proof -
  note w = outside_domain [OF assms]
  have "likertStep (aa(q_id q \<mapsto> c)) m q = m"
    using w by (simp add: likertStep_def)
  moreover note eq = attitudeStrengths_outside [OF w, of aa k aqs]
  ultimately show ?thesis
    unfolding calculateHybridResults_def calculateHybridResults_2_def eq by simp
qed

theorem likert_choice_outside_domain_witness:
  "StrV ''6'' \<notin> {NumV (Num 1), NumV (Num 2), NumV (Num 3), NumV (Num 4), NumV (Num 5),
                  StrV ''1'', StrV ''2'', StrV ''3'', StrV ''4'', StrV ''5''}
   \<and> attitudeStrengths (ex_attitude_answers(''a3'' \<mapsto> StrV ''6'')) ex_attitude_questions
       = attitudeStrengths ex_attitude_answers ex_attitude_questions
   \<and> (\<exists>ts. calculateHybridResults double_arith [] Map.empty
              (ex_attitude_answers(''a3'' \<mapsto> StrV ''6'')) [] ex_attitude_questions
        = Inr \<lparr>finalType = ''INTP'', dominant = ''Ti'', auxiliary = ''Ne'', tertiary = ''Si'',
               inferior = ''Fe'', score = Num 12, allTypeScores = ts\<rparr>)"
proof -
  have h: "StrV ''6'' \<notin> {NumV (Num 1), NumV (Num 2), NumV (Num 3), NumV (Num 4), NumV (Num 5),
                  StrV ''1'', StrV ''2'', StrV ''3'', StrV ''4'', StrV ''5''}"
    by simp
  have e: "ex_attitude_answers(''a3'' := None) = ex_attitude_answers"
    by (simp add: ex_attitude_answers_def)
  from likert_choice_outside_domain [OF h, where aa = ex_attitude_answers and k = "''a3''"
      and aqs = ex_attitude_questions and A = double_arith and ip = "[]" and ma = Map.empty
      and qs = "[]"] e ex_likert_result [of double_arith] h
  show ?thesis by simp
qed

section \<open>Missing option lookups\<close>

lemma undefined_lookup_raises:
  assumes "i < length ip" "dichotomy (ip ! i) = d" "d \<in> set DICHOTOMY_CONFIG"
    and "find (\<lambda>q. number q = i + 1) qs = Some qd" "answers (i + 1) = Some c"
    and "lookupOption qd c = None"
  shows "\<exists>e. findBestThetaForDichotomy A ip d answers qs = Inl e"
proof -
  have "i \<in> set (answeredQuestionIndices ip d answers)"
    using assms(1,2,5) by (simp add: answered_is_spec_answered [OF assms(3)] set_spec_answered)
  moreover have "resolveItem ip answers qs i = Inl (TypeError ''scoreKey'')"
    using assms(4-6) by (intro resolveItem_undefined) simp_all
  ultimately obtain e
    where "mapE (resolveItem ip answers qs) (answeredQuestionIndices ip d answers) = Inl e"
    using mapE_fails [of i "answeredQuestionIndices ip d answers" "resolveItem ip answers qs"]
    by blast
  then have "findBestThetaForDichotomy A ip d answers qs = Inl e"
    by (rule findBestTheta_raises)
  then show ?thesis by blast
qed

lemma undefined_lookup_errors:
  assumes "i < length ip" "dichotomy (ip ! i) = d" "d \<in> set DICHOTOMY_CONFIG"
    and "find (\<lambda>q. number q = i + 1) qs = Some qd" "answers (i + 1) = Some c"
    and "lookupOption qd c = None"
  shows "findBestThetaForDichotomy A ip d answers qs = Inl (TypeError ''options'')
         \<or> findBestThetaForDichotomy A ip d answers qs = Inl (TypeError ''scoreKey'')"
    and "calculateHybridResults A ip answers aa qs aqs = Inl (TypeError ''options'')
         \<or> calculateHybridResults A ip answers aa qs aqs = Inl (TypeError ''scoreKey'')"
    and "calculateHybridResults_2 A ip answers aa qs aqs = Inl (TypeError ''options'')
         \<or> calculateHybridResults_2 A ip answers aa qs aqs = Inl (TypeError ''scoreKey'')"
    and "(\<forall>j. answers (j + 1) \<noteq> None \<longrightarrow> find (\<lambda>q. number q = j + 1) qs \<noteq> None)
         \<longrightarrow> findBestThetaForDichotomy A ip d answers qs = Inl (TypeError ''scoreKey'')
             \<and> calculateHybridResults A ip answers aa qs aqs = Inl (TypeError ''scoreKey'')
             \<and> calculateHybridResults_2 A ip answers aa qs aqs = Inl (TypeError ''scoreKey'')"
proof -
  from undefined_lookup_raises [where i = i and ip = ip and d = d and qs = qs and qd = qd
      and answers = answers and c = c and A = A] assms
  obtain e where e: "findBestThetaForDichotomy A ip d answers qs = Inl e" by blast
  from findBestTheta_error [OF e] e
  show "findBestThetaForDichotomy A ip d answers qs = Inl (TypeError ''options'')
         \<or> findBestThetaForDichotomy A ip d answers qs = Inl (TypeError ''scoreKey'')"
    by auto
  from invocation_raises [OF assms(3) e, of aa aqs]
  show "calculateHybridResults A ip answers aa qs aqs = Inl (TypeError ''options'')
         \<or> calculateHybridResults A ip answers aa qs aqs = Inl (TypeError ''scoreKey'')"
    and "calculateHybridResults_2 A ip answers aa qs aqs = Inl (TypeError ''options'')
         \<or> calculateHybridResults_2 A ip answers aa qs aqs = Inl (TypeError ''scoreKey'')"
    by auto
  show "(\<forall>j. answers (j + 1) \<noteq> None \<longrightarrow> find (\<lambda>q. number q = j + 1) qs \<noteq> None)
         \<longrightarrow> findBestThetaForDichotomy A ip d answers qs = Inl (TypeError ''scoreKey'')
             \<and> calculateHybridResults A ip answers aa qs aqs = Inl (TypeError ''scoreKey'')
             \<and> calculateHybridResults_2 A ip answers aa qs aqs = Inl (TypeError ''scoreKey'')"
  proof
    assume "\<forall>j. answers (j + 1) \<noteq> None \<longrightarrow> find (\<lambda>q. number q = j + 1) qs \<noteq> None"
    then have all: "\<forall>j. answers (Suc j) \<noteq> None \<longrightarrow> find (\<lambda>q. number q = Suc j) qs \<noteq> None"
      by simp
    from findBestTheta_error_found [OF all e] e invocation_raises_found [OF all assms(3) e]
    show "findBestThetaForDichotomy A ip d answers qs = Inl (TypeError ''scoreKey'')
             \<and> calculateHybridResults A ip answers aa qs aqs = Inl (TypeError ''scoreKey'')
             \<and> calculateHybridResults_2 A ip answers aa qs aqs = Inl (TypeError ''scoreKey'')"
      by simp
  qed
qed

lemma missing_scoreKey_estimate:
  assumes "d \<in> set DICHOTOMY_CONFIG" "spec_items ip d answers qs = Some its"
    and "\<exists>(a, b, u) \<in> set its. u = None"
  shows "findBestThetaForDichotomy A ip d answers qs =
           Inr (if jlt (jabs (spec_second A (Num 0) (Num 0) its)) (Num lit_1e_9)
                then Num 0 else NaN)"
proof -
  from assms(3) have "its \<noteq> []" by auto
  with assms(2) have "spec_answered ip d answers \<noteq> []"
    by (auto simp: spec_items_def)
  from findBestTheta_spec [OF assms(1) this assms(2), of A]
    spec_newton_undefined [OF assms(3), of A 19]
  show ?thesis by (simp del: spec_newton.simps)
qed

lemma ex_core_NaN:
  "coreResults double_arith ex_params ex_mbti_answers ex_questions_no_scoreKey
     = Inr (\<lparr>res_pcc = getPccCategory (computePci double_arith NaN), res_theta = NaN,
             res_pci = computePci double_arith NaN\<rparr>, neutral, neutral)"
  by (simp add: coreResults_Inr coreResult_unanswered neutral_def)
    (simp add: coreResult_def ex_estimates Let_def)

lemma ex_core_flat:
  "coreResults double_arith ex_flat_params ex_mbti_answers ex_questions_no_scoreKey
     = Inr (neutral, neutral, neutral)"
  by (simp add: coreResults_Inr coreResult_unanswered neutral_def)
    (simp add: coreResult_def ex_estimates computePci_def getPccCategory_Num Let_def)

lemma no_evidence_result:
  assumes "coreResults A ip answers qs = Inr (neutral, neutral, neutral)"
  shows "calculateHybridResults A ip answers Map.empty qs aqs
       = Inr \<lparr>finalType = ''INTP'', dominant = ''Ti'', auxiliary = ''Ne'', tertiary = ''Si'',
              inferior = ''Fe'', score = Num 0,
              allTypeScores =
                (\<lambda>t. if t \<in> fst ` set TYPE_FUNCTION_STACKS then Some (Num 0) else None)\<rparr>"
proof -
  have "map_of TYPE_FUNCTION_STACKS ''INTP'' = Some (''Ti'', ''Ne'', ''Si'', ''Fe'')"
    by (simp add: TYPE_FUNCTION_STACKS_def)
  then show ?thesis
    using assms
    by (simp add: calculateHybridResults_def attitudeStrengths_no_answers
        scoreAll_zero finalize_def)
qed

text \<open>
  Claim C3, as stated, fails. With an option that has no \<open>scoreKey\<close> the estimator
  returns \<open>NaN\<close> instead of raising, and the invocation ends, after all 16 types were
  scored, with the \<open>TypeError\<close> of reading index 0 of \<open>undefined\<close>; with an item of
  discrimination \<open>0.00001\<close> the estimator returns 0 and the invocation returns a
  result, INTP, without any error. A choice that is no option of the question but names
  an inherited property, \<open>constructor\<close>, is not noticed at the lookup either.
\<close>

theorem missing_scoreKey_counterexample:
  "findBestThetaForDichotomy double_arith ex_params ''E-I'' ex_mbti_answers
     ex_questions_no_scoreKey = Inr NaN
   \<and> calculateHybridResults double_arith ex_params ex_mbti_answers Map.empty
       ex_questions_no_scoreKey [] = Inl (TypeError ''0'')
   \<and> findBestThetaForDichotomy double_arith ex_flat_params ''E-I'' ex_mbti_answers
       ex_questions_no_scoreKey = Inr (Num 0)
   \<and> \<not> isl (calculateHybridResults double_arith ex_flat_params ex_mbti_answers Map.empty
              ex_questions_no_scoreKey [])
   \<and> map_sum id finalType (calculateHybridResults double_arith ex_flat_params ex_mbti_answers
        Map.empty ex_questions_no_scoreKey []) = Inr ''INTP''
   \<and> options (hd ex_mbti_questions) ''constructor'' = None
   \<and> findBestThetaForDichotomy double_arith ex_params ''E-I'' ex_inherited_answers
       ex_mbti_questions = Inr NaN"
proof -
  have "options (hd ex_mbti_questions) ''constructor'' = None"
    by (simp add: ex_mbti_questions_def)
  then show ?thesis
    using NaN_estimate_result(1) [OF ex_core_NaN, of Map.empty "[]"]
      no_evidence_result [OF ex_core_flat, of "[]"]
    by (simp add: ex_estimates)
qed

text \<open>
  Claim C3, amended. When the lookup of the chosen option of an answered question of one
  of the three dichotomies yields \<open>undefined\<close> (the choice is neither an option of the
  question nor the name of an inherited property), the estimator of the dichotomy and the
  invocation, in both versions of the engine, fail at a lookup with the \<open>TypeError\<close>
  of a property read on \<open>undefined\<close>, which names no question and no answer: the
  read of \<open>scoreKey\<close> if every answered question is in the metadata, otherwise
  possibly the read of \<open>options\<close> on a question that is not. When the options of the
  answered questions of a dichotomy are found and one of them has no \<open>scoreKey\<close>,
  nothing is raised at the lookup: the estimator returns \<open>NaN\<close>, or 0 if the loop
  stops in its first iteration because the second derivative is below \<open>1e-9\<close> in
  magnitude. When no estimator raises and one returns \<open>NaN\<close>, the invocation fails
  only at its end, with the \<open>TypeError\<close> of reading index 0 of an undefined stack.
\<close>

theorem missing_option_lookup:
  "(i < length ip \<and> dichotomy (ip ! i) = d \<and> d \<in> set DICHOTOMY_CONFIG
      \<and> find (\<lambda>q. number q = i + 1) qs = Some qd \<and> answers (i + 1) = Some c
      \<and> lookupOption qd c = None
    \<longrightarrow> (findBestThetaForDichotomy A ip d answers qs = Inl (TypeError ''options'')
          \<or> findBestThetaForDichotomy A ip d answers qs = Inl (TypeError ''scoreKey''))
        \<and> (calculateHybridResults A ip answers aa qs aqs = Inl (TypeError ''options'')
          \<or> calculateHybridResults A ip answers aa qs aqs = Inl (TypeError ''scoreKey''))
        \<and> (calculateHybridResults_2 A ip answers aa qs aqs = Inl (TypeError ''options'')
          \<or> calculateHybridResults_2 A ip answers aa qs aqs = Inl (TypeError ''scoreKey''))
        \<and> ((\<forall>j. answers (j + 1) \<noteq> None \<longrightarrow> find (\<lambda>q. number q = j + 1) qs \<noteq> None)
            \<longrightarrow> findBestThetaForDichotomy A ip d answers qs = Inl (TypeError ''scoreKey'')
                \<and> calculateHybridResults A ip answers aa qs aqs = Inl (TypeError ''scoreKey'')
                \<and> calculateHybridResults_2 A ip answers aa qs aqs
                    = Inl (TypeError ''scoreKey'')))
   \<and> (d \<in> set DICHOTOMY_CONFIG \<and> spec_items ip d answers qs = Some its
      \<and> (\<exists>(a, b, u) \<in> set its. u = None)
    \<longrightarrow> findBestThetaForDichotomy A ip d answers qs =
           Inr (if jlt (jabs (spec_second A (Num 0) (Num 0) its)) (Num lit_1e_9)
                then Num 0 else NaN))
   \<and> ((\<forall>d' \<in> set DICHOTOMY_CONFIG. \<exists>th. findBestThetaForDichotomy A ip d' answers qs = Inr th)
      \<and> (\<exists>d' \<in> set DICHOTOMY_CONFIG. findBestThetaForDichotomy A ip d' answers qs = Inr NaN)
    \<longrightarrow> calculateHybridResults A ip answers aa qs aqs = Inl (TypeError ''0'')
        \<and> calculateHybridResults_2 A ip answers aa qs aqs = Inl (TypeError ''0''))"
  using undefined_lookup_errors [where i = i and ip = ip and d = d and qs = qs and qd = qd
      and answers = answers and c = c and A = A]
    missing_scoreKey_estimate [where d = d and ip = ip and answers = answers and qs = qs
      and its = its and A = A]
    invocation_NaN [where A = A and ip = ip and answers = answers and qs = qs and aa = aa
      and aqs = aqs]
  by blast

theorem missing_option_lookup_witness:
  "lookupOption (hd ex_questions_no_option) ''A'' = None
   \<and> findBestThetaForDichotomy double_arith ex_params ''E-I'' ex_mbti_answers
       ex_questions_no_option = Inl (TypeError ''scoreKey'')
   \<and> calculateHybridResults double_arith ex_params ex_mbti_answers Map.empty
       ex_questions_no_option [] = Inl (TypeError ''scoreKey'')
   \<and> calculateHybridResults_2 double_arith ex_params ex_mbti_answers Map.empty
       ex_questions_no_option [] = Inl (TypeError ''scoreKey'')
   \<and> spec_items ex_params ''E-I'' ex_mbti_answers ex_questions_no_scoreKey
       = Some [(1, 0, None)]
   \<and> findBestThetaForDichotomy double_arith ex_params ''E-I'' ex_mbti_answers
       ex_questions_no_scoreKey = Inr NaN
   \<and> calculateHybridResults double_arith ex_params ex_mbti_answers Map.empty
       ex_questions_no_scoreKey [] = Inl (TypeError ''0'')
   \<and> calculateHybridResults_2 double_arith ex_params ex_mbti_answers Map.empty
       ex_questions_no_scoreKey [] = Inl (TypeError ''0'')"
proof -
  have h1: "0 < length ex_params" "dichotomy (ex_params ! 0) = ''E-I''"
    "''E-I'' \<in> set DICHOTOMY_CONFIG"
    by (simp_all add: ex_params_def)
  have h2: "find (\<lambda>q. number q = 0 + 1) ex_questions_no_option = Some (hd ex_questions_no_option)"
    "ex_mbti_answers (0 + 1) = Some ''A''"
    "lookupOption (hd ex_questions_no_option) ''A'' = None"
    by (simp_all add: ex_questions_no_option_def lookupOption_def inherited_names_def)
  have h3: "\<forall>j. ex_mbti_answers (j + 1) \<noteq> None
              \<longrightarrow> find (\<lambda>q. number q = j + 1) ex_questions_no_option \<noteq> None"
    by (simp add: ex_mbti_answers_def ex_questions_no_option_def)
  have h4: "spec_items ex_params ''E-I'' ex_mbti_answers ex_questions_no_scoreKey
       = Some [(1, 0, None)]"
    "\<exists>(a, b, u) \<in> set [(1::real, 0::real, None::real option)]. u = None"
    by (simp_all add: ex_spec_items)
  note a = missing_option_lookup [where i = 0 and ip = ex_params and d = "''E-I''"
      and qs = ex_questions_no_option and qd = "hd ex_questions_no_option"
      and answers = ex_mbti_answers and c = "''A''" and A = double_arith
      and aa = Map.empty and aqs = "[]"]
  note b = missing_option_lookup [where ip = ex_params and d = "''E-I''"
      and qs = ex_questions_no_scoreKey and answers = ex_mbti_answers and A = double_arith
      and aa = Map.empty and aqs = "[]" and its = "[(1, 0, None)]"]
  have a1: "findBestThetaForDichotomy double_arith ex_params ''E-I'' ex_mbti_answers
       ex_questions_no_option = Inl (TypeError ''scoreKey'')
     \<and> calculateHybridResults double_arith ex_params ex_mbti_answers Map.empty
       ex_questions_no_option [] = Inl (TypeError ''scoreKey'')
     \<and> calculateHybridResults_2 double_arith ex_params ex_mbti_answers Map.empty
       ex_questions_no_option [] = Inl (TypeError ''scoreKey'')"
    using a h1 h2 h3 by blast
  have b0: "findBestThetaForDichotomy double_arith ex_params ''E-I'' ex_mbti_answers
       ex_questions_no_scoreKey
     = Inr (if jlt (jabs (spec_second double_arith (Num 0) (Num 0) [(1, 0, None)]))
                 (Num lit_1e_9)
            then Num 0 else NaN)"
    using b h1(3) h4 by blast
  have b1: "findBestThetaForDichotomy double_arith ex_params ''E-I'' ex_mbti_answers
       ex_questions_no_scoreKey = Inr NaN"
    using b0 unfolding ex_second_derivative(1) by (simp add: lit_1e_9_def)
  have rest: "findBestThetaForDichotomy double_arith ex_params ''S-N'' ex_mbti_answers
       ex_questions_no_scoreKey = Inr (Num 0)"
    "findBestThetaForDichotomy double_arith ex_params ''T-F'' ex_mbti_answers
       ex_questions_no_scoreKey = Inr (Num 0)"
    by (simp_all add: findBestTheta_unanswered)
  have h5: "\<forall>d' \<in> set DICHOTOMY_CONFIG. \<exists>th. findBestThetaForDichotomy double_arith ex_params d'
       ex_mbti_answers ex_questions_no_scoreKey = Inr th"
    "\<exists>d' \<in> set DICHOTOMY_CONFIG. findBestThetaForDichotomy double_arith ex_params d'
       ex_mbti_answers ex_questions_no_scoreKey = Inr NaN"
    using b1 rest by (simp_all add: DICHOTOMY_CONFIG_def)
  have b2: "calculateHybridResults double_arith ex_params ex_mbti_answers Map.empty
       ex_questions_no_scoreKey [] = Inl (TypeError ''0'')
     \<and> calculateHybridResults_2 double_arith ex_params ex_mbti_answers Map.empty
       ex_questions_no_scoreKey [] = Inl (TypeError ''0'')"
    using b h5 by blast
  show ?thesis using h2(3) h4(1) a1 b1 b2 by blast
qed

end
